(* ===== verification/Prelude.thy ===== *)
theory Prelude
  imports Main "HOL-Library.Word" "HOL-Library.Char_ord" "HOL-Library.Sublist"
begin

text \<open>
  What the components share.

  \<^item> \<open>result\<close> is Rust's \<^verbatim>\<open>Result\<close>, with the combinators the sources use.
  \<^item> A Rust \<^verbatim>\<open>str\<close> is its UTF-8 byte sequence, a \<^typ>\<open>string\<close>. \<open>valid_utf8\<close> is the
    language's invariant of the type (and the check \<^verbatim>\<open>from_utf8\<close> makes);
    \<open>char_indices\<close> decodes the scalar values with their byte offsets. Patterns that
    are ASCII (all of the sources' are) are searched for bytewise, which UTF-8 makes exact.
  \<^item> The string operations of the standard library that the sources use.
  \<^item> Decimal text of unsigned integers, in both directions.
  \<^item> \<open>run_ops\<close> and the locale \<open>stateful\<close>: a stateful component whose operations
    either succeed or leave their state alone, and what follows for whole runs.
\<close>

named_theorems str_simps \<open>unfolding rules of the string operations\<close>
named_theorems model_defs \<open>definitions of the model that witnesses unfold\<close>

section \<open>Results\<close>

datatype ('a, 'e) result = Ok (ok_value: 'a) | Err (err_value: 'e)

definition is_ok :: "('a, 'e) result \<Rightarrow> bool" where
  "is_ok r = (case r of Ok _ \<Rightarrow> True | Err _ \<Rightarrow> False)"

definition map_ok :: "('a \<Rightarrow> 'b) \<Rightarrow> ('a, 'e) result \<Rightarrow> ('b, 'e) result" where
  "map_ok f r = (case r of Ok x \<Rightarrow> Ok (f x) | Err e \<Rightarrow> Err e)"

definition map_err :: "('e \<Rightarrow> 'f) \<Rightarrow> ('a, 'e) result \<Rightarrow> ('a, 'f) result" where
  "map_err f r = (case r of Ok x \<Rightarrow> Ok x | Err e \<Rightarrow> Err (f e))"

definition and_then :: "('a, 'e) result \<Rightarrow> ('a \<Rightarrow> ('b, 'e) result) \<Rightarrow> ('b, 'e) result" where
  "and_then r f = (case r of Ok x \<Rightarrow> f x | Err e \<Rightarrow> Err e)"

definition ok_or :: "'e \<Rightarrow> 'a option \<Rightarrow> ('a, 'e) result" where
  "ok_or e x = (case x of Some v \<Rightarrow> Ok v | None \<Rightarrow> Err e)"

definition is_some_and :: "'a option \<Rightarrow> ('a \<Rightarrow> bool) \<Rightarrow> bool" where
  "is_some_and x P = (case x of None \<Rightarrow> False | Some v \<Rightarrow> P v)"

text \<open>\<open>iter().map(f).collect::<Result<Vec<_>, _>>()\<close>: the first error wins.\<close>

fun collect_results :: "('a \<Rightarrow> ('b, 'e) result) \<Rightarrow> 'a list \<Rightarrow> ('b list, 'e) result" where
  "collect_results f [] = Ok []"
| "collect_results f (x # xs) =
     and_then (f x) (\<lambda>y. and_then (collect_results f xs) (\<lambda>ys. Ok (y # ys)))"

lemma is_some_and_simps [simp]: "\<not> is_some_and None P" "is_some_and (Some v) P = P v"
  by (simp_all add: is_some_and_def)

lemma is_some_and_iff: "is_some_and x P \<longleftrightarrow> (\<exists>v. x = Some v \<and> P v)"
  by (cases x) auto

lemma is_ok_simps [simp]: "is_ok (Ok x)" "\<not> is_ok (Err e)"
  by (simp_all add: is_ok_def)

lemma is_ok_iff: "is_ok r \<longleftrightarrow> (\<exists>x. r = Ok x)"
  by (cases r) auto

lemma not_ok_iff: "\<not> is_ok r \<longleftrightarrow> (\<exists>e. r = Err e)"
  by (cases r) auto

lemma map_ok_simps [simp]:
  "map_ok f (Ok x) = Ok (f x)" "map_ok f (Err e) = Err e"
  by (simp_all add: map_ok_def)

lemma map_ok_eq_Ok [simp]: "map_ok f r = Ok y \<longleftrightarrow> (\<exists>x. r = Ok x \<and> y = f x)"
  by (cases r) auto

lemma map_ok_eq_Err [simp]: "map_ok f r = Err e \<longleftrightarrow> r = Err e"
  by (cases r) auto

lemma map_err_simps [simp]:
  "map_err f (Ok x) = Ok x" "map_err f (Err e) = Err (f e)"
  by (simp_all add: map_err_def)

lemma map_err_eq_Ok [simp]: "map_err f r = Ok y \<longleftrightarrow> r = Ok y"
  by (cases r) auto

lemma map_err_eq_Err [simp]: "map_err f r = Err e \<longleftrightarrow> (\<exists>x. r = Err x \<and> e = f x)"
  by (cases r) auto

lemma and_then_simps [simp]:
  "and_then (Ok x) f = f x" "and_then (Err e) f = Err e"
  by (simp_all add: and_then_def)

lemma and_then_eq_Ok [simp]: "and_then r f = Ok y \<longleftrightarrow> (\<exists>x. r = Ok x \<and> f x = Ok y)"
  by (cases r) auto

lemma and_then_eq_Err:
  "and_then r f = Err e \<longleftrightarrow> r = Err e \<or> (\<exists>x. r = Ok x \<and> f x = Err e)"
  by (cases r) auto

lemma ok_or_simps [simp]: "ok_or e None = Err e" "ok_or e (Some x) = Ok x"
  by (simp_all add: ok_or_def)

lemma ok_or_eq_Ok [simp]: "ok_or e x = Ok y \<longleftrightarrow> x = Some y"
  by (cases x) auto

lemma ok_or_eq_Err [simp]: "ok_or e x = Err e' \<longleftrightarrow> x = None \<and> e' = e"
  by (cases x) auto

lemma collect_results_Ok:
  "collect_results f xs = Ok ys \<longleftrightarrow> list_all2 (\<lambda>x y. f x = Ok y) xs ys"
  by (induction xs arbitrary: ys) (auto simp: list_all2_Cons1)

lemma collect_results_member:
  "collect_results f xs = Ok ys \<Longrightarrow> y \<in> set ys \<Longrightarrow> \<exists>x \<in> set xs. f x = Ok y"
  by (fastforce simp: collect_results_Ok list_all2_conv_all_nth in_set_conv_nth)

lemma and_then_OkE: "and_then r f = Ok y \<Longrightarrow> (\<And>x. r = Ok x \<Longrightarrow> f x = Ok y \<Longrightarrow> P) \<Longrightarrow> P"
  by (cases r) simp_all

lemma collect_results_Err:
  "collect_results f xs = Err e \<Longrightarrow> \<exists>x \<in> set xs. f x = Err e"
  by (induction xs) (auto simp: and_then_eq_Err)

section \<open>Bytes, scalar values, UTF-8\<close>

text \<open>A byte of a string as a number; the ASCII classes are predicates on numbers, so that
  they serve for bytes and for scalar values.\<close>

abbreviation byte :: "char \<Rightarrow> nat" where
  "byte c \<equiv> of_char c"

type_synonym scalar = nat

definition is_ascii_digit :: "nat \<Rightarrow> bool" where
  [str_simps]: "is_ascii_digit n \<longleftrightarrow> 48 \<le> n \<and> n \<le> 57"

definition is_ascii_lowercase :: "nat \<Rightarrow> bool" where
  [str_simps]: "is_ascii_lowercase n \<longleftrightarrow> 97 \<le> n \<and> n \<le> 122"

definition is_ascii_uppercase :: "nat \<Rightarrow> bool" where
  [str_simps]: "is_ascii_uppercase n \<longleftrightarrow> 65 \<le> n \<and> n \<le> 90"

definition is_ascii_alphabetic :: "nat \<Rightarrow> bool" where
  [str_simps]: "is_ascii_alphabetic n \<longleftrightarrow> is_ascii_lowercase n \<or> is_ascii_uppercase n"

definition is_ascii_alphanumeric :: "nat \<Rightarrow> bool" where
  [str_simps]: "is_ascii_alphanumeric n \<longleftrightarrow> is_ascii_alphabetic n \<or> is_ascii_digit n"

text \<open>\<^verbatim>\<open>char::is_control\<close> (category Cc) and \<^verbatim>\<open>char::is_whitespace\<close> (White_Space).\<close>

definition is_control :: "scalar \<Rightarrow> bool" where
  [str_simps]: "is_control n \<longleftrightarrow> n < 32 \<or> 127 \<le> n \<and> n < 160"

definition is_whitespace :: "scalar \<Rightarrow> bool" where
  [str_simps]: "is_whitespace n \<longleftrightarrow>
     9 \<le> n \<and> n \<le> 13 \<or> n = 32 \<or> n = 133 \<or> n = 160 \<or> n = 5760 \<or>
     8192 \<le> n \<and> n \<le> 8202 \<or> n = 8232 \<or> n = 8233 \<or> n = 8239 \<or> n = 8287 \<or> n = 12288"

definition to_ascii_lowercase_char :: "char \<Rightarrow> char" where
  [str_simps]: "to_ascii_lowercase_char c =
     (if is_ascii_uppercase (byte c) then char_of (byte c + 32) else c)"

definition to_ascii_lowercase :: "string \<Rightarrow> string" where
  [str_simps]: "to_ascii_lowercase s = map to_ascii_lowercase_char s"

definition eq_ignore_ascii_case :: "string \<Rightarrow> string \<Rightarrow> bool" where
  [str_simps]: "eq_ignore_ascii_case s t \<longleftrightarrow> to_ascii_lowercase s = to_ascii_lowercase t"

text \<open>Well-formed UTF-8, as \<^verbatim>\<open>core::str::from_utf8\<close> checks it.\<close>

definition utf8_cont :: "char \<Rightarrow> bool" where
  [str_simps]: "utf8_cont c \<longleftrightarrow> 128 \<le> byte c \<and> byte c \<le> 191"

fun valid_utf8 :: "string \<Rightarrow> bool" where
  "valid_utf8 [] = True"
| "valid_utf8 (a # s) =
     (if byte a < 128 then valid_utf8 s
      else if 194 \<le> byte a \<and> byte a \<le> 223 then
        (case s of b # t \<Rightarrow> utf8_cont b \<and> valid_utf8 t | _ \<Rightarrow> False)
      else if 224 \<le> byte a \<and> byte a \<le> 239 then
        (case s of b # c # t \<Rightarrow>
           utf8_cont b \<and> (byte a = 224 \<longrightarrow> 160 \<le> byte b) \<and> (byte a = 237 \<longrightarrow> byte b \<le> 159) \<and>
           utf8_cont c \<and> valid_utf8 t
         | _ \<Rightarrow> False)
      else if 240 \<le> byte a \<and> byte a \<le> 244 then
        (case s of b # c # d # t \<Rightarrow>
           utf8_cont b \<and> (byte a = 240 \<longrightarrow> 144 \<le> byte b) \<and> (byte a = 244 \<longrightarrow> byte b \<le> 143) \<and>
           utf8_cont c \<and> utf8_cont d \<and> valid_utf8 t
         | _ \<Rightarrow> False)
      else False)"

text \<open>The width a lead byte announces, and the scalar value at the front of a string.\<close>

definition utf8_width :: "char \<Rightarrow> nat" where
  [str_simps]: "utf8_width c =
     (if byte c < 128 then 1 else if byte c < 224 then 2 else if byte c < 240 then 3 else 4)"

definition byte_at :: "string \<Rightarrow> nat \<Rightarrow> nat" where
  [str_simps]: "byte_at s i = (if i < length s then byte (s ! i) else 0)"

definition front_scalar :: "string \<Rightarrow> scalar" where
  [str_simps]: "front_scalar s =
     (let a = byte_at s 0; b = byte_at s 1 mod 64; c = byte_at s 2 mod 64;
          d = byte_at s 3 mod 64
      in if a < 128 then a
         else if a < 224 then (a mod 32) * 64 + b
         else if a < 240 then ((a mod 16) * 64 + b) * 64 + c
         else (((a mod 8) * 64 + b) * 64 + c) * 64 + d)"

function char_indices_from :: "nat \<Rightarrow> string \<Rightarrow> (nat \<times> scalar) list" where
  "char_indices_from i [] = []"
| "char_indices_from i (a # s) =
     (i, front_scalar (a # s)) #
     char_indices_from (i + utf8_width a) (drop (utf8_width a - 1) s)"
  by pat_completeness auto
termination
  by (relation "measure (\<lambda>(i, s). length s)") auto

definition char_indices :: "string \<Rightarrow> (nat \<times> scalar) list" where
  [str_simps]: "char_indices s = char_indices_from 0 s"

definition chars :: "string \<Rightarrow> scalar list" where
  [str_simps]: "chars s = map snd (char_indices s)"

abbreviation all_bytes :: "(nat \<Rightarrow> bool) \<Rightarrow> string \<Rightarrow> bool" where
  "all_bytes P s \<equiv> \<forall>c \<in> set s. P (byte c)"

abbreviation ascii :: "string \<Rightarrow> bool" where
  "ascii s \<equiv> all_bytes (\<lambda>n. n < 128) s"

subsection \<open>Facts on bytes and decoding\<close>

lemma byte_less [simp]: "byte c < 256"
  by (metis mod_less_divisor of_char_mod_256 zero_less_numeral)

lemma byte_le [simp]: "byte c \<le> 255"
  using byte_less [of c] by linarith

lemma ascii_valid_utf8: "ascii s \<Longrightarrow> valid_utf8 s"
  by (induction s) auto

lemma char_indices_ascii: "ascii s \<Longrightarrow> char_indices_from i s = enumerate i (map byte s)"
  by (induction s arbitrary: i)
     (auto simp: utf8_width_def front_scalar_def byte_at_def Let_def)

lemma chars_ascii: "ascii s \<Longrightarrow> chars s = map byte s"
  by (simp add: chars_def char_indices_def char_indices_ascii)

lemma valid_utf8_drop_front:
  "valid_utf8 (a # s) \<Longrightarrow> valid_utf8 (drop (utf8_width a - 1) s)"
  by (auto simp: utf8_width_def split: if_splits list.splits)

text \<open>A string cut at a character boundary, the start of a byte that does not continue one, is
  still well-formed.\<close>

lemma cont_front:
  "s @ c # u = b # r \<Longrightarrow> utf8_cont b \<Longrightarrow> \<not> utf8_cont c \<Longrightarrow> \<exists>s'. s = b # s' \<and> r = s' @ c # u"
  by (cases s) auto

lemma valid_utf8_boundary: "valid_utf8 (t @ c # u) \<Longrightarrow> \<not> utf8_cont c \<Longrightarrow> valid_utf8 t"
proof (induction "length t" arbitrary: t rule: less_induct)
  case less
  note cf = cont_front [OF _ _ \<open>\<not> utf8_cont c\<close>]
  show ?case
  proof (cases t)
    case Nil
    then show ?thesis by simp
  next
    case (Cons a s)
    with less.prems have v: "valid_utf8 (a # s @ c # u)" by simp
    then consider (one) "byte a < 128"
      | (two) "194 \<le> byte a" "byte a \<le> 223" | (three) "224 \<le> byte a" "byte a \<le> 239"
      | (four) "240 \<le> byte a" "byte a \<le> 244"
      by (auto split: if_splits)
    then show ?thesis
    proof cases
      case one
      with v Cons less.hyps [of s] \<open>\<not> utf8_cont c\<close> show ?thesis by simp
    next
      case two
      with v obtain b r where r: "s @ c # u = b # r" "utf8_cont b" "valid_utf8 r"
        by (auto split: list.splits)
      with cf [OF r(1,2)] obtain s' where "s = b # s'" "r = s' @ c # u" by blast
      with r two Cons less.hyps [of s'] \<open>\<not> utf8_cont c\<close> show ?thesis by simp
    next
      case three
      with v obtain b d r where r: "s @ c # u = b # d # r" "utf8_cont b" "utf8_cont d"
        "valid_utf8 r" "byte a = 224 \<longrightarrow> 160 \<le> byte b" "byte a = 237 \<longrightarrow> byte b \<le> 159"
        by (auto split: list.splits)
      from cf [OF r(1,2)] obtain s' where s': "s = b # s'" "d # r = s' @ c # u" by blast
      from cf [OF s'(2) [symmetric] r(3)] obtain s'' where "s' = d # s''" "r = s'' @ c # u"
        by blast
      with r s' three Cons less.hyps [of s''] \<open>\<not> utf8_cont c\<close> show ?thesis by simp
    next
      case four
      with v obtain b d e r where r: "s @ c # u = b # d # e # r" "utf8_cont b" "utf8_cont d"
        "utf8_cont e" "valid_utf8 r" "byte a = 240 \<longrightarrow> 144 \<le> byte b"
        "byte a = 244 \<longrightarrow> byte b \<le> 143"
        by (auto split: list.splits)
      from cf [OF r(1,2)] obtain s' where s': "s = b # s'" "d # e # r = s' @ c # u" by blast
      from cf [OF s'(2) [symmetric] r(3)] obtain s'' where s'': "s' = d # s''" "e # r = s'' @ c # u"
        by blast
      from cf [OF s''(2) [symmetric] r(4)] obtain s3 where "s'' = e # s3" "r = s3 @ c # u"
        by blast
      with r s' s'' four Cons less.hyps [of s3] \<open>\<not> utf8_cont c\<close> show ?thesis by simp
    qed
  qed
qed

lemma valid_utf8_cut: "valid_utf8 (t @ c # u) \<Longrightarrow> byte c < 128 \<Longrightarrow> valid_utf8 t"
  using valid_utf8_boundary [of t c u] by (simp add: utf8_cont_def)

lemma valid_utf8_append [simp]: "valid_utf8 t \<Longrightarrow> valid_utf8 (t @ u) = valid_utf8 u"
  by (induction t rule: valid_utf8.induct) (auto split: if_splits list.splits)

lemma valid_utf8_cut_iff: "byte c < 128 \<Longrightarrow> valid_utf8 (t @ c # u) \<longleftrightarrow> valid_utf8 t \<and> valid_utf8 u"
  using valid_utf8_cut [of t c u] by auto

lemma front_scalar_ascii: "byte a < 128 \<Longrightarrow> front_scalar (a # s) = byte a"
  by (simp add: front_scalar_def byte_at_def Let_def)

lemma mod_high_bits:
  fixes a :: nat
  shows "192 \<le> a \<Longrightarrow> a < 224 \<Longrightarrow> a mod 32 = a - 192"
    and "224 \<le> a \<Longrightarrow> a < 240 \<Longrightarrow> a mod 16 = a - 224"
    and "240 \<le> a \<Longrightarrow> a < 248 \<Longrightarrow> a mod 8 = a - 240"
    and "128 \<le> a \<Longrightarrow> a < 192 \<Longrightarrow> a mod 64 = a - 128"
  by (simp_all add: mod_nat_eqI)

lemma front_scalar_nonascii:
  assumes "valid_utf8 (a # s)" and "\<not> byte a < 128"
  shows "128 \<le> front_scalar (a # s)"
proof -
  consider (two) "194 \<le> byte a" "byte a \<le> 223"
    | (three) "224 \<le> byte a" "byte a \<le> 239" | (four) "240 \<le> byte a" "byte a \<le> 244"
    using assms by (auto split: if_splits)
  then show ?thesis
  proof cases
    case two
    then show ?thesis
      by (simp add: front_scalar_def byte_at_def Let_def mod_high_bits(1))
  next
    case three
    with assms obtain b t where s: "s = b # t" and b: "128 \<le> byte b" "byte b \<le> 191"
      "byte a = 224 \<longrightarrow> 160 \<le> byte b"
      by (auto simp: utf8_cont_def split: list.splits)
    have "byte b mod 64 = byte b - 128" using b by (simp add: mod_high_bits(4))
    moreover have "2 \<le> (byte a - 224) * 64 + (byte b - 128)"
      using three b by (cases "byte a = 224") linarith+
    ultimately show ?thesis
      using three s by (simp add: front_scalar_def byte_at_def Let_def mod_high_bits(2))
  next
    case four
    with assms obtain b t where s: "s = b # t" and b: "128 \<le> byte b" "byte b \<le> 191"
      "byte a = 240 \<longrightarrow> 144 \<le> byte b"
      by (auto simp: utf8_cont_def split: list.splits)
    have "byte b mod 64 = byte b - 128" using b by (simp add: mod_high_bits(4))
    moreover have "2 \<le> (byte a - 240) * 64 + (byte b - 128)"
      using four b by (cases "byte a = 240") linarith+
    ultimately show ?thesis
      using four s by (simp add: front_scalar_def byte_at_def Let_def mod_high_bits(3))
  qed
qed

text \<open>A test on scalar values that only ASCII passes is a test on bytes.\<close>

lemma all_scalars_ascii:
  assumes "valid_utf8 s" and "\<And>n. P n \<Longrightarrow> n < 128"
  shows "(\<forall>(j, c) \<in> set (char_indices_from i s). P c) \<longleftrightarrow> all_bytes P s"
  using assms(1)
proof (induction i s rule: char_indices_from.induct)
  case (1 i)
  then show ?case by simp
next
  case (2 i a s)
  show ?case
  proof (cases "byte a < 128")
    case True
    with "2.prems" have "valid_utf8 s" by simp
    with True 2 show ?thesis
      by (simp add: front_scalar_ascii utf8_width_def)
  next
    case False
    with "2.prems" have "128 \<le> front_scalar (a # s)" by (rule front_scalar_nonascii)
    with assms(2) have "\<not> P (front_scalar (a # s))" by fastforce
    moreover from False assms(2) have "\<not> P (byte a)" by blast
    ultimately show ?thesis by simp
  qed
qed

lemma find_scalar_None:
  assumes "valid_utf8 s" and "\<And>n. P n \<Longrightarrow> n < 128"
  shows "find (\<lambda>(i, c). \<not> P c) (char_indices s) = None \<longleftrightarrow> all_bytes P s"
  using all_scalars_ascii [of s P 0, OF assms]
  by (auto simp: find_None_iff char_indices_def)

lemma find_scalar_ascii:
  assumes "all_bytes P s" and "\<And>n. P n \<Longrightarrow> n < 128"
  shows "find (\<lambda>(i, c). \<not> P c) (char_indices s) = None"
proof -
  have "ascii s" using assms by auto
  then show ?thesis
    using find_scalar_None [OF ascii_valid_utf8 assms(2), of s] assms(1) by blast
qed

lemma to_ascii_lowercase_byte:
  "byte (to_ascii_lowercase_char c) =
     (if is_ascii_uppercase (byte c) then byte c + 32 else byte c)"
  by (simp add: to_ascii_lowercase_char_def is_ascii_uppercase_def)

lemma to_ascii_lowercase_idem [simp]:
  "to_ascii_lowercase (to_ascii_lowercase s) = to_ascii_lowercase s"
  by (simp add: to_ascii_lowercase_def to_ascii_lowercase_char_def is_ascii_uppercase_def)

lemma length_to_ascii_lowercase [simp]: "length (to_ascii_lowercase s) = length s"
  by (simp add: to_ascii_lowercase_def)

text \<open>Decoding distributes over concatenation and commutes with lowering ASCII letters.\<close>

lemma scalars_offset: "map snd (char_indices_from i s) = map snd (char_indices_from j s)"
  by (induction i s arbitrary: j rule: char_indices_from.induct) simp_all

lemma chars_Cons:
  "chars (a # s) = front_scalar (a # s) # chars (drop (utf8_width a - 1) s)"
  unfolding chars_def char_indices_def using scalars_offset by simp

lemma chars_Nil [simp]: "chars [] = []"
  by (simp add: chars_def char_indices_def)

lemma utf8_front_append:
  "valid_utf8 (a # s) \<Longrightarrow> front_scalar (a # s @ u) = front_scalar (a # s) \<and>
     drop (utf8_width a - 1) (s @ u) = drop (utf8_width a - 1) s @ u"
  by (auto simp: front_scalar_def byte_at_def utf8_width_def Let_def nth_append split: if_splits list.splits)

lemma chars_append: "valid_utf8 t \<Longrightarrow> chars (t @ u) = chars t @ chars u"
proof (induction "length t" arbitrary: t rule: less_induct)
  case less
  show ?case
  proof (cases t)
    case (Cons a s)
    with less.prems have v: "valid_utf8 (drop (utf8_width a - 1) s)" by (simp only: valid_utf8_drop_front)
    from less.hyps [OF _ v] Cons have "chars (drop (utf8_width a - 1) s @ u) =
        chars (drop (utf8_width a - 1) s) @ chars u" by simp
    with Cons less.prems utf8_front_append [of a s u] show ?thesis by (simp add: chars_Cons)
  qed simp
qed

lemma to_ascii_lowercase_append [simp]:
  "to_ascii_lowercase (s @ t) = to_ascii_lowercase s @ to_ascii_lowercase t"
  by (simp add: to_ascii_lowercase_def)

section \<open>String operations\<close>

text \<open>\<^verbatim>\<open>starts_with\<close> and \<^verbatim>\<open>ends_with\<close> are \<^const>\<open>prefix\<close> and \<^const>\<open>suffix\<close>.\<close>

definition strip_prefix :: "string \<Rightarrow> string \<Rightarrow> string option" where
  [str_simps]: "strip_prefix p s = (if prefix p s then Some (drop (length p) s) else None)"

definition strip_suffix :: "string \<Rightarrow> string \<Rightarrow> string option" where
  [str_simps]: "strip_suffix p s =
     (if suffix p s then Some (take (length s - length p) s) else None)"

definition option_or :: "'a option \<Rightarrow> 'a \<Rightarrow> 'a" where
  [str_simps]: "option_or x d = (case x of Some v \<Rightarrow> v | None \<Rightarrow> d)"

text \<open>The byte offset of the first occurrence of a pattern.\<close>

fun find_str :: "string \<Rightarrow> string \<Rightarrow> nat option" where
  "find_str p [] = (if p = [] then Some 0 else None)"
| "find_str p (c # s) = (if prefix p (c # s) then Some 0 else map_option Suc (find_str p s))"

fun find_byte :: "(char \<Rightarrow> bool) \<Rightarrow> string \<Rightarrow> nat option" where
  "find_byte P [] = None"
| "find_byte P (c # s) = (if P c then Some 0 else map_option Suc (find_byte P s))"

definition contains_str :: "string \<Rightarrow> string \<Rightarrow> bool" where
  [str_simps]: "contains_str p s \<longleftrightarrow> find_str p s \<noteq> None"

definition split_once_str :: "string \<Rightarrow> string \<Rightarrow> (string \<times> string) option" where
  [str_simps]: "split_once_str p s =
     (case find_str p s of None \<Rightarrow> None | Some i \<Rightarrow> Some (take i s, drop (i + length p) s))"

fun split_once :: "char \<Rightarrow> string \<Rightarrow> (string \<times> string) option" where
  "split_once d [] = None"
| "split_once d (c # s) =
     (if c = d then Some ([], s)
      else map_option (\<lambda>(a, b). (c # a, b)) (split_once d s))"

definition rsplit_once :: "char \<Rightarrow> string \<Rightarrow> (string \<times> string) option" where
  [str_simps]: "rsplit_once d s = map_option (\<lambda>(a, b). (rev b, rev a)) (split_once d (rev s))"

fun split_on :: "char \<Rightarrow> string \<Rightarrow> string list" where
  "split_on d [] = [[]]"
| "split_on d (c # s) =
     (if c = d then [] # split_on d s
      else (case split_on d s of [] \<Rightarrow> [[c]] | w # ws \<Rightarrow> (c # w) # ws))"

text \<open>\<^verbatim>\<open>split_terminator\<close>: as \<open>split_on\<close>, less an empty last piece.\<close>

definition split_terminator :: "char \<Rightarrow> string \<Rightarrow> string list" where
  [str_simps]: "split_terminator d s =
     (let ws = split_on d s in if last ws = [] then butlast ws else ws)"

definition trim_end_matches :: "char \<Rightarrow> string \<Rightarrow> string" where
  [str_simps]: "trim_end_matches d s = rev (dropWhile (\<lambda>c. c = d) (rev s))"

text \<open>\<^verbatim>\<open>trim\<close>: leading and trailing whitespace scalars are dropped.\<close>

function trim_start :: "string \<Rightarrow> string" where
  "trim_start [] = []"
| "trim_start (c # s) =
     (if is_whitespace (front_scalar (c # s)) then trim_start (drop (utf8_width c - 1) s) else c # s)"
  by pat_completeness auto
termination
  by (relation "measure length") auto

definition trim_end :: "string \<Rightarrow> string" where
  [str_simps]: "trim_end s =
     (case filter (\<lambda>(i, c). \<not> is_whitespace c) (char_indices s) of
        [] \<Rightarrow> []
      | x # xs \<Rightarrow> (let i = fst (last (x # xs)) in take (i + utf8_width (s ! i)) s))"

definition trim :: "string \<Rightarrow> string" where
  [str_simps]: "trim s = trim_end (trim_start s)"

fun join :: "string \<Rightarrow> string list \<Rightarrow> string" where
  "join sep [] = []"
| "join sep [w] = w"
| "join sep (w # v # ws) = w @ sep @ join sep (v # ws)"

lemma find_str_Some:
  "find_str p s = Some i \<Longrightarrow> \<exists>a b. s = a @ p @ b \<and> length a = i"
proof (induction p s arbitrary: i rule: find_str.induct)
  case (1 p)
  then show ?case by (auto split: if_splits)
next
  case (2 p c s)
  show ?case
  proof (cases "prefix p (c # s)")
    case True
    with 2 show ?thesis by (auto simp: prefix_def)
  next
    case False
    with "2.prems" obtain k where "find_str p s = Some k" "i = Suc k" by auto
    with "2.IH" [OF False] obtain a b where "s = a @ p @ b" "length a = k" by blast
    then have "c # s = (c # a) @ p @ b \<and> length (c # a) = i"
      using \<open>i = Suc k\<close> by simp
    then show ?thesis by blast
  qed
qed

lemma find_str_None: "c \<in> set p \<Longrightarrow> c \<notin> set s \<Longrightarrow> find_str p s = None"
proof (induction p s rule: find_str.induct)
  case (1 p)
  then show ?case by auto
next
  case (2 p d s)
  then have "\<not> prefix p (d # s)" by (auto simp: prefix_def) (metis UnI1 set_append set_ConsD)
  with 2 show ?case by simp
qed

lemma split_once_str_Some:
  "split_once_str p s = Some (a, b) \<Longrightarrow> s = a @ p @ b"
  by (auto simp: split_once_str_def split: option.splits dest!: find_str_Some)

lemma split_once_Some:
  "split_once d s = Some (a, b) \<longleftrightarrow> s = a @ d # b \<and> d \<notin> set a"
proof (induction s arbitrary: a)
  case Nil
  then show ?case by simp
next
  case (Cons c s)
  show ?case
  proof (cases a)
    case Nil
    then show ?thesis by auto
  next
    case (Cons e a')
    then show ?thesis using Cons.IH [of a'] by auto
  qed
qed

lemma split_once_None [simp]: "split_once d s = None \<longleftrightarrow> d \<notin> set s"
  by (induction s) auto

lemma split_once_append [simp]:
  "d \<notin> set a \<Longrightarrow> split_once d (a @ d # b) = Some (a, b)"
  by (simp add: split_once_Some)

lemma split_on_not_Nil [simp]: "split_on d s \<noteq> []"
  by (cases s) (auto split: list.splits)

lemma split_on_pieces: "w \<in> set (split_on d s) \<Longrightarrow> d \<notin> set w \<and> set w \<subseteq> set s"
proof (induction d s arbitrary: w rule: split_on.induct)
  case (1 d)
  then show ?case by simp
next
  case (2 d c s)
  obtain v vs where sp: "split_on d s = v # vs"
    by (cases "split_on d s") auto
  show ?case
  proof (cases "c = d")
    case True
    with 2 show ?thesis by auto
  next
    case False
    with "2.prems" sp consider "w = c # v" | "w \<in> set vs" by auto
    then show ?thesis
      using False "2.IH"(2) [OF False, of v] "2.IH"(2) [OF False, of w] sp by cases auto
  qed
qed

lemma split_on_none: "d \<notin> set s \<Longrightarrow> split_on d s = [s]"
  by (induction s) auto

lemma split_on_append:
  "d \<notin> set w \<Longrightarrow> split_on d (w @ d # s) = w # split_on d s"
  by (induction w) auto

lemma split_on_concat: "split_on d (s @ d # w) = split_on d s @ split_on d w"
proof (induction s)
  case Nil
  then show ?case by simp
next
  case (Cons c s)
  obtain v vs where "split_on d s = v # vs" by (cases "split_on d s") auto
  with Cons show ?case by simp
qed

lemma last_split_on_append: "d \<notin> set w \<Longrightarrow> last (split_on d (s @ d # w)) = w"
  by (simp add: split_on_concat split_on_none)

lemma find_byte_None: "\<forall>c \<in> set s. \<not> P c \<Longrightarrow> find_byte P s = None"
  by (induction s) auto

lemma join_split_on: "join [d] (split_on d s) = s"
proof (induction d s rule: split_on.induct)
  case (1 d)
  then show ?case by simp
next
  case (2 d c s)
  obtain w ws where sp: "split_on d s = w # ws"
    by (cases "split_on d s") auto
  show ?case
  proof (cases "c = d")
    case True
    with 2 sp show ?thesis by simp
  next
    case False
    have "join [d] ((c # w) # ws) = c # join [d] (w # ws)" by (cases ws) simp_all
    also have "\<dots> = c # s" using "2.IH"(2) [OF False] sp by simp
    finally show ?thesis using False sp by simp
  qed
qed

lemma split_on_terminated:
  "\<forall>l \<in> set ls. d \<notin> set l \<Longrightarrow> split_on d (concat (map (\<lambda>l. l @ [d]) ls)) = ls @ [[]]"
  by (induction ls) (simp_all add: split_on_append)

lemma split_terminator_lines:
  "\<forall>l \<in> set ls. d \<notin> set l \<Longrightarrow> split_terminator d (concat (map (\<lambda>l. l @ [d]) ls)) = ls"
  by (simp add: split_terminator_def split_on_terminated)

lemma lines_split_terminator:
  assumes "s = [] \<or> suffix [d] s"
  shows "concat (map (\<lambda>l. l @ [d]) (split_terminator d s)) = s \<and>
    (\<forall>l \<in> set (split_terminator d s). d \<notin> set l)"
proof (cases "s = []")
  case False
  with assms obtain t where t: "s = t @ [d]" by (auto simp: suffix_def)
  have "concat (map (\<lambda>l. l @ [d]) (split_on d u)) = u @ [d]" for u
    by (induction u) (auto split: list.splits)
  with t split_on_pieces [of _ d t] show ?thesis
    by (auto simp: split_terminator_def split_on_concat)
qed (simp add: split_terminator_def)

lemma split_on_join:
  "ws \<noteq> [] \<Longrightarrow> \<forall>w \<in> set ws. d \<notin> set w \<Longrightarrow> split_on d (join [d] ws) = ws"
  by (induction ws rule: induct_list012) (simp_all add: split_on_none split_on_append)

lemma set_join: "set (join sep ws) \<subseteq> set sep \<union> (\<Union>w \<in> set ws. set w)"
  by (induction sep ws rule: join.induct) auto

lemma trim_end_matches_set: "set (trim_end_matches d s) \<subseteq> set s"
  by (auto simp: trim_end_matches_def dest: set_dropWhileD)

lemma trim_end_matches_last:
  "trim_end_matches d s \<noteq> [] \<Longrightarrow> last (trim_end_matches d s) \<noteq> d"
  using hd_dropWhile [of "\<lambda>c. c = d" "rev s"]
  by (auto simp add: trim_end_matches_def last_rev simp del: dropWhile_eq_Nil_conv)

lemma trim_end_matches_id: "s \<noteq> [] \<Longrightarrow> last s \<noteq> d \<Longrightarrow> trim_end_matches d s = s"
  by (cases s rule: rev_cases) (auto simp: trim_end_matches_def)

lemma trim_end_matches_prefix: "prefix (trim_end_matches d s) s"
proof -
  have "suffix (dropWhile (\<lambda>c. c = d) (rev s)) (rev s)" by (rule suffix_dropWhile)
  then show ?thesis by (simp add: trim_end_matches_def suffix_to_prefix)
qed

lemma strip_suffix_append [simp]: "strip_suffix p (s @ p) = Some s"
  by (simp add: strip_suffix_def suffix_def)

lemma strip_suffix_Some: "strip_suffix p s = Some t \<longleftrightarrow> s = t @ p"
  by (auto simp: strip_suffix_def suffix_def)

lemma strip_prefix_Some: "strip_prefix p s = Some t \<longleftrightarrow> s = p @ t"
  by (auto simp: strip_prefix_def prefix_def)

section \<open>Decimal text of unsigned integers\<close>

definition digit_char :: "nat \<Rightarrow> char" where
  "digit_char n = char_of (48 + n)"

fun nat_str :: "nat \<Rightarrow> string" where
  "nat_str n = (if n < 10 then [digit_char n] else nat_str (n div 10) @ [digit_char (n mod 10)])"

declare nat_str.simps [simp del]

definition digits_value :: "string \<Rightarrow> nat" where
  "digits_value s = foldl (\<lambda>a c. a * 10 + (byte c - 48)) 0 s"

text \<open>\<^verbatim>\<open>str::parse\<close> at an unsigned type of \<open>w\<close> bits: one leading plus sign is allowed,
  a digit is needed, and a value that does not fit is refused.\<close>

definition parse_uint :: "nat \<Rightarrow> string \<Rightarrow> nat option" where
  "parse_uint w s =
     (let t = (case s of c # u \<Rightarrow> if c = CHR ''+'' then u else s | [] \<Rightarrow> s)
      in if t = [] \<or> \<not> list_all (\<lambda>c. is_ascii_digit (byte c)) t \<or> 2 ^ w \<le> digits_value t
         then None else Some (digits_value t))"

lemma byte_digit_char [simp]: "n < 10 \<Longrightarrow> byte (digit_char n) = 48 + n"
  by (simp add: digit_char_def)

lemma digits_value_snoc [simp]: "digits_value (s @ [c]) = digits_value s * 10 + (byte c - 48)"
  by (simp add: digits_value_def)

lemma nat_str_digits: "\<forall>c \<in> set (nat_str n). is_ascii_digit (byte c)"
proof (induction n rule: nat_str.induct)
  case (1 n)
  show ?case
  proof (cases "n < 10")
    case True
    then show ?thesis by (simp add: nat_str.simps [of n] is_ascii_digit_def)
  next
    case False
    with 1 show ?thesis by (auto simp: nat_str.simps [of n] is_ascii_digit_def)
  qed
qed

lemma nat_str_not_Nil [simp]: "nat_str n \<noteq> []"
  by (subst nat_str.simps) simp

lemma digits_value_nat_str [simp]: "digits_value (nat_str n) = n"
proof (induction n rule: nat_str.induct)
  case (1 n)
  show ?case
  proof (cases "n < 10")
    case True
    then show ?thesis by (simp add: nat_str.simps [of n] digits_value_def)
  next
    case False
    with 1 show ?thesis by (simp add: nat_str.simps [of n])
  qed
qed

lemma parse_uint_digits:
  "s \<noteq> [] \<Longrightarrow> \<forall>c \<in> set s. is_ascii_digit (byte c) \<Longrightarrow>
     parse_uint w s = (if digits_value s < 2 ^ w then Some (digits_value s) else None)"
  by (cases s) (auto simp: parse_uint_def list_all_iff is_ascii_digit_def)

lemma parse_uint_nat_str: "n < 2 ^ w \<Longrightarrow> parse_uint w (nat_str n) = Some n"
  by (simp add: parse_uint_digits nat_str_digits)

lemma length_nat_str: "n < 10 ^ k \<Longrightarrow> 0 < k \<Longrightarrow> length (nat_str n) \<le> k"
proof (induction n arbitrary: k rule: nat_str.induct)
  case (1 n)
  show ?case
  proof (cases "n < 10")
    case False
    with "1.prems" obtain j where k: "k = Suc j" "0 < j" by (cases k; cases "k = 1") auto
    with "1.prems" have "n div 10 < 10 ^ j" by auto
    with 1 False k show ?thesis by (subst nat_str.simps) auto
  qed (use 1 in \<open>simp add: nat_str.simps\<close>)
qed

lemma nat_str_ascii: "ascii (nat_str n)"
  using nat_str_digits [of n] by (auto simp: is_ascii_digit_def)

lemma parse_uint_bound: "parse_uint w s = Some n \<Longrightarrow> n < 2 ^ w"
  by (auto simp: parse_uint_def Let_def split: if_splits)

text \<open>Lowercase hexadecimal text, two digits per byte.\<close>

definition hex_digit_char :: "nat \<Rightarrow> char" where
  "hex_digit_char n = (if n < 10 then char_of (48 + n) else char_of (87 + n))"

definition lower_hex :: "8 word list \<Rightarrow> string" where
  "lower_hex bs = concat (map (\<lambda>b. [hex_digit_char (unat b div 16), hex_digit_char (unat b mod 16)]) bs)"

lemma length_lower_hex: "length (lower_hex bs) = 2 * length bs"
  by (induction bs) (simp_all add: lower_hex_def)

section \<open>Values of the serialisation data model\<close>

text \<open>What a hand-written \<^verbatim>\<open>Serialize\<close> hands to its serializer and a \<^verbatim>\<open>Deserialize\<close> takes
  from its deserializer, for the primitive kinds the sources use.\<close>

datatype ser_value =
    SerStr string
  | SerU16 "16 word"
  | SerU32 "32 word"
  | SerU64 "64 word"
  | SerOther

datatype 'e de_error = DeKind | DeCustom 'e

definition de_string :: "ser_value \<Rightarrow> (string, 'e de_error) result" where
  "de_string v = (case v of SerStr s \<Rightarrow> Ok s | _ \<Rightarrow> Err DeKind)"

text \<open>An unsigned target accepts any unsigned value that fits it.\<close>

definition de_unsigned :: "ser_value \<Rightarrow> (nat, 'e de_error) result" where
  "de_unsigned v = (case v of SerU16 w \<Rightarrow> Ok (unat w) | SerU32 w \<Rightarrow> Ok (unat w)
     | SerU64 w \<Rightarrow> Ok (unat w) | _ \<Rightarrow> Err DeKind)"

definition de_u32 :: "ser_value \<Rightarrow> (32 word, 'e de_error) result" where
  "de_u32 v = and_then (de_unsigned v)
     (\<lambda>n. if n < 2 ^ 32 then Ok (of_nat n) else Err DeKind)"

definition de_u64 :: "ser_value \<Rightarrow> (64 word, 'e de_error) result" where
  "de_u64 v = and_then (de_unsigned v)
     (\<lambda>n. if n < 2 ^ 64 then Ok (of_nat n) else Err DeKind)"

lemma de_string_simps [simp]: "de_string (SerStr s) = Ok s"
  by (simp add: de_string_def)

lemma de_u32_simps [simp]: "de_u32 (SerU32 w) = Ok w"
proof -
  have "unat w < 2 ^ 32" using unsigned_less [of w, where ?'a = nat] by simp
  then show ?thesis by (simp add: de_u32_def de_unsigned_def)
qed

lemma de_u64_simps [simp]: "de_u64 (SerU64 w) = Ok w"
proof -
  have "unat w < 2 ^ 64" using unsigned_less [of w, where ?'a = nat] by simp
  then show ?thesis by (simp add: de_u64_def de_unsigned_def)
qed

text \<open>
  The contract of the validated string identities: parsing keeps the text exactly, the text
  determines the value, and the serialised form is that text, validated again on the way in.
\<close>

locale text_identity =
  fixes parse :: "string \<Rightarrow> ('t, 'e) result"
    and as_str :: "'t \<Rightarrow> string"
  assumes parse_exact: "parse s = Ok t \<Longrightarrow> as_str t = s"
    and as_str_inj: "as_str t = as_str u \<Longrightarrow> t = u"
begin

lemma reparse: "parse s = Ok t \<Longrightarrow> parse (as_str t) = Ok t"
  using parse_exact [of s t] by simp

lemma parse_unique: "parse s = Ok t \<Longrightarrow> parse s' = Ok t \<Longrightarrow> s = s'"
  using parse_exact [of s t] parse_exact [of s' t] by simp

lemma parse_by_text: "parse s = Ok t \<Longrightarrow> as_str u = s \<Longrightarrow> u = t"
  using parse_exact [of s t] as_str_inj [of u t] by simp

end

locale serde_identity = text_identity +
  fixes serialize :: "'a \<Rightarrow> ser_value"
    and deserialize :: "ser_value \<Rightarrow> ('a, 'b de_error) result"
  assumes serialize_str: "serialize t = SerStr (as_str t)"
    and deserialize_def': "deserialize v =
      and_then (de_string v) (\<lambda>s. map_err DeCustom (parse s))"
begin

lemma serde_round_trip: "parse s = Ok t \<Longrightarrow> deserialize (serialize t) = Ok t"
  by (simp add: serialize_str deserialize_def' reparse)

lemma deserialize_only_valid: "deserialize v = Ok t \<Longrightarrow> \<exists>s. v = SerStr s \<and> parse s = Ok t"
  by (cases v) (auto simp: deserialize_def' de_string_def)

end

section \<open>Readers\<close>

text \<open>
  A reader is the list of what its successive \<^verbatim>\<open>read\<close> calls meet: a piece of data (an empty
  one is a zero-length read, which the caller takes for the end), an interrupted call or a
  failing one. A call whose buffer is smaller than the piece leaves the rest of it. After the
  list the source is at its end.
\<close>

datatype 'b read_event = Data "'b list" | Interrupted | Failed

text \<open>What a reader holds: its data up to the first failure or zero-length read.\<close>

fun delivered :: "'b read_event list \<Rightarrow> 'b list" where
  "delivered [] = []"
| "delivered (Interrupted # es) = delivered es"
| "delivered (Failed # es) = []"
| "delivered (Data bs # es) = (if bs = [] then [] else bs @ delivered es)"

section \<open>Components with state\<close>

text \<open>
  An operation on \<^verbatim>\<open>&mut self\<close> that returns a \<^verbatim>\<open>Result\<close> is a function to the state it
  leaves and its result. \<open>run_ops\<close> is a sequence of calls, whatever each one returns, and
  \<open>accepted\<close> the calls among them that returned \<open>Ok\<close>.
\<close>

type_synonym ('op, 's, 'o, 'e) operations = "'op \<Rightarrow> 's \<Rightarrow> 's \<times> ('o, 'e) result"

fun run_ops :: "('op, 's, 'o, 'e) operations \<Rightarrow> 's \<Rightarrow> 'op list \<Rightarrow> 's" where
  "run_ops step s [] = s"
| "run_ops step s (x # xs) = run_ops step (fst (step x s)) xs"

fun accepted :: "('op, 's, 'o, 'e) operations \<Rightarrow> 's \<Rightarrow> 'op list \<Rightarrow> 'op list" where
  "accepted step s [] = []"
| "accepted step s (x # xs) =
     (if is_ok (snd (step x s)) then x # accepted step (fst (step x s)) xs
      else accepted step (fst (step x s)) xs)"

lemma run_ops_append [simp]: "run_ops step s (xs @ ys) = run_ops step (run_ops step s xs) ys"
  by (induction xs arbitrary: s) auto

text \<open>The contract of such a component: every call keeps the invariant, and a call that is
  refused changes nothing.\<close>

locale stateful =
  fixes step :: "('op, 's, 'o, 'e) operations"
    and inv :: "'s \<Rightarrow> bool"
  assumes step_inv: "inv s \<Longrightarrow> inv (fst (step x s))"
    and step_refused: "inv s \<Longrightarrow> snd (step x s) = Err e \<Longrightarrow> fst (step x s) = s"
begin

lemma run_inv: "inv s \<Longrightarrow> inv (run_ops step s xs)"
  by (induction xs arbitrary: s) (auto intro: step_inv)

lemma run_accepted: "inv s \<Longrightarrow> run_ops step s (accepted step s xs) = run_ops step s xs"
proof (induction xs arbitrary: s)
  case Nil
  then show ?case by simp
next
  case (Cons x xs)
  from Cons.prems have inv': "inv (fst (step x s))" by (rule step_inv)
  show ?case
  proof (cases "snd (step x s)")
    case (Ok v)
    with Cons.IH [OF inv'] show ?thesis by simp
  next
    case (Err e)
    with Cons.prems have "fst (step x s) = s" by (rule step_refused)
    with Err Cons.IH [OF Cons.prems] show ?thesis by simp
  qed
qed

lemma accepted_all_ok: "inv s \<Longrightarrow> accepted step s (accepted step s xs) = accepted step s xs"
proof (induction xs arbitrary: s)
  case Nil
  then show ?case by simp
next
  case (Cons x xs)
  from Cons.prems have inv': "inv (fst (step x s))" by (rule step_inv)
  show ?case
  proof (cases "snd (step x s)")
    case (Ok v)
    with Cons.IH [OF inv'] show ?thesis by simp
  next
    case (Err e)
    with Cons.prems have "fst (step x s) = s" by (rule step_refused)
    with Err Cons.IH [OF Cons.prems] show ?thesis by simp
  qed
qed

end

end
