(* ===== verification/Identity.thy ===== *)
theory Identity
  imports Prelude
begin

text \<open>
  \<^verbatim>\<open>crates/cdenv-core/src/identity.rs\<close>: the identities the host and the container agent
  share. The three opaque token identities (the source generates them with one macro) share
  \<open>validate_identity_token\<close>; container IDs are 64 lowercase hexadecimal digits;
  generations and protocol versions are nonzero machine integers; architectures are a closed
  list of aliases. Every string identity is shown to be an instance of the
  \<open>serde_identity\<close> contract.
\<close>

section \<open>Opaque token identities\<close>

datatype identity_token_error =
    TokenEmpty
  | TokenInvalidStart scalar
  | TokenInvalidEnd scalar
  | TokenInvalidCharacter nat scalar

definition is_token_character :: "scalar \<Rightarrow> bool" where
  "is_token_character c \<longleftrightarrow> is_ascii_alphanumeric c \<or> c = 45 \<or> c = 95 \<or> c = 46"

definition validate_identity_token :: "string \<Rightarrow> (unit, identity_token_error) result" where
  "validate_identity_token s =
     (case chars s of
        [] \<Rightarrow> Err TokenEmpty
      | first # _ \<Rightarrow>
          if \<not> is_ascii_alphanumeric first then Err (TokenInvalidStart first)
          else (case find (\<lambda>(i, c). \<not> is_token_character c) (char_indices s) of
              Some (i, c) \<Rightarrow> Err (TokenInvalidCharacter i c)
            | None \<Rightarrow>
                (let l = last (chars s)
                 in if \<not> is_ascii_alphanumeric l then Err (TokenInvalidEnd l) else Ok ())))"

datatype installation_id = InstallationId (InstallationId_as_str: string)
datatype agent_build_id = AgentBuildId (AgentBuildId_as_str: string)
datatype profile_id = ProfileId (ProfileId_as_str: string)

datatype installation_id_error = InstallationIdError identity_token_error
datatype agent_build_id_error = AgentBuildIdError identity_token_error
datatype profile_id_error = ProfileIdError identity_token_error

definition InstallationId_parse :: "string \<Rightarrow> (installation_id, installation_id_error) result" where
  "InstallationId_parse s =
     and_then (map_err InstallationIdError (validate_identity_token s)) (\<lambda>_. Ok (InstallationId s))"

definition InstallationId_serialize :: "installation_id \<Rightarrow> ser_value" where
  "InstallationId_serialize t = SerStr (InstallationId_as_str t)"

definition InstallationId_deserialize ::
    "ser_value \<Rightarrow> (installation_id, installation_id_error de_error) result" where
  "InstallationId_deserialize v =
     and_then (de_string v) (\<lambda>s. map_err DeCustom (InstallationId_parse s))"

definition AgentBuildId_parse :: "string \<Rightarrow> (agent_build_id, agent_build_id_error) result" where
  "AgentBuildId_parse s =
     and_then (map_err AgentBuildIdError (validate_identity_token s)) (\<lambda>_. Ok (AgentBuildId s))"

definition AgentBuildId_serialize :: "agent_build_id \<Rightarrow> ser_value" where
  "AgentBuildId_serialize t = SerStr (AgentBuildId_as_str t)"

definition AgentBuildId_deserialize ::
    "ser_value \<Rightarrow> (agent_build_id, agent_build_id_error de_error) result" where
  "AgentBuildId_deserialize v =
     and_then (de_string v) (\<lambda>s. map_err DeCustom (AgentBuildId_parse s))"

definition ProfileId_parse :: "string \<Rightarrow> (profile_id, profile_id_error) result" where
  "ProfileId_parse s =
     and_then (map_err ProfileIdError (validate_identity_token s)) (\<lambda>_. Ok (ProfileId s))"

definition ProfileId_serialize :: "profile_id \<Rightarrow> ser_value" where
  "ProfileId_serialize t = SerStr (ProfileId_as_str t)"

definition ProfileId_deserialize ::
    "ser_value \<Rightarrow> (profile_id, profile_id_error de_error) result" where
  "ProfileId_deserialize v =
     and_then (de_string v) (\<lambda>s. map_err DeCustom (ProfileId_parse s))"

section \<open>Container IDs\<close>

datatype container_id = ContainerId (ContainerId_as_str: string)

datatype container_id_error =
    ContainerInvalidLength nat
  | ContainerInvalidCharacter nat scalar

definition is_lower_hex :: "scalar \<Rightarrow> bool" where
  "is_lower_hex c \<longleftrightarrow> is_ascii_digit c \<or> 97 \<le> c \<and> c \<le> 102"

definition validate_container_id :: "string \<Rightarrow> (unit, container_id_error) result" where
  "validate_container_id s =
     (if length s \<noteq> 64 then Err (ContainerInvalidLength (length s))
      else (case find (\<lambda>(i, c). \<not> is_lower_hex c) (char_indices s) of
          Some (i, c) \<Rightarrow> Err (ContainerInvalidCharacter i c)
        | None \<Rightarrow> Ok ()))"

definition ContainerId_parse :: "string \<Rightarrow> (container_id, container_id_error) result" where
  "ContainerId_parse s = and_then (validate_container_id s) (\<lambda>_. Ok (ContainerId s))"

definition ContainerId_serialize :: "container_id \<Rightarrow> ser_value" where
  "ContainerId_serialize t = SerStr (ContainerId_as_str t)"

definition ContainerId_deserialize ::
    "ser_value \<Rightarrow> (container_id, container_id_error de_error) result" where
  "ContainerId_deserialize v =
     and_then (de_string v) (\<lambda>s. map_err DeCustom (ContainerId_parse s))"

section \<open>Generations and protocol versions\<close>

datatype generation_id = GenerationId (generation_get: "64 word")
datatype generation_id_error = GenerationIdError

definition GenerationId_new :: "64 word \<Rightarrow> (generation_id, generation_id_error) result" where
  "GenerationId_new v = (if v = 0 then Err GenerationIdError else Ok (GenerationId v))"

definition GenerationId_serialize :: "generation_id \<Rightarrow> ser_value" where
  "GenerationId_serialize g = SerU64 (generation_get g)"

definition GenerationId_deserialize ::
    "ser_value \<Rightarrow> (generation_id, generation_id_error de_error) result" where
  "GenerationId_deserialize v =
     and_then (de_u64 v) (\<lambda>w. map_err DeCustom (GenerationId_new w))"

datatype protocol_version = ProtocolVersion (protocol_get: "32 word")
datatype protocol_version_error = ProtocolVersionError

definition ProtocolVersion_new :: "32 word \<Rightarrow> (protocol_version, protocol_version_error) result" where
  "ProtocolVersion_new v = (if v = 0 then Err ProtocolVersionError else Ok (ProtocolVersion v))"

definition ProtocolVersion_serialize :: "protocol_version \<Rightarrow> ser_value" where
  "ProtocolVersion_serialize p = SerU32 (protocol_get p)"

definition ProtocolVersion_deserialize ::
    "ser_value \<Rightarrow> (protocol_version, protocol_version_error de_error) result" where
  "ProtocolVersion_deserialize v =
     and_then (de_u32 v) (\<lambda>w. map_err DeCustom (ProtocolVersion_new w))"

text \<open>The derived order of the generation newtype, by which the sources key ordered maps.\<close>

instantiation generation_id :: linorder
begin

definition less_eq_generation_id :: "generation_id \<Rightarrow> generation_id \<Rightarrow> bool" where
  "less_eq_generation_id g h \<longleftrightarrow> generation_get g \<le> generation_get h"

definition less_generation_id :: "generation_id \<Rightarrow> generation_id \<Rightarrow> bool" where
  "less_generation_id g h \<longleftrightarrow> generation_get g < generation_get h"

instance
  by standard
     (auto simp: less_eq_generation_id_def less_generation_id_def generation_id.expand)

end

section \<open>Container architectures\<close>

datatype container_architecture = X86_64 | Aarch64
datatype unsupported_container_architecture = UnsupportedContainerArchitecture string

definition ContainerArchitecture_parse ::
    "string \<Rightarrow> (container_architecture, unsupported_container_architecture) result" where
  "ContainerArchitecture_parse s =
     (if s = ''amd64'' \<or> s = ''x86_64'' then Ok X86_64
      else if s = ''arm64'' \<or> s = ''aarch64'' then Ok Aarch64
      else Err (UnsupportedContainerArchitecture s))"

primrec canonical_name :: "container_architecture \<Rightarrow> string" where
  "canonical_name X86_64 = ''x86_64''"
| "canonical_name Aarch64 = ''aarch64''"

primrec docker_name :: "container_architecture \<Rightarrow> string" where
  "docker_name X86_64 = ''amd64''"
| "docker_name Aarch64 = ''arm64''"

primrec musl_target :: "container_architecture \<Rightarrow> string" where
  "musl_target X86_64 = ''x86_64-unknown-linux-musl''"
| "musl_target Aarch64 = ''aarch64-unknown-linux-musl''"

definition ContainerArchitecture_serialize :: "container_architecture \<Rightarrow> ser_value" where
  "ContainerArchitecture_serialize a = SerStr (canonical_name a)"

definition ContainerArchitecture_deserialize ::
    "ser_value \<Rightarrow> (container_architecture, unsupported_container_architecture de_error) result" where
  "ContainerArchitecture_deserialize v =
     and_then (de_string v) (\<lambda>s. map_err DeCustom (ContainerArchitecture_parse s))"

lemmas [model_defs] =
  InstallationId_parse_def AgentBuildId_parse_def ProfileId_parse_def ContainerId_parse_def
  validate_identity_token_def validate_container_id_def GenerationId_new_def
  ProtocolVersion_new_def ContainerArchitecture_parse_def is_token_character_def
  is_lower_hex_def

section \<open>What validation accepts\<close>

text \<open>The documented grammar of a token, on bytes.\<close>

definition identity_token :: "string \<Rightarrow> bool" where
  "identity_token s \<longleftrightarrow> s \<noteq> [] \<and> all_bytes is_token_character s \<and>
     is_ascii_alphanumeric (byte (hd s)) \<and> is_ascii_alphanumeric (byte (last s))"

definition container_hex :: "string \<Rightarrow> bool" where
  "container_hex s \<longleftrightarrow> length s = 64 \<and> all_bytes is_lower_hex s"

lemma alphanumeric_ascii: "is_ascii_alphanumeric n \<Longrightarrow> n < 128"
  by (auto simp: str_simps)

lemma token_character_ascii: "is_token_character n \<Longrightarrow> n < 128"
  by (auto simp: is_token_character_def alphanumeric_ascii)

lemma lower_hex_ascii: "is_lower_hex n \<Longrightarrow> n < 128"
  by (auto simp: is_lower_hex_def is_ascii_digit_def)

lemma chars_eq_Nil [simp]: "chars s = [] \<longleftrightarrow> s = []"
  by (cases s) (auto simp: chars_def char_indices_def)

lemma hd_chars: "s \<noteq> [] \<Longrightarrow> hd (chars s) = front_scalar s"
  by (cases s) (auto simp: chars_def char_indices_def)

lemma hd_chars_alphanumeric:
  assumes "valid_utf8 s" and "s \<noteq> []"
  shows "is_ascii_alphanumeric (hd (chars s)) \<longleftrightarrow> is_ascii_alphanumeric (byte (hd s))"
proof (cases s)
  case Nil
  with assms show ?thesis by simp
next
  case (Cons a t)
  show ?thesis
  proof (cases "byte a < 128")
    case True
    with Cons show ?thesis by (simp add: hd_chars front_scalar_ascii)
  next
    case False
    with assms Cons have "128 \<le> front_scalar (a # t)"
      by (intro front_scalar_nonascii) auto
    with False Cons show ?thesis by (auto simp: hd_chars dest: alphanumeric_ascii)
  qed
qed

lemma last_chars_ascii: "ascii s \<Longrightarrow> s \<noteq> [] \<Longrightarrow> last (chars s) = byte (last s)"
  by (simp add: chars_ascii last_map)

lemma validate_identity_token_iff:
  assumes "valid_utf8 s"
  shows "validate_identity_token s = Ok () \<longleftrightarrow> identity_token s"
proof (cases "s = [] \<or> \<not> all_bytes is_token_character s")
  case True
  moreover from find_scalar_None [of s is_token_character, OF assms token_character_ascii]
  have "find (\<lambda>(i, c). \<not> is_token_character c) (char_indices s) = None
    \<longleftrightarrow> all_bytes is_token_character s" .
  ultimately show ?thesis
    by (auto simp: validate_identity_token_def identity_token_def chars_def char_indices_def
        split: list.splits option.splits)
next
  case False
  then have tok: "all_bytes is_token_character s" and ne: "s \<noteq> []" by auto
  then have asc: "ascii s" by (auto dest: token_character_ascii)
  from tok have "find (\<lambda>(i, c). \<not> is_token_character c) (char_indices s) = None"
    by (rule find_scalar_ascii) (rule token_character_ascii)
  moreover obtain c cs where cs: "chars s = c # cs" using ne by (cases "chars s") auto
  ultimately show ?thesis
    using tok ne cs hd_chars_alphanumeric [OF assms ne] last_chars_ascii [OF asc ne]
    by (simp add: validate_identity_token_def identity_token_def Let_def)
qed

lemma validate_container_id_iff:
  assumes "valid_utf8 s"
  shows "validate_container_id s = Ok () \<longleftrightarrow> container_hex s"
proof -
  from find_scalar_None [of s is_lower_hex, OF assms lower_hex_ascii]
  have "find (\<lambda>(i, c). \<not> is_lower_hex c) (char_indices s) = None
    \<longleftrightarrow> all_bytes is_lower_hex s" .
  then show ?thesis
    by (auto simp: validate_container_id_def container_hex_def split: option.splits)
qed

section \<open>The identities meet the contract\<close>

interpretation installation_id: serde_identity
  InstallationId_parse InstallationId_as_str InstallationId_serialize InstallationId_deserialize
  by unfold_locales
     (auto simp: InstallationId_parse_def InstallationId_serialize_def InstallationId_deserialize_def
       intro: installation_id.expand)

interpretation agent_build_id: serde_identity
  AgentBuildId_parse AgentBuildId_as_str AgentBuildId_serialize AgentBuildId_deserialize
  by unfold_locales
     (auto simp: AgentBuildId_parse_def AgentBuildId_serialize_def AgentBuildId_deserialize_def
       intro: agent_build_id.expand)

interpretation profile_id: serde_identity
  ProfileId_parse ProfileId_as_str ProfileId_serialize ProfileId_deserialize
  by unfold_locales
     (auto simp: ProfileId_parse_def ProfileId_serialize_def ProfileId_deserialize_def
       intro: profile_id.expand)

interpretation container_id: serde_identity
  ContainerId_parse ContainerId_as_str ContainerId_serialize ContainerId_deserialize
  by unfold_locales
     (auto simp: ContainerId_parse_def ContainerId_serialize_def ContainerId_deserialize_def
       intro: container_id.expand)

section \<open>Properties\<close>

lemma is_ok_validated [simp]:
  "is_ok (InstallationId_parse s) \<longleftrightarrow> validate_identity_token s = Ok ()"
  "is_ok (AgentBuildId_parse s) \<longleftrightarrow> validate_identity_token s = Ok ()"
  "is_ok (ProfileId_parse s) \<longleftrightarrow> validate_identity_token s = Ok ()"
  "is_ok (ContainerId_parse s) \<longleftrightarrow> validate_container_id s = Ok ()"
  by (auto simp: is_ok_iff InstallationId_parse_def AgentBuildId_parse_def ProfileId_parse_def
      ContainerId_parse_def)

text \<open>Each of the three token identities accepts exactly the documented grammar
  (non-empty, letters, digits, hyphen, underscore and period only, and a letter or digit at both
  ends), for every well-formed string.\<close>

theorem token_identity_grammar:
  assumes "valid_utf8 s"
  shows "(is_ok (InstallationId_parse s) \<longleftrightarrow> identity_token s) \<and>
    (is_ok (AgentBuildId_parse s) \<longleftrightarrow> identity_token s) \<and>
    (is_ok (ProfileId_parse s) \<longleftrightarrow> identity_token s)"
  by (simp add: validate_identity_token_iff [OF assms])

theorem token_identity_grammar_witness:
  "is_ok (InstallationId_parse ''cdenv-1.2_x'') \<and> \<not> is_ok (ProfileId_parse ''-x'')"
proof -
  have v: "valid_utf8 ''cdenv-1.2_x''" "valid_utf8 ''-x''" by simp_all
  have g: "identity_token ''cdenv-1.2_x''" "\<not> identity_token ''-x''"
    by (simp_all add: identity_token_def is_token_character_def str_simps)
  show ?thesis using token_identity_grammar [OF v(1)] token_identity_grammar [OF v(2)] g by blast
qed

text \<open>A container ID is accepted exactly when it is 64 lowercase hexadecimal digits; it
  keeps its text, so two different texts never give one ID, and it survives serialisation.\<close>

theorem container_id_exact:
  assumes "valid_utf8 s"
  shows "(is_ok (ContainerId_parse s) \<longleftrightarrow> container_hex s) \<and>
    (\<forall>t. ContainerId_parse s = Ok t \<longrightarrow>
       ContainerId_as_str t = s \<and> (\<forall>s'. ContainerId_parse s' = Ok t \<longrightarrow> s' = s) \<and>
       ContainerId_deserialize (ContainerId_serialize t) = Ok t)"
  using validate_container_id_iff [OF assms] container_id.parse_exact [of s]
    container_id.parse_unique [of s] container_id.serde_round_trip [of s]
  by auto

theorem container_id_exact_witness:
  "is_ok (ContainerId_parse (replicate 64 (CHR ''a''))) \<and>
   \<not> is_ok (ContainerId_parse (replicate 64 (CHR ''A'')))"
proof -
  have v: "valid_utf8 (replicate 64 (CHR ''a''))" "valid_utf8 (replicate 64 (CHR ''A''))"
    by (rule ascii_valid_utf8; simp)+
  have g: "container_hex (replicate 64 (CHR ''a''))" "\<not> container_hex (replicate 64 (CHR ''A''))"
    by (simp_all add: container_hex_def is_lower_hex_def str_simps)
  show ?thesis using container_id_exact [OF v(1)] container_id_exact [OF v(2)] g by blast
qed

text \<open>An architecture is parsed from exactly its canonical and its Docker name, and from
  its serialised form; the two architectures have different agent targets.\<close>

theorem container_architecture_aliases:
  "(ContainerArchitecture_parse s = Ok a \<longleftrightarrow> s = canonical_name a \<or> s = docker_name a) \<and>
   ContainerArchitecture_deserialize (ContainerArchitecture_serialize a) = Ok a \<and>
   (musl_target a = musl_target b \<longleftrightarrow> a = b)"
  by (cases a; cases b)
     (auto simp: ContainerArchitecture_parse_def ContainerArchitecture_deserialize_def
       ContainerArchitecture_serialize_def)

text \<open>Generations and protocol versions are never zero, whether constructed or
  deserialised, and every nonzero value of the width is accepted unchanged.\<close>

theorem nonzero_identities:
  "(GenerationId_new v = Ok g \<longleftrightarrow> v \<noteq> 0 \<and> generation_get g = v) \<and>
   (ProtocolVersion_new w = Ok p \<longleftrightarrow> w \<noteq> 0 \<and> protocol_get p = w) \<and>
   (is_ok (GenerationId_deserialize (SerU64 v)) \<longleftrightarrow> v \<noteq> 0) \<and>
   (is_ok (ProtocolVersion_deserialize (SerU32 w)) \<longleftrightarrow> w \<noteq> 0)"
  by (cases g; cases p)
     (auto simp: GenerationId_new_def ProtocolVersion_new_def GenerationId_deserialize_def
       ProtocolVersion_deserialize_def)

end
