(* ===== verification/Workspace.thy ===== *)
theory Workspace
  imports Identity
begin

text \<open>
  \<^verbatim>\<open>crates/cdenv-core/src/workspace.rs\<close>: workspace labels, the SSH host names made from
  them, and the derivation of a default label from a Git source (URL, SCP-like source or local
  path). Validation is shown to accept exactly the documented labels, derivation to produce
  only such labels and to fail in no other way than the documented ones, and the forms of one
  repository to derive one label.
\<close>

section \<open>Workspace names\<close>

definition MAX_WORKSPACE_NAME_LENGTH :: nat where
  "MAX_WORKSPACE_NAME_LENGTH = 63"

definition WORKSPACE_HOST_SUFFIX :: string where
  "WORKSPACE_HOST_SUFFIX = ''.cdenv''"

datatype workspace_name = WorkspaceName (WorkspaceName_as_str: string)

datatype workspace_name_error =
    NameEmpty
  | NameTooLong nat nat
  | NameInvalidStart scalar
  | NameInvalidEnd scalar
  | NameInvalidCharacter nat scalar

definition is_name_character :: "scalar \<Rightarrow> bool" where
  "is_name_character c \<longleftrightarrow> is_ascii_lowercase c \<or> is_ascii_digit c \<or> c = 45"

definition validate_workspace_name :: "string \<Rightarrow> (unit, workspace_name_error) result" where
  "validate_workspace_name s =
     (if s = [] then Err NameEmpty
      else if MAX_WORKSPACE_NAME_LENGTH < length s
        then Err (NameTooLong (length s) MAX_WORKSPACE_NAME_LENGTH)
      else (case find (\<lambda>(i, c). \<not> is_name_character c) (char_indices s) of
          Some (i, c) \<Rightarrow> Err (NameInvalidCharacter i c)
        | None \<Rightarrow>
            (case chars s of
              [] \<Rightarrow> Err NameEmpty
            | first # _ \<Rightarrow>
                if \<not> is_ascii_alphanumeric first then Err (NameInvalidStart first)
                else (let l = last (chars s)
                      in if \<not> is_ascii_alphanumeric l then Err (NameInvalidEnd l) else Ok ()))))"

definition WorkspaceName_parse :: "string \<Rightarrow> (workspace_name, workspace_name_error) result" where
  "WorkspaceName_parse s = and_then (validate_workspace_name s) (\<lambda>_. Ok (WorkspaceName s))"

definition WorkspaceName_serialize :: "workspace_name \<Rightarrow> ser_value" where
  "WorkspaceName_serialize n = SerStr (WorkspaceName_as_str n)"

definition WorkspaceName_deserialize ::
    "ser_value \<Rightarrow> (workspace_name, workspace_name_error de_error) result" where
  "WorkspaceName_deserialize v =
     and_then (de_string v) (\<lambda>s. map_err DeCustom (WorkspaceName_parse s))"

section \<open>Workspace hosts\<close>

datatype workspace_host = WorkspaceHost (host_workspace_name: workspace_name)

datatype workspace_host_error =
    HostInvalidSuffix
  | HostInvalidWorkspaceName workspace_name_error

definition WorkspaceHost_display :: "workspace_host \<Rightarrow> string" where
  "WorkspaceHost_display h =
     WorkspaceName_as_str (host_workspace_name h) @ WORKSPACE_HOST_SUFFIX"

definition WorkspaceHost_parse :: "string \<Rightarrow> (workspace_host, workspace_host_error) result" where
  "WorkspaceHost_parse s =
     (case strip_suffix WORKSPACE_HOST_SUFFIX s of
        None \<Rightarrow> Err HostInvalidSuffix
      | Some n \<Rightarrow>
          and_then (map_err HostInvalidWorkspaceName (WorkspaceName_parse n))
            (\<lambda>w. Ok (WorkspaceHost w)))"

definition WorkspaceHost_serialize :: "workspace_host \<Rightarrow> ser_value" where
  "WorkspaceHost_serialize h = SerStr (WorkspaceHost_display h)"

definition WorkspaceHost_deserialize ::
    "ser_value \<Rightarrow> (workspace_host, workspace_host_error de_error) result" where
  "WorkspaceHost_deserialize v =
     and_then (de_string v) (\<lambda>s. map_err DeCustom (WorkspaceHost_parse s))"

section \<open>Deriving a name from a Git source\<close>

datatype workspace_name_selection_error =
    MissingFinalComponent
  | NonUtf8Path
  | UnsupportedUrlScheme string
  | InvalidUrlEncoding
  | InvalidDerivedName workspace_name_error
  | AlreadyReserved workspace_name

definition scalar_to_ascii_lowercase :: "scalar \<Rightarrow> scalar" where
  "scalar_to_ascii_lowercase c = (if is_ascii_uppercase c then c + 32 else c)"

text \<open>One round of the normalisation loop, on the text so far and \<open>invalid_run\<close>.\<close>

fun normalize_step :: "string \<times> bool \<Rightarrow> scalar \<Rightarrow> string \<times> bool" where
  "normalize_step (normalized, invalid_run) ch =
     (let c = scalar_to_ascii_lowercase ch;
          bridged = (if invalid_run \<and> normalized \<noteq> [] then normalized @ ''-'' else normalized)
      in if is_ascii_lowercase c \<or> is_ascii_digit c then (bridged @ [char_of c], False)
         else if c = 45 then ((if bridged \<noteq> [] then bridged @ ''-'' else bridged), False)
         else (normalized, True))"

definition normalized_text :: "string \<Rightarrow> string" where
  "normalized_text component =
     trim_end_matches (CHR ''-'')
       (fst (foldl normalize_step ([], False)
         (chars (option_or (strip_suffix ''.git'' component) component))))"

definition normalize_repository_component ::
    "string \<Rightarrow> (workspace_name, workspace_name_selection_error) result" where
  "normalize_repository_component component =
     map_err InvalidDerivedName (WorkspaceName_parse (normalized_text component))"

definition hexadecimal_value :: "nat \<Rightarrow> nat option" where
  "hexadecimal_value b =
     (if 48 \<le> b \<and> b \<le> 57 then Some (b - 48)
      else if 97 \<le> b \<and> b \<le> 102 then Some (b - 97 + 10)
      else if 65 \<le> b \<and> b \<le> 70 then Some (b - 65 + 10)
      else None)"

text \<open>The decoding loop from one index on, and the whole function.\<close>

fun percent_decode_bytes :: "string \<Rightarrow> string option" where
  "percent_decode_bytes [] = Some []"
| "percent_decode_bytes (c # s) =
     (if c \<noteq> CHR ''%'' then map_option (Cons c) (percent_decode_bytes s)
      else (case s of
          h # l # t \<Rightarrow>
            (case (hexadecimal_value (byte h), hexadecimal_value (byte l)) of
              (Some high, Some low) \<Rightarrow>
                map_option (Cons (char_of (high * 16 + low))) (percent_decode_bytes t)
            | _ \<Rightarrow> None)
        | _ \<Rightarrow> None))"

definition percent_decode :: "string \<Rightarrow> (string, workspace_name_selection_error) result" where
  "percent_decode s =
     (if CHR ''%'' \<notin> set s then Ok s
      else (case percent_decode_bytes s of
          None \<Rightarrow> Err InvalidUrlEncoding
        | Some d \<Rightarrow> if valid_utf8 d then Ok d else Err InvalidUrlEncoding))"

definition final_slash_component :: "string \<Rightarrow> (string, workspace_name_selection_error) result" where
  "final_slash_component path =
     (let c = last (split_on (CHR ''/'') (trim_end_matches (CHR ''/'') path))
      in if c = [] then Err MissingFinalComponent else Ok c)"

definition scp_like_remote_path :: "string \<Rightarrow> string option" where
  "scp_like_remote_path source =
     (case split_once (CHR '':'') source of
        None \<Rightarrow> None
      | Some (pre, path) \<Rightarrow>
          if pre = [] \<or> CHR ''/'' \<in> set pre \<or> CHR 0x5C \<in> set pre \<or>
             list_ex is_whitespace (chars pre) then None
          else if length pre = 1 \<and> is_ascii_alphabetic (byte (hd pre)) \<and>
                  (prefix ''/'' path \<or> prefix [CHR 0x5C] path) then None
          else Some path)"

text \<open>\<^verbatim>\<open>Path::file_name\<close>, lexically: empty and current-directory components are skipped.\<close>

definition path_file_name :: "string \<Rightarrow> string option" where
  "path_file_name path =
     (case filter (\<lambda>c. c \<noteq> [] \<and> c \<noteq> ''.'') (split_on (CHR ''/'') path) of
        [] \<Rightarrow> None
      | c # cs \<Rightarrow> if last (c # cs) = ''..'' then None else Some (last (c # cs)))"

definition derive_workspace_name_from_path ::
    "string \<Rightarrow> (workspace_name, workspace_name_selection_error) result" where
  "derive_workspace_name_from_path path =
     (case path_file_name path of
        None \<Rightarrow> Err MissingFinalComponent
      | Some component \<Rightarrow>
          if \<not> valid_utf8 component then Err NonUtf8Path
          else normalize_repository_component component)"

definition url_repository_component ::
    "string \<Rightarrow> string \<Rightarrow> (string, workspace_name_selection_error) result" where
  "url_repository_component scheme remainder =
     (let without_query =
            (case find_byte (\<lambda>c. c = CHR ''?'' \<or> c = CHR ''#'') remainder of
               None \<Rightarrow> remainder | Some i \<Rightarrow> take i remainder);
          path =
            (if eq_ignore_ascii_case scheme ''file'' \<and> prefix ''/'' without_query
             then Ok without_query
             else (case split_once (CHR ''/'') without_query of
                 None \<Rightarrow> Err MissingFinalComponent
               | Some (authority, path) \<Rightarrow>
                   if authority = [] \<and> \<not> eq_ignore_ascii_case scheme ''file''
                   then Err MissingFinalComponent else Ok path))
      in and_then path (\<lambda>p. and_then (final_slash_component p) percent_decode))"

definition derive_workspace_name ::
    "string \<Rightarrow> (workspace_name, workspace_name_selection_error) result" where
  "derive_workspace_name source =
     (case split_once_str ''://'' source of
        Some (scheme, remainder) \<Rightarrow>
          if \<not> (eq_ignore_ascii_case scheme ''https'' \<or> eq_ignore_ascii_case scheme ''ssh'' \<or>
               eq_ignore_ascii_case scheme ''file'')
          then Err (UnsupportedUrlScheme scheme)
          else and_then (url_repository_component scheme remainder) normalize_repository_component
      | None \<Rightarrow>
          (case scp_like_remote_path source of
             Some remote_path \<Rightarrow>
               and_then (final_slash_component remote_path) normalize_repository_component
           | None \<Rightarrow> derive_workspace_name_from_path source))"

section \<open>What validation accepts\<close>

definition workspace_label :: "string \<Rightarrow> bool" where
  "workspace_label s \<longleftrightarrow> s \<noteq> [] \<and> length s \<le> 63 \<and> all_bytes is_name_character s \<and>
     hd s \<noteq> CHR ''-'' \<and> last s \<noteq> CHR ''-''"

lemma name_character_ascii: "is_name_character n \<Longrightarrow> n < 128"
  by (auto simp: is_name_character_def str_simps)

lemma byte_eq_45: "byte c = 45 \<longleftrightarrow> c = CHR ''-''"
  using of_char_eq_iff [of c "CHR ''-''", where ?'a = nat] by simp

lemma name_character_alphanumeric:
  "is_name_character (byte c) \<Longrightarrow> is_ascii_alphanumeric (byte c) \<longleftrightarrow> c \<noteq> CHR ''-''"
  using byte_eq_45 [of c]
  by (cases "byte c = 45") (auto simp: is_name_character_def str_simps)

text \<open>Validation on text that is all name characters: only length and ends remain.\<close>

lemma validate_workspace_name_ascii:
  assumes "all_bytes is_name_character s"
  shows "validate_workspace_name s =
    (if s = [] then Err NameEmpty
     else if 63 < length s then Err (NameTooLong (length s) 63)
     else if hd s = CHR ''-'' then Err (NameInvalidStart 45)
     else if last s = CHR ''-'' then Err (NameInvalidEnd 45) else Ok ())"
proof (cases s)
  case Nil
  then show ?thesis by (simp add: validate_workspace_name_def)
next
  case (Cons a t)
  from assms have asc: "ascii s" by (auto dest: name_character_ascii)
  have "find (\<lambda>(i, c). \<not> is_name_character c) (char_indices s) = None"
    using assms by (rule find_scalar_ascii) (rule name_character_ascii)
  moreover have "is_ascii_alphanumeric (byte (hd s)) \<longleftrightarrow> hd s \<noteq> CHR ''-''"
    and "is_ascii_alphanumeric (byte (last s)) \<longleftrightarrow> last s \<noteq> CHR ''-''"
    using assms Cons by (auto intro!: name_character_alphanumeric)
  ultimately show ?thesis
    using Cons chars_ascii [OF asc] last_chars_ascii [OF asc]
    by (auto simp: validate_workspace_name_def MAX_WORKSPACE_NAME_LENGTH_def Let_def
        simp flip: byte_eq_45)
qed

lemma validate_workspace_name_iff:
  assumes "valid_utf8 s"
  shows "validate_workspace_name s = Ok () \<longleftrightarrow> workspace_label s"
proof (cases "all_bytes is_name_character s")
  case True
  then show ?thesis
    by (auto simp: validate_workspace_name_ascii workspace_label_def)
next
  case False
  with find_scalar_None [of s is_name_character, OF assms name_character_ascii]
  show ?thesis
    by (auto simp: validate_workspace_name_def workspace_label_def split: option.splits)
qed

lemma label_valid_utf8: "workspace_label s \<Longrightarrow> valid_utf8 s"
  by (rule ascii_valid_utf8) (auto simp: workspace_label_def dest: name_character_ascii)

lemma WorkspaceName_parse_label: "workspace_label s \<Longrightarrow> WorkspaceName_parse s = Ok (WorkspaceName s)"
  by (simp add: WorkspaceName_parse_def validate_workspace_name_iff label_valid_utf8)

interpretation workspace_name: serde_identity
  WorkspaceName_parse WorkspaceName_as_str WorkspaceName_serialize WorkspaceName_deserialize
  by unfold_locales
     (auto simp: WorkspaceName_parse_def WorkspaceName_serialize_def WorkspaceName_deserialize_def
       intro: workspace_name.expand)

interpretation workspace_host: serde_identity
  WorkspaceHost_parse WorkspaceHost_display WorkspaceHost_serialize WorkspaceHost_deserialize
  by unfold_locales
     (auto simp: WorkspaceHost_parse_def WorkspaceHost_display_def WorkspaceHost_serialize_def
       WorkspaceHost_deserialize_def strip_suffix_Some WorkspaceName_parse_def
       intro: workspace_host.expand workspace_name.expand split: option.splits)

section \<open>Derivation\<close>

text \<open>What the normalisation loop keeps: only name characters, and no leading hyphen.\<close>

definition label_start :: "string \<Rightarrow> bool" where
  "label_start t \<longleftrightarrow> all_bytes is_name_character t \<and> (t \<noteq> [] \<longrightarrow> hd t \<noteq> CHR ''-'')"

lemma label_start_snoc_hyphen: "label_start t \<Longrightarrow> t \<noteq> [] \<Longrightarrow> label_start (t @ ''-'')"
  by (auto simp: label_start_def is_name_character_def)

lemma label_start_snoc:
  assumes "label_start t" and "is_ascii_lowercase c \<or> is_ascii_digit c"
  shows "label_start (t @ [char_of c])"
proof -
  from assms(2) have "byte (char_of c) = c" and "c \<noteq> 45"
    by (auto simp: str_simps)
  with assms show ?thesis
    by (cases t) (auto simp: label_start_def is_name_character_def simp flip: byte_eq_45)
qed

lemma normalize_step_label_start:
  "label_start t \<Longrightarrow> label_start (fst (normalize_step (t, r) c))"
  by (auto simp: Let_def label_start_snoc label_start_snoc_hyphen)

lemma foldl_normalize_label_start:
  "label_start (fst st) \<Longrightarrow> label_start (fst (foldl normalize_step st cs))"
proof (induction cs arbitrary: st)
  case Nil
  then show ?case by simp
next
  case (Cons c cs)
  have "label_start (fst (normalize_step st c))"
    using Cons.prems by (cases st) (simp only: normalize_step_label_start fst_conv)
  then show ?case using Cons.IH by simp
qed

lemma normalized_text_shape:
  fixes s :: string
  defines "t \<equiv> normalized_text s"
  shows "all_bytes is_name_character t" and "t \<noteq> [] \<Longrightarrow> hd t \<noteq> CHR ''-''"
    and "t \<noteq> [] \<Longrightarrow> last t \<noteq> CHR ''-''"
proof -
  let ?u = "fst (foldl normalize_step ([], False)
         (chars (option_or (strip_suffix ''.git'' s) s)))"
  have start: "label_start ?u"
    by (rule foldl_normalize_label_start) (simp add: label_start_def)
  have t: "t = trim_end_matches (CHR ''-'') ?u" by (simp add: t_def normalized_text_def)
  then have pre: "prefix t ?u" by (simp add: trim_end_matches_prefix)
  then show "all_bytes is_name_character t" using start
    by (auto simp: label_start_def prefix_def)
  show "t \<noteq> [] \<Longrightarrow> hd t \<noteq> CHR ''-''" using start pre
    by (auto simp: label_start_def prefix_def)
  show "t \<noteq> [] \<Longrightarrow> last t \<noteq> CHR ''-''"
    using t trim_end_matches_last [of "CHR ''-''" ?u] by simp
qed

lemma normalize_repository_component_eq:
  fixes s :: string
  defines "t \<equiv> normalized_text s"
  shows "normalize_repository_component s =
    (if t = [] then Err (InvalidDerivedName NameEmpty)
     else if 63 < length t then Err (InvalidDerivedName (NameTooLong (length t) 63))
     else Ok (WorkspaceName t))"
  using normalized_text_shape [of s]
  by (auto simp: t_def normalize_repository_component_def WorkspaceName_parse_def
      validate_workspace_name_ascii)

lemma normalize_ok_label:
  "normalize_repository_component s = Ok n \<Longrightarrow> workspace_label (WorkspaceName_as_str n)"
  using normalized_text_shape [of s]
  by (auto simp: normalize_repository_component_eq workspace_label_def split: if_splits)

text \<open>A label is a fixed point of the normalisation.\<close>

lemma normalize_step_name_character:
  assumes "is_name_character (byte c)" and "t \<noteq> [] \<or> c \<noteq> CHR ''-''"
  shows "normalize_step (t, False) (byte c) = (t @ [c], False)"
proof (cases "c = CHR ''-''")
  case True
  then show ?thesis using assms by (simp add: Let_def scalar_to_ascii_lowercase_def str_simps)
next
  case False
  with assms(1) have "is_ascii_lowercase (byte c) \<or> is_ascii_digit (byte c)"
    using byte_eq_45 [of c] by (auto simp: is_name_character_def)
  then show ?thesis by (auto simp: Let_def scalar_to_ascii_lowercase_def str_simps)
qed

lemma foldl_normalize_name_characters:
  assumes "all_bytes is_name_character s" and "t \<noteq> [] \<or> s = [] \<or> hd s \<noteq> CHR ''-''"
  shows "foldl normalize_step (t, False) (map byte s) = (t @ s, False)"
  using assms
proof (induction s arbitrary: t)
  case Nil
  then show ?case by simp
next
  case (Cons c s)
  then have "normalize_step (t, False) (byte c) = (t @ [c], False)"
    by (intro normalize_step_name_character) auto
  moreover have "foldl normalize_step (t @ [c], False) (map byte s) = ((t @ [c]) @ s, False)"
    using Cons.prems by (intro Cons.IH) auto
  ultimately show ?case by simp
qed

lemma label_no_byte: "workspace_label s \<Longrightarrow> c \<in> set s \<Longrightarrow> is_name_character (byte c)"
  by (simp add: workspace_label_def)

lemma normalized_text_label:
  assumes "workspace_label s"
  shows "normalized_text s = s"
proof -
  have "CHR ''.'' \<notin> set s"
    using label_no_byte [OF assms, of "CHR ''.''"] by (auto simp: is_name_character_def str_simps)
  then have git: "strip_suffix ''.git'' s = None"
    by (auto simp: strip_suffix_def suffix_def)
  from assms have asc: "ascii s" by (auto simp: workspace_label_def dest: name_character_ascii)
  have "foldl normalize_step ([], False) (map byte s) = ([] @ s, False)"
    using assms by (intro foldl_normalize_name_characters) (auto simp: workspace_label_def)
  then show ?thesis
    using assms git
    by (simp add: normalized_text_def option_or_def chars_ascii [OF asc] trim_end_matches_id
        workspace_label_def)
qed

lemma normalize_label: "workspace_label s \<Longrightarrow> normalize_repository_component s = Ok (WorkspaceName s)"
  by (simp add: normalize_repository_component_eq normalized_text_label)
     (auto simp: workspace_label_def)

lemma url_component_then_normalize_ok:
  "and_then (url_repository_component a b) normalize_repository_component = Ok n \<Longrightarrow>
     workspace_label (WorkspaceName_as_str n)"
  by (auto dest: normalize_ok_label)

lemma derive_workspace_name_label:
  "derive_workspace_name source = Ok n \<Longrightarrow> workspace_label (WorkspaceName_as_str n)"
  by (auto simp: derive_workspace_name_def derive_workspace_name_from_path_def
      dest: normalize_ok_label split: option.splits if_splits)

lemma derive_from_label:
  assumes "workspace_label s"
  shows "derive_workspace_name s = Ok (WorkspaceName s)"
proof -
  note no = label_no_byte [OF assms]
  have colon: "CHR '':'' \<notin> set s" and slash: "CHR ''/'' \<notin> set s" and dot: "CHR ''.'' \<notin> set s"
    using no [of "CHR '':''"] no [of "CHR ''/''"] no [of "CHR ''.''"]
    by (auto simp: is_name_character_def str_simps)
  have "split_once_str ''://'' s = None"
    using colon find_str_None [of "CHR '':''" "''://''" s] by (simp add: split_once_str_def)
  moreover have "scp_like_remote_path s = None"
    using colon by (simp add: scp_like_remote_path_def split: option.splits)
                   (metis split_once_None option.distinct(1))
  moreover have "path_file_name s = Some s"
    using assms slash dot
    by (auto simp: path_file_name_def split_on_none workspace_label_def)
  ultimately show ?thesis
    using normalize_label [OF assms] label_valid_utf8 [OF assms]
    by (simp add: derive_workspace_name_def derive_workspace_name_from_path_def)
qed

text \<open>The documented failures of the derivation.\<close>

definition derivation_failures :: "workspace_name_selection_error set" where
  "derivation_failures =
     {MissingFinalComponent, NonUtf8Path, InvalidUrlEncoding, InvalidDerivedName NameEmpty}
       \<union> range UnsupportedUrlScheme
       \<union> {InvalidDerivedName (NameTooLong k 63) | k. 63 < k}"

lemma unsupported_scheme_failure [simp]: "UnsupportedUrlScheme x \<in> derivation_failures"
  by (simp add: derivation_failures_def)

lemma final_slash_failures: "final_slash_component p = Err e \<Longrightarrow> e = MissingFinalComponent"
  by (auto simp: final_slash_component_def Let_def split: if_splits)

lemma percent_decode_failures: "percent_decode p = Err e \<Longrightarrow> e = InvalidUrlEncoding"
  by (auto simp: percent_decode_def split: if_splits option.splits)

lemma url_component_failures:
  "url_repository_component a b = Err e \<Longrightarrow> e = MissingFinalComponent \<or> e = InvalidUrlEncoding"
  unfolding url_repository_component_def Let_def and_then_eq_Err
  by (auto dest: final_slash_failures percent_decode_failures
      split: if_splits option.splits prod.splits)

lemma normalize_failures:
  "normalize_repository_component s = Err e \<Longrightarrow> e \<in> derivation_failures"
  by (auto simp: normalize_repository_component_eq derivation_failures_def split: if_splits)

lemma path_failures:
  "derive_workspace_name_from_path s = Err e \<Longrightarrow> e \<in> derivation_failures"
  by (auto simp: derive_workspace_name_from_path_def derivation_failures_def
      dest: normalize_failures [unfolded derivation_failures_def] split: if_splits option.splits)

lemma derive_failures:
  "final_slash_component p = Err e \<Longrightarrow> e \<in> derivation_failures"
  "url_repository_component a b = Err e \<Longrightarrow> e \<in> derivation_failures"
  "normalize_repository_component s = Err e \<Longrightarrow> e \<in> derivation_failures"
  "derive_workspace_name_from_path s = Err e \<Longrightarrow> e \<in> derivation_failures"
  using final_slash_failures [of p e] url_component_failures [of a b e]
    normalize_failures [of s e] path_failures [of s e]
  by (auto simp: derivation_failures_def)

text \<open>The forms of one repository source.\<close>

lemma final_component_repo:
  assumes "repo \<noteq> []" and "set repo \<inter> set ''/?#%'' = {}"
  shows "final_slash_component (p @ ''/'' @ repo) = Ok repo"
proof -
  have "last repo \<in> set repo" using assms(1) by simp
  then have "last repo \<noteq> CHR ''/''" using assms(2) by (metis IntI emptyE list.set_intros(1))
  then have "last (p @ ''/'' @ repo) \<noteq> CHR ''/''" using assms(1) by simp
  then have "trim_end_matches (CHR ''/'') (p @ ''/'' @ repo) = p @ ''/'' @ repo"
    by (intro trim_end_matches_id) auto
  moreover have "last (split_on (CHR ''/'') (p @ CHR ''/'' # repo)) = repo"
    using assms by (intro last_split_on_append) auto
  ultimately show ?thesis using assms by (simp add: final_slash_component_def Let_def)
qed

lemma derive_url_repo:
  assumes "scheme \<in> {''https'', ''ssh'', ''HTTPS''}"
    and "authority \<noteq> []" and "set authority \<inter> set ''/?#'' = {}"
    and "set dir \<inter> set ''?#'' = {}"
    and "repo \<noteq> []" and "set repo \<inter> set ''/?#%'' = {}"
  shows "derive_workspace_name (scheme @ ''://'' @ authority @ ''/'' @ dir @ ''/'' @ repo) =
    normalize_repository_component repo"
proof -
  let ?r = "authority @ CHR ''/'' # dir @ CHR ''/'' # repo"
  have query: "find_byte (\<lambda>c. c = CHR ''?'' \<or> c = CHR ''#'') ?r = None"
    using assms(3,4,6) by (intro find_byte_None) auto
  have auth: "split_once (CHR ''/'') ?r = Some (authority, dir @ CHR ''/'' # repo)"
    using assms(3) by (intro split_once_append) auto
  have not_file: "\<not> eq_ignore_ascii_case scheme ''file''"
    and web: "eq_ignore_ascii_case scheme ''https'' \<or> eq_ignore_ascii_case scheme ''ssh''"
    using assms(1) by (auto simp: str_simps char_of_eq_iff)
  have "CHR ''%'' \<notin> set repo" using assms(6) by auto
  then have url: "url_repository_component scheme ?r = Ok repo"
    using assms(2) not_file final_component_repo [OF assms(5,6), of dir]
    unfolding url_repository_component_def query auth Let_def
    by (simp add: percent_decode_def auth)
  have "split_once_str ''://'' (scheme @ ''://'' @ ?r) = Some (scheme, ?r)"
    using assms(1) by (auto simp: split_once_str_def)
  then show ?thesis using web url by (auto simp: derive_workspace_name_def)
qed

lemma derive_scp_repo:
  assumes "repo \<noteq> []" and "set repo \<inter> set ''/?#%'' = {}"
    and "1 < length host" and "set host \<inter> {CHR ''/'', CHR '':'', CHR 0x5C} = {}"
    and "\<not> list_ex is_whitespace (chars host)"
    and "find_str ''://'' (host @ '':'' @ dir @ ''/'' @ repo) = None"
  shows "derive_workspace_name (host @ '':'' @ dir @ ''/'' @ repo) =
    normalize_repository_component repo"
proof -
  let ?p = "dir @ ''/'' @ repo"
  have "split_once (CHR '':'') (host @ CHR '':'' # ?p) = Some (host, ?p)"
    using assms(4) by (intro split_once_append) auto
  then have "scp_like_remote_path (host @ '':'' @ ?p) = Some ?p"
    using assms(3-5) by (auto simp: scp_like_remote_path_def)
  moreover have "split_once_str ''://'' (host @ '':'' @ ?p) = None"
    using assms(6) by (simp add: split_once_str_def)
  ultimately show ?thesis
    unfolding derive_workspace_name_def
    by (simp only: option.case and_then_simps final_component_repo [OF assms(1,2)])
qed

section \<open>Properties\<close>

text \<open>A workspace name is accepted exactly when it is a lowercase ASCII label of 1 to 63
  letters, digits and hyphens that neither starts nor ends with a hyphen.\<close>

theorem workspace_name_grammar:
  assumes "valid_utf8 s"
  shows "is_ok (WorkspaceName_parse s) \<longleftrightarrow> workspace_label s"
  by (simp add: WorkspaceName_parse_def validate_workspace_name_iff [OF assms] is_ok_iff)

theorem workspace_name_grammar_witness:
  "is_ok (WorkspaceName_parse ''project-2'') \<and> \<not> is_ok (WorkspaceName_parse ''Project'')"
proof -
  have v: "valid_utf8 ''project-2''" "valid_utf8 ''Project''" by simp_all
  have "workspace_label ''project-2''" "\<not> workspace_label ''Project''"
    by (simp_all add: workspace_label_def is_name_character_def str_simps)
  then show ?thesis
    using workspace_name_grammar [OF v(1)] workspace_name_grammar [OF v(2)] by blast
qed

text \<open>Whatever the Git source is, derivation gives a valid label or one of the documented
  failures; a derived text is never refused for a bad character or a bad end, only for being
  empty or too long, and derivation never reports a reservation conflict.\<close>

theorem derive_workspace_name_outcomes:
  "case derive_workspace_name source of
     Ok n \<Rightarrow> workspace_label (WorkspaceName_as_str n)
   | Err e \<Rightarrow> e \<in> derivation_failures"
proof (cases "derive_workspace_name source")
  case (Ok n)
  then show ?thesis using derive_workspace_name_label by simp
next
  case (Err e)
  have "e \<in> derivation_failures"
  proof (cases "split_once_str ''://'' source")
    case None
    with Err show ?thesis
      by (cases "scp_like_remote_path source")
         (auto simp: derive_workspace_name_def and_then_eq_Err dest: derive_failures)
  next
    case (Some p)
    with Err show ?thesis
      by (cases p) (auto simp: derive_workspace_name_def and_then_eq_Err
          dest: derive_failures split: if_splits)
  qed
  with Err show ?thesis by simp
qed

text \<open>A workspace label is derived from itself unchanged, and from the final component of
  an HTTPS or SSH URL and of an SCP-like source of the same repository the same name is derived,
  whatever the host and the directories.\<close>

theorem derive_forms_agree:
  assumes "scheme \<in> {''https'', ''ssh'', ''HTTPS''}"
    and "authority \<noteq> []" and "set authority \<inter> set ''/?#'' = {}"
    and "set dir \<inter> set ''?#'' = {}"
    and "repo \<noteq> []" and "set repo \<inter> set ''/?#%'' = {}"
    and "1 < length host" and "set host \<inter> {CHR ''/'', CHR '':'', CHR 0x5C} = {}"
    and "\<not> list_ex is_whitespace (chars host)"
    and "find_str ''://'' (host @ '':'' @ dir @ ''/'' @ repo) = None"
    and "workspace_label label"
  shows "derive_workspace_name (scheme @ ''://'' @ authority @ ''/'' @ dir @ ''/'' @ repo) =
      normalize_repository_component repo \<and>
    derive_workspace_name (host @ '':'' @ dir @ ''/'' @ repo) =
      normalize_repository_component repo \<and>
    derive_workspace_name label = Ok (WorkspaceName label)"
  using derive_url_repo [OF assms(1-6)] derive_scp_repo [OF assms(5-10)]
    derive_from_label [OF assms(11)]
  by simp

theorem derive_forms_agree_witness:
  "derive_workspace_name ''https://github.com/a/My_Project'' = Ok (WorkspaceName ''my-project'') \<and>
   derive_workspace_name ''git@github.com:a/My_Project'' = Ok (WorkspaceName ''my-project'')"
proof -
  have n: "normalize_repository_component ''My_Project'' = Ok (WorkspaceName ''my-project'')"
    by code_simp
  show ?thesis
    using derive_forms_agree [of "''https''" "''github.com''" "''a''" "''My_Project''"
        "''git@github.com''" "''x''"] n
    by (simp add: str_simps workspace_label_def is_name_character_def)
qed

text \<open>A host name denotes a workspace exactly when it is that workspace's label followed
  by the suffix, so printing and parsing are inverse to each other.\<close>

theorem workspace_host_round_trip:
  assumes "valid_utf8 s"
  shows "WorkspaceHost_parse s = Ok h \<longleftrightarrow>
    s = WorkspaceHost_display h \<and> workspace_label (WorkspaceName_as_str (host_workspace_name h))"
proof
  assume ok: "WorkspaceHost_parse s = Ok h"
  then have d: "s = WorkspaceHost_display h" by (simp add: workspace_host.parse_exact)
  from ok obtain n where n: "s = n @ ''.cdenv''" and p: "WorkspaceName_parse n = Ok (host_workspace_name h)"
    by (auto simp: WorkspaceHost_parse_def WORKSPACE_HOST_SUFFIX_def strip_suffix_Some
        split: option.splits)
  from n assms have v: "valid_utf8 n"
    using valid_utf8_cut [of n "CHR ''.''" "''cdenv''"] by simp
  from workspace_name.parse_exact [OF p] p
  have "WorkspaceName_as_str (host_workspace_name h) = n" "validate_workspace_name n = Ok ()"
    by (auto simp: WorkspaceName_parse_def)
  with d v show "s = WorkspaceHost_display h \<and>
      workspace_label (WorkspaceName_as_str (host_workspace_name h))"
    by (simp add: validate_workspace_name_iff)
next
  assume "s = WorkspaceHost_display h \<and>
    workspace_label (WorkspaceName_as_str (host_workspace_name h))"
  then show "WorkspaceHost_parse s = Ok h"
    by (simp add: WorkspaceHost_parse_def WorkspaceHost_display_def WorkspaceName_parse_label)
qed

theorem workspace_host_round_trip_witness:
  "WorkspaceHost_parse ''web-1.cdenv'' = Ok (WorkspaceHost (WorkspaceName ''web-1''))"
proof -
  have "valid_utf8 ''web-1.cdenv''" by simp
  from workspace_host_round_trip [OF this, of "WorkspaceHost (WorkspaceName ''web-1'')"]
  show ?thesis
    by (simp add: WorkspaceHost_display_def WORKSPACE_HOST_SUFFIX_def workspace_label_def
        is_name_character_def str_simps)
qed

text \<open>The escape of every byte of a string, a reference for the decoder.\<close>

definition hex_digit :: "nat \<Rightarrow> char" where
  "hex_digit n = (if n < 10 then char_of (48 + n) else char_of (87 + n))"

definition percent_encode_all :: "string \<Rightarrow> string" where
  "percent_encode_all s =
     concat (map (\<lambda>c. [CHR ''%'', hex_digit (byte c div 16), hex_digit (byte c mod 16)]) s)"

lemma hexadecimal_value_digit: "n < 16 \<Longrightarrow> hexadecimal_value (byte (hex_digit n)) = Some n"
  by (auto simp: hexadecimal_value_def hex_digit_def)

lemma percent_decode_bytes_encode: "percent_decode_bytes (percent_encode_all s) = Some s"
proof (induction s)
  case Nil
  then show ?case by (simp add: percent_encode_all_def)
next
  case (Cons c s)
  have "byte c div 16 < 16" using byte_less [of c] by linarith
  moreover have "byte c div 16 * 16 + byte c mod 16 = byte c" by simp
  ultimately show ?case
    using Cons by (simp add: percent_encode_all_def hexadecimal_value_digit)
qed

text \<open>Decoding inverts percent encoding of every well-formed string, and encoded bytes that
  are not well-formed UTF-8 are refused.\<close>

theorem percent_decode_round_trip:
  "percent_decode (percent_encode_all s) =
     (if valid_utf8 s then Ok s else Err InvalidUrlEncoding)"
proof (cases s)
  case Nil
  then show ?thesis by (simp add: percent_decode_def percent_encode_all_def)
next
  case (Cons c t)
  then have "CHR ''%'' \<in> set (percent_encode_all s)" by (simp add: percent_encode_all_def)
  with Cons show ?thesis by (simp add: percent_decode_def percent_decode_bytes_encode)
qed

end
