(* ===== verification/Broker_Frames.thy ===== *)
theory Broker_Frames
  imports Identity
begin

text \<open>
  The wire format of \<^verbatim>\<open>crates/cdenv-core/src/credential_broker.rs\<close>: frame kinds, frame
  construction, the 16-byte header, and reading a frame from a byte source that may deliver it
  in any pieces, interrupt, fail or end early. A frame that is written is read back whatever the
  pieces, and nothing that is not the encoding of a frame is read as one.
\<close>

type_synonym u8 = "8 word"
type_synonym bytes = "u8 list"

section \<open>Bounds and errors\<close>

definition CREDENTIAL_BROKER_PROTOCOL :: "16 word" where "CREDENTIAL_BROKER_PROTOCOL = 1"
definition MAX_BROKER_FRAME_BYTES :: nat where "MAX_BROKER_FRAME_BYTES = 64 * 1024"
definition MAX_BROKER_STREAMS :: nat where "MAX_BROKER_STREAMS = 32"
definition MAX_BROKER_QUEUED_FRAMES :: nat where "MAX_BROKER_QUEUED_FRAMES = 64"
definition MAX_BROKER_QUEUED_BYTES :: nat where "MAX_BROKER_QUEUED_BYTES = 512 * 1024"
definition BROKER_FRAME_HEADER_BYTES :: nat where "BROKER_FRAME_HEADER_BYTES = 16"
definition MAX_IDENTITY_BYTES :: nat where "MAX_IDENTITY_BYTES = 8 * 1024"
definition MAGIC :: bytes where "MAGIC = [0x43, 0x44, 0x42, 0x52]"

lemmas broker_bounds =
  CREDENTIAL_BROKER_PROTOCOL_def MAX_BROKER_FRAME_BYTES_def MAX_BROKER_STREAMS_def
  MAX_BROKER_QUEUED_FRAMES_def MAX_BROKER_QUEUED_BYTES_def BROKER_FRAME_HEADER_BYTES_def
  MAX_IDENTITY_BYTES_def MAGIC_def

datatype broker_protocol_error =
    Truncated | Framing | Version | Kind | Bounds | StreamId | StreamLimit | UnknownStream
  | QueueLimit | IdentityMismatch string | OldGeneration | GenerationExists
  | CandidateAuthority | Io

section \<open>Frame kinds\<close>

datatype broker_frame_kind =
    Hello | HelloAck | CredentialLookup | CredentialResult | AgentOpen | StreamData
  | StreamClose | Cancel | IdentityRequest | IdentityResult | Health | HealthAck | Stop
  | ErrorFrame

primrec kind_code :: "broker_frame_kind \<Rightarrow> u8" where
  "kind_code Hello = 1"
| "kind_code HelloAck = 2"
| "kind_code CredentialLookup = 3"
| "kind_code CredentialResult = 4"
| "kind_code AgentOpen = 5"
| "kind_code StreamData = 6"
| "kind_code StreamClose = 7"
| "kind_code Cancel = 8"
| "kind_code IdentityRequest = 9"
| "kind_code IdentityResult = 10"
| "kind_code Health = 11"
| "kind_code HealthAck = 12"
| "kind_code Stop = 13"
| "kind_code ErrorFrame = 14"

definition BrokerFrameKind_try_from :: "u8 \<Rightarrow> (broker_frame_kind, broker_protocol_error) result" where
  "BrokerFrameKind_try_from v =
     (if v = 1 then Ok Hello else if v = 2 then Ok HelloAck
      else if v = 3 then Ok CredentialLookup else if v = 4 then Ok CredentialResult
      else if v = 5 then Ok AgentOpen else if v = 6 then Ok StreamData
      else if v = 7 then Ok StreamClose else if v = 8 then Ok Cancel
      else if v = 9 then Ok IdentityRequest else if v = 10 then Ok IdentityResult
      else if v = 11 then Ok Health else if v = 12 then Ok HealthAck
      else if v = 13 then Ok Stop else if v = 14 then Ok ErrorFrame else Err Kind)"

section \<open>Frames\<close>

record broker_frame =
  frame_kind :: broker_frame_kind
  frame_stream_id :: "32 word"
  frame_payload :: bytes

definition connection_control :: "broker_frame_kind \<Rightarrow> bool" where
  "connection_control k \<longleftrightarrow> k \<in> {Hello, HelloAck, Health, HealthAck, Stop}"

definition BrokerFrame_new ::
    "broker_frame_kind \<Rightarrow> 32 word \<Rightarrow> bytes \<Rightarrow> (broker_frame, broker_protocol_error) result" where
  "BrokerFrame_new k sid p =
     (if MAX_BROKER_FRAME_BYTES < length p then Err Bounds
      else if connection_control k \<noteq> (sid = 0) then Err StreamId
      else Ok \<lparr>frame_kind = k, frame_stream_id = sid, frame_payload = p\<rparr>)"

text \<open>Big-endian integers.\<close>

definition u16_to_be :: "16 word \<Rightarrow> bytes" where
  "u16_to_be w = [ucast (drop_bit 8 w), ucast w]"

definition u32_to_be :: "32 word \<Rightarrow> bytes" where
  "u32_to_be w = [ucast (drop_bit 24 w), ucast (drop_bit 16 w), ucast (drop_bit 8 w), ucast w]"

definition u16_from_be :: "u8 \<Rightarrow> u8 \<Rightarrow> 16 word" where
  "u16_from_be a b = or (push_bit 8 (ucast a)) (ucast b)"

definition u32_from_be :: "u8 \<Rightarrow> u8 \<Rightarrow> u8 \<Rightarrow> u8 \<Rightarrow> 32 word" where
  "u32_from_be a b c d =
     or (push_bit 24 (ucast a)) (or (push_bit 16 (ucast b)) (or (push_bit 8 (ucast c)) (ucast d)))"

text \<open>\<^verbatim>\<open>write_to\<close> builds the header and hands it and the payload to the writer;
  \<open>write_all\<close> is the writer's state transformer, \<open>None\<close> for an I/O failure.\<close>

definition frame_header :: "broker_frame \<Rightarrow> 32 word \<Rightarrow> bytes" where
  "frame_header f len =
     MAGIC @ u16_to_be CREDENTIAL_BROKER_PROTOCOL @ [kind_code (frame_kind f), 0] @
     u32_to_be (frame_stream_id f) @ u32_to_be len"

definition BrokerFrame_write_to ::
    "('w \<Rightarrow> bytes \<Rightarrow> 'w option) \<Rightarrow> broker_frame \<Rightarrow> 'w \<Rightarrow> ('w, broker_protocol_error) result" where
  "BrokerFrame_write_to write_all f out =
     (if 2 ^ 32 \<le> length (frame_payload f) then Err Bounds
      else (case write_all out (frame_header f (of_nat (length (frame_payload f)))) of
          None \<Rightarrow> Err Io
        | Some out' \<Rightarrow>
            (case write_all out' (frame_payload f) of None \<Rightarrow> Err Io | Some out'' \<Rightarrow> Ok out'')))"

text \<open>Writing to a vector never fails; \<^verbatim>\<open>encode\<close> ignores the result of the write.\<close>

definition BrokerFrame_encode :: "broker_frame \<Rightarrow> bytes" where
  "BrokerFrame_encode f =
     (case BrokerFrame_write_to (\<lambda>out bs. Some (out @ bs)) f [] of Ok out \<Rightarrow> out | Err _ \<Rightarrow> [])"

definition BrokerFrame_parse_header ::
    "bytes \<Rightarrow> (broker_frame_kind \<times> 32 word \<times> nat, broker_protocol_error) result" where
  "BrokerFrame_parse_header h =
     (if take 4 h \<noteq> MAGIC \<or> h ! 7 \<noteq> 0 then Err Framing
      else if u16_from_be (h ! 4) (h ! 5) \<noteq> CREDENTIAL_BROKER_PROTOCOL then Err Version
      else and_then (BrokerFrameKind_try_from (h ! 6)) (\<lambda>k.
        let sid = u32_from_be (h ! 8) (h ! 9) (h ! 10) (h ! 11);
            len = unat (u32_from_be (h ! 12) (h ! 13) (h ! 14) (h ! 15))
        in if MAX_BROKER_FRAME_BYTES < len then Err Bounds else Ok (k, sid, len)))"

section \<open>Reading from a byte source\<close>

type_synonym reader = "u8 read_event list"

fun read_full :: "reader \<Rightarrow> nat \<Rightarrow> (bytes \<times> reader, broker_protocol_error) result" where
  "read_full es 0 = Ok ([], es)"
| "read_full [] (Suc n) = Ok ([], [])"
| "read_full (Interrupted # es) (Suc n) = read_full es (Suc n)"
| "read_full (Failed # es) (Suc n) = Err Io"
| "read_full (Data bs # es) (Suc n) =
     (if bs = [] then Ok ([], es)
      else if Suc n < length bs then Ok (take (Suc n) bs, Data (drop (Suc n) bs) # es)
      else map_ok (\<lambda>(cs, r). (bs @ cs, r)) (read_full es (Suc n - length bs)))"

definition BrokerFrame_read_from ::
    "reader \<Rightarrow> (broker_frame option \<times> reader, broker_protocol_error) result" where
  "BrokerFrame_read_from input =
     and_then (read_full input BROKER_FRAME_HEADER_BYTES) (\<lambda>(header, input1).
       if length header = 0 then Ok (None, input1)
       else if length header \<noteq> BROKER_FRAME_HEADER_BYTES then Err Truncated
       else and_then (BrokerFrame_parse_header header) (\<lambda>(k, sid, len).
         and_then (read_full input1 len) (\<lambda>(p, input2).
           if length p \<noteq> len then Err Truncated
           else map_ok (\<lambda>f. (Some f, input2)) (BrokerFrame_new k sid p))))"

section \<open>Facts\<close>

lemma kind_round_trip [simp]: "BrokerFrameKind_try_from (kind_code k) = Ok k"
  by (cases k) (simp_all add: BrokerFrameKind_try_from_def)

lemma kind_code_of: "BrokerFrameKind_try_from v = Ok k \<Longrightarrow> kind_code k = v"
  by (auto simp: BrokerFrameKind_try_from_def split: if_splits)

lemmas be_bit_simps = bit_or_iff bit_push_bit_iff bit_ucast_iff bit_drop_bit_eq

lemma u8_high_bits [simp]:
  fixes b :: u8
  shows "\<not> bit b (8 + n)" "\<not> bit b (16 + n)" "\<not> bit b (24 + n)"
  by (auto dest: bit_imp_le_length)

lemma u16_be_round_trip [simp]: "u16_from_be (ucast (drop_bit 8 w)) (ucast w) = w"
  unfolding u16_from_be_def
  by (rule bit_word_eqI) (auto simp: be_bit_simps)

lemma u32_be_round_trip [simp]:
  "u32_from_be (ucast (drop_bit 24 w)) (ucast (drop_bit 16 w)) (ucast (drop_bit 8 w)) (ucast w) = w"
  unfolding u32_from_be_def
proof (rule bit_word_eqI)
  fix n
  assume "n < LENGTH(32)"
  then consider "n < 8" | "8 \<le> n" "n < 16" | "16 \<le> n" "n < 24" | "24 \<le> n" "n < 32"
    by fastforce
  then show "bit (or (push_bit 24 (ucast (ucast (drop_bit 24 w) :: u8)))
      (or (push_bit 16 (ucast (ucast (drop_bit 16 w) :: u8)))
        (or (push_bit 8 (ucast (ucast (drop_bit 8 w) :: u8)))
          (ucast (ucast w :: u8) :: 32 word)))) n = bit w n"
    by cases (auto simp: be_bit_simps)
qed

lemma u32_to_from_be: "u32_to_be (u32_from_be a b c d) = [a, b, c, d]"
  unfolding u32_from_be_def u32_to_be_def
  by (auto intro!: bit_word_eqI simp: be_bit_simps)

lemma u16_to_from_be: "u16_to_be (u16_from_be a b) = [a, b]"
  unfolding u16_from_be_def u16_to_be_def
  by (auto intro!: bit_word_eqI simp: be_bit_simps)

lemma read_full_Data:
  "0 < n \<Longrightarrow> read_full (Data bs # es) n =
     (if bs = [] then Ok ([], es)
      else if n < length bs then Ok (take n bs, Data (drop n bs) # es)
      else map_ok (\<lambda>(cs, r). (bs @ cs, r)) (read_full es (n - length bs)))"
  by (cases n) auto

lemma read_full_enough:
  "n \<le> length (delivered es) \<Longrightarrow>
     \<exists>r. read_full es n = Ok (take n (delivered es), r) \<and> delivered r = drop n (delivered es)"
proof (induction es n rule: read_full.induct)
  case (5 bs es n)
  show ?case
  proof (cases "Suc n < length bs")
    case True
    then show ?thesis by auto
  next
    case False
    show ?thesis
    proof (cases "bs = []")
      case True
      with "5.prems" show ?thesis by simp
    next
      case bs: False
      from bs "5.prems" have "Suc n - length bs \<le> length (delivered es)" by simp
      with "5.IH" [OF bs False] obtain r where
        "read_full es (Suc n - length bs) = Ok (take (Suc n - length bs) (delivered es), r)"
        "delivered r = drop (Suc n - length bs) (delivered es)" by blast
      with bs False show ?thesis by simp
    qed
  qed
qed auto

lemma read_full_Ok:
  "read_full es n = Ok (bs, r) \<Longrightarrow>
     length bs \<le> n \<and> (length bs = n \<longrightarrow> bs = take n (delivered es) \<and> n \<le> length (delivered es) \<and>
       delivered r = drop n (delivered es))"
proof (induction es n arbitrary: bs r rule: read_full.induct)
  case (5 ds es n)
  show ?case
  proof (cases "Suc n < length ds \<or> ds = []")
    case True
    with "5.prems" show ?thesis by (auto split: if_splits)
  next
    case False
    then have ne: "ds \<noteq> []" and le: "\<not> Suc n < length ds" by auto
    with "5.prems" obtain cs where cs: "read_full es (Suc n - length ds) = Ok (cs, r)" "bs = ds @ cs"
      by auto
    from "5.IH" [OF ne le cs(1)] cs(2) ne le show ?thesis by auto
  qed
qed (auto split: if_splits)

section \<open>Frames on the wire\<close>

definition frame_ok :: "broker_frame \<Rightarrow> bool" where
  "frame_ok f \<longleftrightarrow> length (frame_payload f) \<le> MAX_BROKER_FRAME_BYTES \<and>
     (connection_control (frame_kind f) \<longleftrightarrow> frame_stream_id f = 0)"

lemma BrokerFrame_new_Ok:
  "BrokerFrame_new k sid p = Ok f \<longleftrightarrow>
     frame_ok f \<and> f = \<lparr>frame_kind = k, frame_stream_id = sid, frame_payload = p\<rparr>"
  by (auto simp: BrokerFrame_new_def frame_ok_def)

lemma BrokerFrame_new_self:
  "frame_ok f \<Longrightarrow> BrokerFrame_new (frame_kind f) (frame_stream_id f) (frame_payload f) = Ok f"
  by (simp add: BrokerFrame_new_Ok)

lemma encode_eq:
  "frame_ok f \<Longrightarrow>
     BrokerFrame_encode f = frame_header f (of_nat (length (frame_payload f))) @ frame_payload f"
  by (auto simp: BrokerFrame_encode_def BrokerFrame_write_to_def frame_ok_def broker_bounds)

lemma length_frame_header [simp]: "length (frame_header f len) = 16"
  by (simp add: frame_header_def broker_bounds u16_to_be_def u32_to_be_def)

lemma frame_header_not_Nil [simp]: "frame_header f len \<noteq> []"
  by (metis length_frame_header list.size(3) zero_neq_numeral)

lemma parse_frame_header:
  assumes "len \<le> MAX_BROKER_FRAME_BYTES"
  shows "BrokerFrame_parse_header (frame_header f (of_nat len)) =
    Ok (frame_kind f, frame_stream_id f, len)"
proof -
  have "unat (of_nat len :: 32 word) = len"
    using assms by (simp add: unat_of_nat broker_bounds)
  then show ?thesis
    using assms
    by (simp add: BrokerFrame_parse_header_def frame_header_def MAGIC_def u16_to_be_def
        u32_to_be_def nth_Cons' Let_def)
qed

lemma list16:
  assumes "length h = 16"
  obtains a b c d e f g i j k l m n p q r where "h = [a, b, c, d, e, f, g, i, j, k, l, m, n, p, q, r]"
  using assms by (auto simp: numeral_eq_Suc length_Suc_conv)

lemma parse_header_inverse:
  assumes "BrokerFrame_parse_header h = Ok (k, sid, len)" and "length h = 16"
    and "frame_kind f = k" and "frame_stream_id f = sid"
  shows "h = frame_header f (of_nat len)"
proof -
  from assms(2) obtain a b c d e ff g i j kk l m n p q r
    where h: "h = [a, b, c, d, e, ff, g, i, j, kk, l, m, n, p, q, r]"
    by (rule list16)
  with assms(1) have hd: "[a, b, c, d] = MAGIC" "i = 0"
      "u16_from_be e ff = CREDENTIAL_BROKER_PROTOCOL" "BrokerFrameKind_try_from g = Ok k"
      "sid = u32_from_be j kk l m" "len = unat (u32_from_be n p q r)"
    by (auto simp: BrokerFrame_parse_header_def Let_def split: if_splits)
  from hd(3) u16_to_from_be [of e ff] have "[e, ff] = u16_to_be CREDENTIAL_BROKER_PROTOCOL" by simp
  moreover from hd(5) u32_to_from_be [of j kk l m] have "[j, kk, l, m] = u32_to_be sid" by simp
  moreover from hd(6) u32_to_from_be [of n p q r] have "[n, p, q, r] = u32_to_be (of_nat len)"
    by simp
  moreover from hd(4) have "g = kind_code k" by (simp add: kind_code_of)
  ultimately show ?thesis
    using h hd(1,2) assms(3,4)
    by (simp add: frame_header_def u16_to_be_def u32_to_be_def MAGIC_def)
qed

lemma parse_header_length:
  "BrokerFrame_parse_header h = Ok (k, sid, len) \<Longrightarrow> len \<le> MAX_BROKER_FRAME_BYTES"
  by (auto simp: BrokerFrame_parse_header_def Let_def split: if_splits)

section \<open>Properties\<close>

text \<open>C8: every frame that can be constructed is read back from its encoding, however the byte
  source cuts it into pieces and interrupts the reading, and exactly the frame's bytes are taken
  from the source.\<close>

theorem frame_round_trip:
  assumes "frame_ok f" and "delivered es = BrokerFrame_encode f @ rest"
  shows "\<exists>es'. BrokerFrame_read_from es = Ok (Some f, es') \<and> delivered es' = rest"
proof -
  let ?len = "length (frame_payload f)"
  let ?h = "frame_header f (of_nat ?len)"
  have d: "delivered es = ?h @ frame_payload f @ rest"
    using assms by (simp add: encode_eq)
  have "16 \<le> length (delivered es)" by (simp add: d)
  from read_full_enough [OF this] obtain r1 where r1: "read_full es 16 = Ok (?h, r1)"
    "delivered r1 = frame_payload f @ rest"
    by (auto simp: d)
  have "?len \<le> length (delivered r1)" by (simp add: r1(2))
  from read_full_enough [OF this] obtain r2 where r2: "read_full r1 ?len = Ok (frame_payload f, r2)"
    "delivered r2 = rest"
    by (auto simp: r1(2))
  have "?len \<le> MAX_BROKER_FRAME_BYTES" using assms(1) by (simp add: frame_ok_def)
  then have "BrokerFrame_read_from es = Ok (Some f, r2)"
    using r1(1) r2(1) assms(1)
    by (simp add: BrokerFrame_read_from_def BROKER_FRAME_HEADER_BYTES_def parse_frame_header
        BrokerFrame_new_self)
  with r2(2) show ?thesis by blast
qed

theorem frame_round_trip_witness:
  "\<exists>es'. BrokerFrame_read_from
      [Data [0x43, 0x44], Interrupted, Data [0x42, 0x52, 0, 1, 6, 0, 0, 0, 0],
       Data [9, 0, 0, 0, 2, 7], Data [8, 5]] =
      Ok (Some \<lparr>frame_kind = StreamData, frame_stream_id = 9, frame_payload = [7, 8]\<rparr>, es') \<and>
    delivered es' = [5]"
  by (rule frame_round_trip)
     (simp_all add: frame_ok_def connection_control_def encode_eq frame_header_def broker_bounds
       u16_to_be_def u32_to_be_def)

text \<open>Whatever is read as a frame satisfies the frame invariants and was sent as exactly the
  encoding of that frame: no other byte sequence is accepted for it.\<close>

theorem frame_read_sound:
  assumes "BrokerFrame_read_from es = Ok (Some f, es')"
  shows "frame_ok f \<and> delivered es = BrokerFrame_encode f @ delivered es'"
proof -
  from assms obtain h r1 k sid len p where
    h: "read_full es 16 = Ok (h, r1)" "length h = 16" and
    ph: "BrokerFrame_parse_header h = Ok (k, sid, len)" and
    p: "read_full r1 len = Ok (p, es')" "length p = len" and
    f: "BrokerFrame_new k sid p = Ok f"
    by (auto simp: BrokerFrame_read_from_def BROKER_FRAME_HEADER_BYTES_def split: if_splits)
  from f have ok: "frame_ok f" and ff: "frame_kind f = k" "frame_stream_id f = sid" "frame_payload f = p"
    by (auto simp: BrokerFrame_new_Ok)
  from read_full_Ok [OF h(1)] h(2) have "delivered es = h @ delivered r1"
    by (metis append_take_drop_id)
  moreover from read_full_Ok [OF p(1)] p(2) have "delivered r1 = p @ delivered es'"
    by (metis append_take_drop_id)
  moreover from parse_header_inverse [OF ph h(2) ff(1,2)] have "h = frame_header f (of_nat len)" .
  ultimately show ?thesis using ok ff p(2) by (simp add: encode_eq)
qed

theorem frame_read_sound_witness:
  "frame_ok \<lparr>frame_kind = Health, frame_stream_id = 0, frame_payload = []\<rparr>"
proof -
  let ?f = "\<lparr>frame_kind = Health, frame_stream_id = 0, frame_payload = []\<rparr>"
  let ?es = "[Data [0x43, 0x44, 0x42, 0x52, 0, 1, 11, 0, 0, 0, 0, 0, 0, 0, 0, 0]]"
  have "BrokerFrame_read_from ?es = Ok (Some ?f, [])"
    by (simp add: BrokerFrame_read_from_def broker_bounds read_full_Data BrokerFrame_parse_header_def
        BrokerFrameKind_try_from_def u16_from_be_def u32_from_be_def BrokerFrame_new_def
        connection_control_def Let_def)
  from frame_read_sound [OF this] show ?thesis by blast
qed

end
