(* ===== verification/Broker.thy ===== *)
theory Broker
  imports Broker_Frames Workspace "HOL-Library.Multiset"
begin

text \<open>
  The state of \<^verbatim>\<open>crates/cdenv-core/src/credential_broker.rs\<close>: the identity a lease is bound
  to, the per-connection admission accounting (\<open>BrokerAdmission\<close>) and the registry of
  generation leases (\<open>CredentialLeaseSet\<close>). Both are instances of the \<open>stateful\<close>
  contract; the accounting refines a multiset of outstanding payloads, and an active lease is
  traced back to the calls that gave it its authority.
\<close>

section \<open>Lease identities\<close>

record credential_user_identity =
  uid :: "32 word"
  gid :: "32 word"

record credential_lease_identity =
  lease_installation :: installation_id
  lease_workspace :: workspace_name
  workspace_receipt :: string
  lease_container :: container_id
  lease_generation :: generation_id
  lease_user :: credential_user_identity
  host_build :: agent_build_id
  agent_build :: agent_build_id
  agent_protocol :: protocol_version
  broker_protocol :: "16 word"
  grant_revision :: "64 word"

definition CredentialLeaseIdentity_validate ::
    "credential_lease_identity \<Rightarrow> (unit, broker_protocol_error) result" where
  "CredentialLeaseIdentity_validate i =
     (let receipt_valid = (16 \<le> length (workspace_receipt i) \<and> length (workspace_receipt i) \<le> 128 \<and>
            list_all (\<lambda>c. is_ascii_alphanumeric (byte c)) (workspace_receipt i))
      in if \<not> receipt_valid then Err (IdentityMismatch ''workspace receipt'')
         else if grant_revision i = 0 then Err (IdentityMismatch ''grant revision'')
         else if broker_protocol i \<noteq> CREDENTIAL_BROKER_PROTOCOL \<or> protocol_get (agent_protocol i) \<noteq> 1
           then Err Version
         else if host_build i \<noteq> agent_build i then Err (IdentityMismatch ''build'')
         else Ok ())"

text \<open>The JSON codec of \<^verbatim>\<open>serde_json\<close> is not part of the program: its two directions are
  parameters, \<open>None\<close> for its errors.\<close>

definition CredentialLeaseIdentity_encode ::
    "(credential_lease_identity \<Rightarrow> bytes option) \<Rightarrow> credential_lease_identity \<Rightarrow>
     (bytes, broker_protocol_error) result" where
  "CredentialLeaseIdentity_encode to_vec i =
     and_then (CredentialLeaseIdentity_validate i) (\<lambda>_.
       and_then (ok_or (IdentityMismatch ''encoding'') (to_vec i)) (\<lambda>bs.
         if MAX_IDENTITY_BYTES < length bs then Err Bounds else Ok bs))"

definition CredentialLeaseIdentity_decode ::
    "(bytes \<Rightarrow> credential_lease_identity option) \<Rightarrow> bytes \<Rightarrow>
     (credential_lease_identity, broker_protocol_error) result" where
  "CredentialLeaseIdentity_decode from_slice bs =
     (if MAX_IDENTITY_BYTES < length bs then Err Bounds
      else and_then (ok_or (IdentityMismatch ''encoding'') (from_slice bs)) (\<lambda>v.
        and_then (CredentialLeaseIdentity_validate v) (\<lambda>_. Ok v)))"

section \<open>Admission\<close>

record broker_admission =
  streams :: "32 word set"
  queued_frames :: nat
  queued_bytes :: nat

definition BrokerAdmission_default :: broker_admission where
  "BrokerAdmission_default = \<lparr>streams = {}, queued_frames = 0, queued_bytes = 0\<rparr>"

text \<open>\<^verbatim>\<open>usize::saturating_add\<close> on a 64-bit target.\<close>

definition saturating_add :: "nat \<Rightarrow> nat \<Rightarrow> nat" where
  "saturating_add a b = min (a + b) (2 ^ 64 - 1)"

type_synonym 's broker_op = "'s \<times> (unit, broker_protocol_error) result"

definition BrokerAdmission_open :: "32 word \<Rightarrow> broker_admission \<Rightarrow> broker_admission broker_op" where
  "BrokerAdmission_open sid a =
     (if sid = 0 \<or> card (streams a) = MAX_BROKER_STREAMS \<or> sid \<in> streams a then (a, Err StreamLimit)
      else (a\<lparr>streams := insert sid (streams a)\<rparr>, Ok ()))"

definition BrokerAdmission_close :: "32 word \<Rightarrow> broker_admission \<Rightarrow> broker_admission broker_op" where
  "BrokerAdmission_close sid a =
     (if sid \<in> streams a then (a\<lparr>streams := streams a - {sid}\<rparr>, Ok ())
      else (a, Err UnknownStream))"

definition BrokerAdmission_enqueue :: "nat \<Rightarrow> broker_admission \<Rightarrow> broker_admission broker_op" where
  "BrokerAdmission_enqueue n a =
     (if MAX_BROKER_FRAME_BYTES < n \<or> queued_frames a = MAX_BROKER_QUEUED_FRAMES \<or>
         MAX_BROKER_QUEUED_BYTES < saturating_add (queued_bytes a) n
      then (a, Err QueueLimit)
      else (a\<lparr>queued_frames := queued_frames a + 1, queued_bytes := queued_bytes a + n\<rparr>, Ok ()))"

definition BrokerAdmission_dequeue :: "nat \<Rightarrow> broker_admission \<Rightarrow> broker_admission" where
  "BrokerAdmission_dequeue n a =
     a\<lparr>queued_frames := queued_frames a - 1, queued_bytes := queued_bytes a - n\<rparr>"

definition BrokerAdmission_active_streams :: "broker_admission \<Rightarrow> nat" where
  "BrokerAdmission_active_streams a = card (streams a)"

lemmas admission_defs =
  BrokerAdmission_open_def BrokerAdmission_close_def BrokerAdmission_enqueue_def
  BrokerAdmission_dequeue_def

text \<open>The calls on an admission record, in any order.\<close>

datatype admission_call = OpenStream "32 word" | CloseStream "32 word" | Enqueue nat | Dequeue nat

primrec admission_step ::
    "(admission_call, broker_admission, unit, broker_protocol_error) operations" where
  "admission_step (OpenStream sid) a = BrokerAdmission_open sid a"
| "admission_step (CloseStream sid) a = BrokerAdmission_close sid a"
| "admission_step (Enqueue n) a = BrokerAdmission_enqueue n a"
| "admission_step (Dequeue n) a = (BrokerAdmission_dequeue n a, Ok ())"

definition admission_inv :: "broker_admission \<Rightarrow> bool" where
  "admission_inv a \<longleftrightarrow> finite (streams a) \<and> 0 \<notin> streams a \<and> card (streams a) \<le> MAX_BROKER_STREAMS \<and>
     queued_frames a \<le> MAX_BROKER_QUEUED_FRAMES \<and> queued_bytes a \<le> MAX_BROKER_QUEUED_BYTES"

lemma admission_inv_default: "admission_inv BrokerAdmission_default"
  by (simp add: admission_inv_def BrokerAdmission_default_def)

lemma saturating_add_bound: "b \<le> MAX_BROKER_QUEUED_BYTES \<Longrightarrow>
    saturating_add a n \<le> b \<longleftrightarrow> a + n \<le> b"
  by (auto simp: saturating_add_def broker_bounds min_def)

lemma card_remove_le: "finite A \<Longrightarrow> card A \<le> k \<Longrightarrow> card (A - {x}) \<le> k"
  by (metis card_Diff1_le le_trans)

interpretation admission: stateful admission_step admission_inv
proof unfold_locales
  fix a x
  assume inv: "admission_inv a"
  show "admission_inv (fst (admission_step x a))"
  proof (cases x)
    case (OpenStream sid)
    with inv show ?thesis by (auto simp: admission_inv_def admission_defs)
  next
    case (CloseStream sid)
    with inv show ?thesis by (auto simp: admission_inv_def admission_defs card_remove_le)
  next
    case (Enqueue n)
    with inv show ?thesis
      by (auto simp: admission_inv_def admission_defs saturating_add_bound not_less)
  next
    case (Dequeue n)
    with inv show ?thesis by (auto simp: admission_inv_def admission_defs)
  qed
next
  fix a x e
  assume "snd (admission_step x a) = Err e"
  then show "fst (admission_step x a) = a"
    by (cases x) (auto simp: admission_defs split: if_splits)
qed

text \<open>The abstract queue: the multiset of the payload sizes that were accepted and not yet
  released.\<close>

definition queue_refines :: "broker_admission \<Rightarrow> nat multiset \<Rightarrow> bool" where
  "queue_refines a q \<longleftrightarrow> queued_frames a = size q \<and> queued_bytes a = sum_mset q"

lemma queue_refines_default: "queue_refines BrokerAdmission_default {#}"
  by (simp add: queue_refines_def BrokerAdmission_default_def)

lemma enqueue_refines:
  assumes "queue_refines a q" and "admission_inv a"
  shows "case BrokerAdmission_enqueue n a of
      (a', Ok _) \<Rightarrow> queue_refines a' (add_mset n q)
    | (a', Err e) \<Rightarrow> a' = a \<and> e = QueueLimit \<and>
        (MAX_BROKER_FRAME_BYTES < n \<or> size q = MAX_BROKER_QUEUED_FRAMES \<or>
         MAX_BROKER_QUEUED_BYTES < sum_mset q + n)"
  using assms saturating_add_bound [of MAX_BROKER_QUEUED_BYTES "queued_bytes a" n]
  by (auto simp: queue_refines_def BrokerAdmission_enqueue_def not_le [symmetric])

lemma dequeue_refines:
  "queue_refines a q \<Longrightarrow> n \<in># q \<Longrightarrow> queue_refines (BrokerAdmission_dequeue n a) (q - {#n#})"
  by (auto simp: queue_refines_def BrokerAdmission_dequeue_def size_Diff_singleton
      sum_mset.remove [of n q])

text \<open>The states a well-behaved bridge reaches: it releases only payloads it holds.\<close>

inductive bridge_state :: "broker_admission \<Rightarrow> nat multiset \<Rightarrow> bool" where
  idle: "bridge_state BrokerAdmission_default {#}"
| opened: "bridge_state a q \<Longrightarrow> bridge_state (fst (BrokerAdmission_open sid a)) q"
| closed: "bridge_state a q \<Longrightarrow> bridge_state (fst (BrokerAdmission_close sid a)) q"
| queued: "bridge_state a q \<Longrightarrow> BrokerAdmission_enqueue n a = (a', Ok ()) \<Longrightarrow>
    bridge_state a' (add_mset n q)"
| refused: "bridge_state a q \<Longrightarrow> BrokerAdmission_enqueue n a = (a', Err e) \<Longrightarrow> bridge_state a' q"
| released: "bridge_state a q \<Longrightarrow> n \<in># q \<Longrightarrow>
    bridge_state (BrokerAdmission_dequeue n a) (q - {#n#})"

lemma stream_ops_refine:
  "queue_refines (fst (BrokerAdmission_open sid a)) q = queue_refines a q"
  "queue_refines (fst (BrokerAdmission_close sid a)) q = queue_refines a q"
  by (auto simp: queue_refines_def admission_defs)

lemma bridge_state_refines: "bridge_state a q \<Longrightarrow> admission_inv a \<and> queue_refines a q"
proof (induction rule: bridge_state.induct)
  case idle
  show ?case by (simp add: admission_inv_default queue_refines_default)
next
  case (opened a q sid)
  then show ?case using admission.step_inv [of a "OpenStream sid"] by (simp add: stream_ops_refine)
next
  case (closed a q sid)
  then show ?case using admission.step_inv [of a "CloseStream sid"] by (simp add: stream_ops_refine)
next
  case (queued a q n a')
  then show ?case using admission.step_inv [of a "Enqueue n"] enqueue_refines [of a q n] by simp
next
  case (refused a q n a' e)
  then show ?case using enqueue_refines [of a q n] by simp
next
  case (released a q n)
  then show ?case using admission.step_inv [of a "Dequeue n"] by (simp add: dequeue_refines)
qed

section \<open>The lease registry\<close>

datatype credential_lease_role = Active | Candidate
datatype credential_lease_readiness = Starting | Ready

record lease_record =
  lease_identity :: credential_lease_identity
  lease_role :: credential_lease_role
  lease_readiness :: credential_lease_readiness
  lease_operation :: "64 word option"

type_synonym credential_lease_set = "generation_id \<rightharpoonup> lease_record"

definition LeaseSet_insert ::
    "credential_lease_identity \<Rightarrow> credential_lease_role \<Rightarrow> 64 word option \<Rightarrow>
     credential_lease_set \<Rightarrow> credential_lease_set broker_op" where
  "LeaseSet_insert i role operation ls =
     (case CredentialLeaseIdentity_validate i of
        Err e \<Rightarrow> (ls, Err e)
      | Ok _ \<Rightarrow>
          if ls (lease_generation i) \<noteq> None then (ls, Err GenerationExists)
          else (ls(lease_generation i \<mapsto>
              \<lparr>lease_identity = i, lease_role = role, lease_readiness = Starting,
               lease_operation = operation\<rparr>), Ok ()))"

definition LeaseSet_start_active ::
    "credential_lease_identity \<Rightarrow> credential_lease_set \<Rightarrow> credential_lease_set broker_op" where
  "LeaseSet_start_active i ls = LeaseSet_insert i Active None ls"

definition LeaseSet_start_candidate ::
    "credential_lease_identity \<Rightarrow> 64 word \<Rightarrow> credential_lease_set \<Rightarrow> credential_lease_set broker_op" where
  "LeaseSet_start_candidate i operation ls =
     (if operation = 0 then (ls, Err (IdentityMismatch ''operation''))
      else LeaseSet_insert i Candidate (Some operation) ls)"

definition LeaseSet_exact ::
    "credential_lease_identity \<Rightarrow> credential_lease_set \<Rightarrow> (lease_record, broker_protocol_error) result" where
  "LeaseSet_exact i ls =
     (case ls (lease_generation i) of
        None \<Rightarrow> Err OldGeneration
      | Some l \<Rightarrow> if lease_identity l = i then Ok l else Err (IdentityMismatch ''lease''))"

definition LeaseSet_mark_ready ::
    "credential_lease_identity \<Rightarrow> credential_lease_set \<Rightarrow> credential_lease_set broker_op" where
  "LeaseSet_mark_ready i ls =
     (case LeaseSet_exact i ls of
        Err e \<Rightarrow> (ls, Err e)
      | Ok l \<Rightarrow> (ls(lease_generation i \<mapsto> l\<lparr>lease_readiness := Ready\<rparr>), Ok ()))"

definition LeaseSet_promote_candidate ::
    "generation_id \<Rightarrow> 64 word \<Rightarrow> credential_lease_set \<Rightarrow> credential_lease_set broker_op" where
  "LeaseSet_promote_candidate g operation ls =
     (case ls g of
        None \<Rightarrow> (ls, Err OldGeneration)
      | Some l \<Rightarrow>
          if lease_role l \<noteq> Candidate \<or> lease_operation l \<noteq> Some operation \<or> lease_readiness l \<noteq> Ready
          then (ls, Err CandidateAuthority)
          else (ls(g \<mapsto> l\<lparr>lease_role := Active, lease_operation := None\<rparr>), Ok ()))"

definition LeaseSet_stop ::
    "credential_lease_identity \<Rightarrow> credential_lease_set \<Rightarrow> credential_lease_set broker_op" where
  "LeaseSet_stop i ls =
     (case LeaseSet_exact i ls of
        Err e \<Rightarrow> (ls, Err e)
      | Ok _ \<Rightarrow> (ls(lease_generation i := None), Ok ()))"

definition LeaseSet_status ::
    "credential_lease_identity \<Rightarrow> credential_lease_set \<Rightarrow>
     (credential_lease_role \<times> credential_lease_readiness, broker_protocol_error) result" where
  "LeaseSet_status i ls = map_ok (\<lambda>l. (lease_role l, lease_readiness l)) (LeaseSet_exact i ls)"

lemmas lease_defs =
  LeaseSet_insert_def LeaseSet_start_active_def LeaseSet_start_candidate_def LeaseSet_exact_def
  LeaseSet_mark_ready_def LeaseSet_promote_candidate_def LeaseSet_stop_def

datatype lease_call =
    StartActive credential_lease_identity
  | StartCandidate credential_lease_identity "64 word"
  | MarkReady credential_lease_identity
  | Promote generation_id "64 word"
  | StopLease credential_lease_identity

primrec lease_step ::
    "(lease_call, credential_lease_set, unit, broker_protocol_error) operations" where
  "lease_step (StartActive i) ls = LeaseSet_start_active i ls"
| "lease_step (StartCandidate i n) ls = LeaseSet_start_candidate i n ls"
| "lease_step (MarkReady i) ls = LeaseSet_mark_ready i ls"
| "lease_step (Promote g n) ls = LeaseSet_promote_candidate g n ls"
| "lease_step (StopLease i) ls = LeaseSet_stop i ls"

text \<open>What the registry keeps: a lease is filed under its own generation, its identity is valid,
  and it names an operation (never zero) exactly while it is a candidate.\<close>

definition lease_ok :: "generation_id \<Rightarrow> lease_record \<Rightarrow> bool" where
  "lease_ok g l \<longleftrightarrow> lease_generation (lease_identity l) = g \<and>
     CredentialLeaseIdentity_validate (lease_identity l) = Ok () \<and>
     (lease_role l = Active \<longrightarrow> lease_operation l = None) \<and>
     (lease_role l = Candidate \<longrightarrow> (\<exists>n. lease_operation l = Some n \<and> n \<noteq> 0))"

definition lease_inv :: "credential_lease_set \<Rightarrow> bool" where
  "lease_inv ls \<longleftrightarrow> (\<forall>g l. ls g = Some l \<longrightarrow> lease_ok g l)"

lemma lease_inv_upd: "lease_inv ls \<Longrightarrow> lease_ok g l \<Longrightarrow> lease_inv (ls(g \<mapsto> l))"
  by (auto simp: lease_inv_def)

lemma lease_inv_del: "lease_inv ls \<Longrightarrow> lease_inv (ls(g := None))"
  by (auto simp: lease_inv_def)

lemma lease_invD: "lease_inv ls \<Longrightarrow> ls g = Some l \<Longrightarrow> lease_ok g l"
  by (simp add: lease_inv_def)

lemma LeaseSet_exact_Ok:
  "LeaseSet_exact i ls = Ok l \<longleftrightarrow> ls (lease_generation i) = Some l \<and> lease_identity l = i"
  by (auto simp: LeaseSet_exact_def split: option.splits if_splits)

lemma lease_ok_ready: "lease_ok g l \<Longrightarrow> lease_ok g (l\<lparr>lease_readiness := Ready\<rparr>)"
  by (simp add: lease_ok_def)

lemma lease_ok_promote:
  "lease_ok g l \<Longrightarrow> lease_ok g (l\<lparr>lease_role := Active, lease_operation := None\<rparr>)"
  by (simp add: lease_ok_def)

lemma lease_inv_insert:
  "lease_inv ls \<Longrightarrow> role = Active \<and> operation = None \<or> role = Candidate \<and> (\<exists>n \<noteq> 0. operation = Some n) \<Longrightarrow>
     lease_inv (fst (LeaseSet_insert i role operation ls))"
  by (auto simp: LeaseSet_insert_def lease_ok_def intro!: lease_inv_upd split: result.splits)

interpretation leases: stateful lease_step lease_inv
proof unfold_locales
  fix ls x
  assume inv: "lease_inv ls"
  show "lease_inv (fst (lease_step x ls))"
  proof (cases x)
    case (StartActive i)
    with inv show ?thesis by (simp add: LeaseSet_start_active_def lease_inv_insert)
  next
    case (StartCandidate i n)
    with inv show ?thesis by (simp add: LeaseSet_start_candidate_def lease_inv_insert)
  next
    case (MarkReady i)
    with inv show ?thesis
      by (auto simp: LeaseSet_mark_ready_def LeaseSet_exact_Ok split: result.splits
          intro!: lease_inv_upd lease_ok_ready dest: lease_invD)
  next
    case (Promote g n)
    with inv show ?thesis
      by (auto simp: LeaseSet_promote_candidate_def split: option.splits
          intro!: lease_inv_upd lease_ok_promote dest: lease_invD)
  next
    case (StopLease i)
    with inv show ?thesis
      by (auto simp: LeaseSet_stop_def split: result.splits intro!: lease_inv_del)
  qed
next
  fix ls x e
  assume "snd (lease_step x ls) = Err e"
  then show "fst (lease_step x ls) = ls"
    by (cases x) (auto simp: lease_defs split: result.splits option.splits if_splits)
qed

section \<open>Where a lease's authority comes from\<close>

text \<open>What the calls so far account for in one lease: it was started under its identity, it was
  marked ready if it is ready, and it became active either by being started so or by a promotion
  of the candidate the same operation had started and marked ready.\<close>

definition accounted :: "lease_call set \<Rightarrow> lease_record \<Rightarrow> bool" where
  "accounted H l \<longleftrightarrow>
     (lease_readiness l = Ready \<longrightarrow> MarkReady (lease_identity l) \<in> H) \<and>
     (case lease_role l of
        Candidate \<Rightarrow> \<exists>n. lease_operation l = Some n \<and> n \<noteq> 0 \<and> StartCandidate (lease_identity l) n \<in> H
      | Active \<Rightarrow> StartActive (lease_identity l) \<in> H \<or>
          (\<exists>n. n \<noteq> 0 \<and> StartCandidate (lease_identity l) n \<in> H \<and>
             Promote (lease_generation (lease_identity l)) n \<in> H \<and>
             MarkReady (lease_identity l) \<in> H))"

lemma accounted_mono: "accounted H l \<Longrightarrow> H \<subseteq> K \<Longrightarrow> accounted K l"
  unfolding accounted_def by (auto split: credential_lease_role.splits)

lemma lease_step_accounted:
  assumes "lease_inv ls" and "\<And>g l. ls g = Some l \<Longrightarrow> accounted H l"
    and "fst (lease_step x ls) g = Some l"
  shows "accounted (insert x H) l"
proof -
  have old: "ls g = Some k \<Longrightarrow> accounted (insert x H) k" for k
    using assms(2) accounted_mono [of H k "insert x H"] by blast
  show ?thesis
  proof (cases x)
    case (StartActive i)
    with assms(3) show ?thesis
      by (auto simp: lease_defs accounted_def split: result.splits if_splits dest: old)
  next
    case (StartCandidate i n)
    with assms(3) show ?thesis
      by (auto simp: lease_defs accounted_def split: result.splits if_splits dest: old)
  next
    case (MarkReady i)
    show ?thesis
    proof (cases "LeaseSet_exact i ls")
      case (Ok k)
      then have k: "ls (lease_generation i) = Some k" "lease_identity k = i"
        by (auto simp: LeaseSet_exact_Ok)
      show ?thesis
      proof (cases "g = lease_generation i")
        case True
        with k old have "accounted (insert x H) k" by simp
        moreover from True Ok assms(3) MarkReady have "l = k\<lparr>lease_readiness := Ready\<rparr>"
          by (simp add: LeaseSet_mark_ready_def)
        ultimately show ?thesis using MarkReady k(2)
          by (auto simp: accounted_def split: credential_lease_role.splits)
      next
        case False
        with Ok assms(3) MarkReady old show ?thesis by (simp add: LeaseSet_mark_ready_def)
      qed
    next
      case (Err e)
      with assms(3) MarkReady old show ?thesis by (simp add: LeaseSet_mark_ready_def)
    qed
  next
    case (Promote h n)
    show ?thesis
    proof (cases "fst (lease_step x ls) = ls")
      case True
      with assms(3) old show ?thesis by simp
    next
      case False
      with Promote obtain k where k: "ls h = Some k" "lease_role k = Candidate"
        "lease_operation k = Some n" "lease_readiness k = Ready"
        and upd: "fst (lease_step x ls) = ls(h \<mapsto> k\<lparr>lease_role := Active, lease_operation := None\<rparr>)"
        by (auto simp: LeaseSet_promote_candidate_def split: option.splits if_splits)
      show ?thesis
      proof (cases "g = h")
        case True
        with upd assms(3) have l: "l = k\<lparr>lease_role := Active, lease_operation := None\<rparr>" by simp
        from k(1) assms(1) have "lease_generation (lease_identity k) = h"
          by (auto dest: lease_invD simp: lease_ok_def)
        moreover from k(1) True old have "accounted (insert x H) k" by simp
        ultimately show ?thesis using k l Promote by (auto simp: accounted_def)
      next
        case False
        with upd assms(3) old show ?thesis by simp
      qed
    qed
  next
    case (StopLease i)
    with assms(3) show ?thesis
      by (auto simp: LeaseSet_stop_def split: result.splits if_splits dest: old)
  qed
qed

lemma run_accounted:
  "run_ops lease_step Map.empty xs g = Some l \<Longrightarrow> accounted (set xs) l"
proof (induction xs arbitrary: g l rule: rev_induct)
  case Nil
  then show ?case by simp
next
  case (snoc x xs)
  have "lease_inv (run_ops lease_step Map.empty xs)"
    by (rule leases.run_inv) (simp add: lease_inv_def)
  from lease_step_accounted [where x = x and g = g and l = l, OF this snoc.IH] snoc.prems
  show ?case by simp
qed

section \<open>Properties\<close>

text \<open>Whatever calls a connection makes, in whatever order, its accounting stays within the
  published bounds (32 streams, none of them zero, 64 frames, 512 KiB), and the calls that were
  refused left no trace in it.\<close>

theorem admission_bounds:
  fixes xs :: "admission_call list"
  defines "a \<equiv> run_ops admission_step BrokerAdmission_default xs"
  shows "card (streams a) \<le> 32 \<and> 0 \<notin> streams a \<and> queued_frames a \<le> 64 \<and>
      queued_bytes a \<le> 512 * 1024 \<and>
      run_ops admission_step BrokerAdmission_default
        (accepted admission_step BrokerAdmission_default xs) = a"
  using admission.run_inv [OF admission_inv_default, of xs]
    admission.run_accepted [OF admission_inv_default, of xs]
  by (simp add: a_def admission_inv_def broker_bounds)

text \<open>C12: as long as a bridge releases only payloads it queued, the counters are exactly the
  number and the total size of the payloads it holds, and the next payload is admitted exactly
  when it and the totals with it are within the bounds.\<close>

theorem admission_refines_queue:
  assumes "bridge_state a q"
  shows "queued_frames a = size q \<and> queued_bytes a = sum_mset q \<and>
    (snd (BrokerAdmission_enqueue n a) = Ok () \<longleftrightarrow>
       n \<le> 64 * 1024 \<and> size q < 64 \<and> sum_mset q + n \<le> 512 * 1024)"
proof -
  from bridge_state_refines [OF assms] have inv: "admission_inv a" and ref: "queue_refines a q" by auto
  have "saturating_add (queued_bytes a) n \<le> MAX_BROKER_QUEUED_BYTES \<longleftrightarrow>
      queued_bytes a + n \<le> MAX_BROKER_QUEUED_BYTES"
    by (rule saturating_add_bound) simp
  with inv ref show ?thesis
    by (auto simp: BrokerAdmission_enqueue_def admission_inv_def queue_refines_def broker_bounds
        not_less)
qed

theorem admission_refines_queue_witness:
  "queued_bytes (fst (BrokerAdmission_enqueue 5 BrokerAdmission_default)) = 5 \<and>
   snd (BrokerAdmission_enqueue 70000 (fst (BrokerAdmission_enqueue 5 BrokerAdmission_default))) \<noteq> Ok ()"
proof -
  let ?a = "fst (BrokerAdmission_enqueue 5 BrokerAdmission_default)"
  have "BrokerAdmission_enqueue 5 BrokerAdmission_default = (?a, Ok ())"
    by (simp add: BrokerAdmission_enqueue_def BrokerAdmission_default_def saturating_add_def
        broker_bounds)
  from bridge_state.queued [OF bridge_state.idle this] have "bridge_state ?a {#5#}" by simp
  from admission_refines_queue [OF this, of 70000] show ?thesis by simp
qed

text \<open>C3: a lease that is active after any sequence of calls on an empty registry was given that
  role by the host: it was started active under exactly its identity, or started as a candidate
  of a nonzero operation, marked ready under exactly its identity and promoted by that same
  operation; and no lease is ready that was not marked ready under its identity.\<close>

theorem lease_authority:
  assumes "run_ops lease_step Map.empty xs g = Some l"
  shows "lease_generation (lease_identity l) = g \<and>
    (lease_role l = Active \<longrightarrow>
       StartActive (lease_identity l) \<in> set xs \<or>
       (\<exists>n. n \<noteq> 0 \<and> StartCandidate (lease_identity l) n \<in> set xs \<and>
          Promote g n \<in> set xs \<and> MarkReady (lease_identity l) \<in> set xs)) \<and>
    (lease_readiness l = Ready \<longrightarrow> MarkReady (lease_identity l) \<in> set xs)"
proof -
  have "lease_inv (run_ops lease_step Map.empty xs)"
    by (rule leases.run_inv) (simp add: lease_inv_def)
  with assms have "lease_generation (lease_identity l) = g"
    by (auto dest: lease_invD simp: lease_ok_def)
  with run_accounted [OF assms] show ?thesis
    by (auto simp: accounted_def)
qed

definition sample_identity :: credential_lease_identity where
  "sample_identity = \<lparr>lease_installation = InstallationId ''host'', lease_workspace = WorkspaceName ''ws'',
     workspace_receipt = ''0123456789abcdef'', lease_container = ContainerId (replicate 64 (CHR ''0'')),
     lease_generation = GenerationId 1, lease_user = \<lparr>uid = 1000, gid = 1000\<rparr>,
     host_build = AgentBuildId ''b1'', agent_build = AgentBuildId ''b1'',
     agent_protocol = ProtocolVersion 1, broker_protocol = 1, grant_revision = 3\<rparr>"

lemma sample_identity_valid: "CredentialLeaseIdentity_validate sample_identity = Ok ()"
  by (simp add: CredentialLeaseIdentity_validate_def sample_identity_def broker_bounds str_simps Let_def)

theorem lease_authority_witness:
  "\<exists>l. run_ops lease_step Map.empty [StartCandidate sample_identity 7, MarkReady sample_identity,
       Promote (GenerationId 1) 7] (GenerationId 1) = Some l \<and> lease_role l = Active \<and>
     (StartActive (lease_identity l) \<in> set [StartCandidate sample_identity 7,
       MarkReady sample_identity, Promote (GenerationId 1) 7] \<or>
      (\<exists>n. n \<noteq> 0 \<and> Promote (GenerationId 1) n \<in> set [StartCandidate sample_identity 7,
        MarkReady sample_identity, Promote (GenerationId 1) 7]))"
proof -
  let ?xs = "[StartCandidate sample_identity 7, MarkReady sample_identity, Promote (GenerationId 1) 7]"
  have g: "lease_generation sample_identity = GenerationId 1" by (simp add: sample_identity_def)
  have run: "run_ops lease_step Map.empty ?xs (GenerationId 1) =
      Some \<lparr>lease_identity = sample_identity, lease_role = Active, lease_readiness = Ready,
            lease_operation = None\<rparr>"
    by (simp add: lease_defs sample_identity_valid g)
  with lease_authority [OF run] show ?thesis by auto
qed



text \<open>With a JSON codec that reads back what it wrote, the hello identity survives encoding
  whenever it can be encoded, and whatever is decoded satisfies the identity checks.\<close>

theorem lease_identity_codec:
  assumes "\<And>i bs. to_vec i = Some bs \<Longrightarrow> from_slice bs = Some i"
  shows "(CredentialLeaseIdentity_encode to_vec i = Ok bs \<longrightarrow>
      CredentialLeaseIdentity_decode from_slice bs = Ok i) \<and>
    (CredentialLeaseIdentity_decode from_slice cs = Ok j \<longrightarrow>
      CredentialLeaseIdentity_validate j = Ok () \<and> grant_revision j \<noteq> 0 \<and>
      host_build j = agent_build j \<and> broker_protocol j = 1)"
  using assms
  by (auto simp: CredentialLeaseIdentity_encode_def CredentialLeaseIdentity_decode_def
      CredentialLeaseIdentity_validate_def Let_def broker_bounds split: if_splits)

theorem lease_identity_codec_witness:
  "CredentialLeaseIdentity_decode (\<lambda>bs. if bs = [1] then Some sample_identity else None) [1] =
     Ok sample_identity"
proof -
  let ?to = "\<lambda>i. if i = sample_identity then Some [1 :: u8] else None"
  let ?from = "\<lambda>bs :: bytes. if bs = [1] then Some sample_identity else None"
  have codec: "?to i = Some bs \<Longrightarrow> ?from bs = Some i" for i bs
    by (auto split: if_splits)
  have "CredentialLeaseIdentity_encode ?to sample_identity = Ok [1]"
    by (simp add: CredentialLeaseIdentity_encode_def sample_identity_valid broker_bounds)
  with lease_identity_codec [of ?to ?from, OF codec, of sample_identity "[1]"] show ?thesis
    by simp
qed

end
