(* ===== verification/Net.thy ===== *)
theory Net
  imports Prelude
begin

text \<open>
  The parts of \<^verbatim>\<open>std::net\<close> the sources use: addresses, their classification and their printed
  form. \<open>url\<close> is the view the program takes of a URL parsed by the \<^verbatim>\<open>url\<close> crate, which is not
  part of the program: the parser is a parameter of the definitions that use it.
\<close>

datatype ip_addr = V4 "8 word" "8 word" "8 word" "8 word" | V6 "128 word"

primrec is_loopback :: "ip_addr \<Rightarrow> bool" where
  "is_loopback (V4 a b c d) = (a = 127)"
| "is_loopback (V6 w) = (w = 1)"

definition ipv4_str :: "8 word \<Rightarrow> 8 word \<Rightarrow> 8 word \<Rightarrow> 8 word \<Rightarrow> string" where
  "ipv4_str a b c d = join ''.'' (map (\<lambda>w. nat_str (unat w)) [a, b, c, d])"

definition ipv6_segments :: "128 word \<Rightarrow> nat list" where
  "ipv6_segments w = map (\<lambda>i. unat (ucast (drop_bit (112 - 16 * i) w) :: 16 word)) [0..<8]"

definition hex_char :: "nat \<Rightarrow> char" where
  "hex_char n = (if n < 10 then char_of (48 + n) else char_of (87 + n))"

fun nat_hex :: "nat \<Rightarrow> string" where
  "nat_hex n = (if n < 16 then [hex_char n] else nat_hex (n div 16) @ [hex_char (n mod 16)])"

declare nat_hex.simps [simp del]

text \<open>The first longest run of zero segments: start and length, tracked with the current run.\<close>

fun longest_zero_run :: "nat \<Rightarrow> nat \<times> nat \<Rightarrow> nat \<times> nat \<Rightarrow> nat list \<Rightarrow> nat \<times> nat" where
  "longest_zero_run i cur best [] = best"
| "longest_zero_run i (cs, cl) (bs, bl) (x # xs) =
     (if x = 0 then
        (let cur = (if cl = 0 then i else cs, cl + 1)
         in longest_zero_run (i + 1) cur (if bl < snd cur then cur else (bs, bl)) xs)
      else longest_zero_run (i + 1) (0, 0) (bs, bl) xs)"

definition ipv6_str :: "128 word \<Rightarrow> string" where
  "ipv6_str w =
     (let segs = ipv6_segments w; hex = (\<lambda>xs. join '':'' (map nat_hex xs))
      in if take 6 segs = [0, 0, 0, 0, 0, 65535]
         then ''::ffff:'' @ ipv4_str (ucast (drop_bit 24 w)) (ucast (drop_bit 16 w))
                (ucast (drop_bit 8 w)) (ucast w)
         else (case longest_zero_run 0 (0, 0) (0, 0) segs of
             (s, l) \<Rightarrow> if 1 < l then hex (take s segs) @ ''::'' @ hex (drop (s + l) segs)
                       else hex segs))"

section \<open>Parsing addresses\<close>

text \<open>\<^verbatim>\<open>IpAddr::from_str\<close>. A number is a maximal run of digits, bounded in length and value; decimal
  numbers have no leading zero.\<close>

definition hex_digit :: "char \<Rightarrow> nat option" where
  "hex_digit c = (let n = byte c in
     if 48 \<le> n \<and> n \<le> 57 then Some (n - 48) else if 97 \<le> n \<and> n \<le> 102 then Some (n - 87)
     else if 65 \<le> n \<and> n \<le> 70 then Some (n - 55) else None)"

definition radix_digit :: "nat \<Rightarrow> char \<Rightarrow> nat option" where
  "radix_digit radix c = (case hex_digit c of Some d \<Rightarrow> if d < radix then Some d else None | None \<Rightarrow> None)"

definition read_number :: "nat \<Rightarrow> nat \<Rightarrow> bool \<Rightarrow> nat \<Rightarrow> string \<Rightarrow> (nat \<times> string) option" where
  "read_number radix max_digits allow_zero_prefix bound s =
     (let ds = takeWhile (\<lambda>c. radix_digit radix c \<noteq> None) s;
          v = foldl (\<lambda>acc c. acc * radix + the (radix_digit radix c)) 0 ds
      in if ds = [] \<or> max_digits < length ds \<or> (\<not> allow_zero_prefix \<and> hd ds = CHR ''0'' \<and> 1 < length ds) \<or>
            bound \<le> v
         then None else Some (v, drop (length ds) s))"

definition read_char :: "char \<Rightarrow> string \<Rightarrow> string option" where
  "read_char d s = (case s of c # r \<Rightarrow> if c = d then Some r else None | [] \<Rightarrow> None)"

definition read_octet :: "string \<Rightarrow> (nat \<times> string) option" where
  "read_octet = read_number 10 3 False 256"

definition read_ipv4 :: "string \<Rightarrow> ((nat \<times> nat \<times> nat \<times> nat) \<times> string) option" where
  "read_ipv4 s =
     Option.bind (read_octet s) (\<lambda>(a, s).
     Option.bind (Option.bind (read_char (CHR ''.'') s) read_octet) (\<lambda>(b, s).
     Option.bind (Option.bind (read_char (CHR ''.'') s) read_octet) (\<lambda>(c, s).
     Option.bind (Option.bind (read_char (CHR ''.'') s) read_octet) (\<lambda>(d, s). Some ((a, b, c, d), s)))))"

text \<open>\<^verbatim>\<open>read_groups\<close>: up to \<open>limit\<close> groups of 16 bits, the last two of which may be written as an
  IPv4 address; the flag says whether they were. \<open>i\<close> counts the groups read.\<close>

definition read_separated :: "nat \<Rightarrow> (string \<Rightarrow> 'a option) \<Rightarrow> string \<Rightarrow> 'a option" where
  "read_separated i f s = (if 0 < i then Option.bind (read_char (CHR '':'') s) f else f s)"

function read_groups :: "nat \<Rightarrow> nat \<Rightarrow> string \<Rightarrow> nat list \<times> bool \<times> string" where
  "read_groups limit i s =
     (if limit \<le> i then ([], False, s)
      else case (if i < limit - 1 then read_separated i read_ipv4 s else None) of
             Some ((a, b, c, d), r) \<Rightarrow> ([a * 256 + b, c * 256 + d], True, r)
           | None \<Rightarrow>
               (case read_separated i (read_number 16 4 True 65536) s of
                  None \<Rightarrow> ([], False, s)
                | Some (g, r) \<Rightarrow> (case read_groups limit (i + 1) r of (gs, v4, r) \<Rightarrow> (g # gs, v4, r))))"
  by pat_completeness auto
termination
  by (relation "measure (\<lambda>(limit, i, s). limit - i)") auto

declare read_groups.simps [simp del]

definition segments_word :: "nat list \<Rightarrow> 128 word" where
  "segments_word gs = foldl (\<lambda>acc g. push_bit 16 acc + of_nat g) 0 gs"

definition read_ipv6 :: "string \<Rightarrow> (128 word \<times> string) option" where
  "read_ipv6 s =
     (case read_groups 8 0 s of
        (hd_groups, v4, r) \<Rightarrow>
          if length hd_groups = 8 then Some (segments_word hd_groups, r)
          else if v4 then None
          else Option.bind (Option.bind (read_char (CHR '':'') r) (read_char (CHR '':''))) (\<lambda>r.
            case read_groups (8 - (length hd_groups + 1)) 0 r of
              (tl_groups, _, r) \<Rightarrow>
                Some (segments_word (hd_groups @ replicate (8 - length hd_groups - length tl_groups) 0 @ tl_groups),
                  r)))"

definition parse_ip_addr :: "string \<Rightarrow> ip_addr option" where
  "parse_ip_addr s =
     (case read_ipv4 s of
        Some ((a, b, c, d), r) \<Rightarrow>
          if r = [] then Some (V4 (of_nat a) (of_nat b) (of_nat c) (of_nat d)) else None
      | None \<Rightarrow>
          (case read_ipv6 s of Some (w, r) \<Rightarrow> if r = [] then Some (V6 w) else None | None \<Rightarrow> None))"

definition is_private :: "ip_addr \<Rightarrow> bool" where
  "is_private a = (case a of
     V4 a b c d \<Rightarrow> a = 10 \<or> (a = 172 \<and> 16 \<le> b \<and> b \<le> 31) \<or> (a = 192 \<and> b = 168)
   | V6 _ \<Rightarrow> False)"

definition is_link_local :: "ip_addr \<Rightarrow> bool" where
  "is_link_local a = (case a of V4 a b c d \<Rightarrow> a = 169 \<and> b = 254
   | V6 w \<Rightarrow> and (hd (map of_nat (ipv6_segments w))) (0xffc0 :: 16 word) = 0xfe80)"

definition is_unique_local :: "ip_addr \<Rightarrow> bool" where
  "is_unique_local a = (case a of V4 _ _ _ _ \<Rightarrow> False
   | V6 w \<Rightarrow> and (hd (map of_nat (ipv6_segments w))) (0xfe00 :: 16 word) = 0xfc00)"

section \<open>URLs\<close>

datatype url_host =
    Domain string
  | HostV4 "8 word" "8 word" "8 word" "8 word"
  | HostV6 "128 word"

record url =
  url_scheme :: string
  url_username :: string
  url_password :: "string option"
  url_host :: "url_host option"
  url_port_or_known_default :: "16 word option"
  url_query :: "string option"
  url_fragment :: "string option"

type_synonym url_parser = "string \<Rightarrow> url option"

section \<open>Alphabets of the printed forms\<close>

lemma set_nat_str: "c \<in> set (nat_str n) \<Longrightarrow> is_ascii_digit (byte c)"
  using nat_str_digits by blast

lemma set_nat_hex: "c \<in> set (nat_hex n) \<Longrightarrow> is_ascii_alphanumeric (byte c)"
proof (induction n rule: nat_hex.induct)
  case (1 n)
  have h: "is_ascii_alphanumeric (byte (hex_char k))" if "k < 16" for k
    using that by (auto simp: hex_char_def str_simps)
  show ?case
  proof (cases "n < 16")
    case True
    with "1.prems" h show ?thesis by (auto simp: nat_hex.simps [of n])
  next
    case False
    with 1 h [of "n mod 16"] show ?thesis by (auto simp: nat_hex.simps [of n])
  qed
qed

lemma set_ipv4_str: "c \<in> set (ipv4_str v w x y) \<Longrightarrow> is_ascii_digit (byte c) \<or> c = CHR ''.''"
  by (auto simp: ipv4_str_def dest: set_nat_str)

lemma set_join_hex: "c \<in> set (join '':'' (map nat_hex xs)) \<Longrightarrow>
    is_ascii_alphanumeric (byte c) \<or> c = CHR '':''"
  using set_join [of "'':''" "map nat_hex xs"] by (auto dest: set_nat_hex)

lemma set_ipv6_str: "c \<in> set (ipv6_str w) \<Longrightarrow>
    is_ascii_alphanumeric (byte c) \<or> c = CHR '':'' \<or> c = CHR ''.''"
  by (auto simp: ipv6_str_def Let_def is_ascii_alphanumeric_def is_ascii_alphabetic_def
      is_ascii_lowercase_def split: if_splits prod.splits dest: set_ipv4_str set_join_hex)

end
