(* ===== verification/Status.thy ===== *)
theory Status
  imports Net
begin

text \<open>
  \<^verbatim>\<open>crates/cdenv-core/src/status.rs\<close>: the independent dimensions of a workspace's status,
  TCP ports, the loopback endpoints of declared forwards, and structured status facts. The
  enumerations and records carry the source's variants and fields; the validated types are shown
  never to hold a port outside 1 to 65535 or an address that is not loopback.
\<close>

section \<open>Dimensions\<close>

datatype environment_status =
    EnvRunning | EnvStopped | PartiallyRunning | EnvMissing | Ambiguous | DockerUnavailable

datatype foreground_operation = Idle | Creating | StartingOp | Rebuilding | Stopping | Locking

datatype configuration_drift = DriftCurrent | Drifted

datatype runtime_configuration_drift = RuntimeCurrent | RuntimeApplied | RuntimePending

datatype configuration_validity = ConfigValid | ConfigInvalid | ConfigProfileUnsupported

record configuration_status =
  config_validity :: configuration_validity
  config_build :: configuration_drift
  config_create :: configuration_drift
  config_runtime :: runtime_configuration_drift

definition ConfigurationStatus_current :: configuration_status where
  "ConfigurationStatus_current = \<lparr>config_validity = ConfigValid, config_build = DriftCurrent,
     config_create = DriftCurrent, config_runtime = RuntimeCurrent\<rparr>"

datatype lifecycle_status = LifecycleComplete | RunningInBackground | LifecycleFailed | Indeterminate

datatype forwarding_status =
    ForwardingActive | Degraded | MissingSupervisor | TargetUnavailable | NotConfigured

datatype local_health_status = HealthValid | HealthInterrupted | LastOperationFailed | Corrupt | ProvisionDrift

record status_dimensions =
  dim_environment :: environment_status
  dim_operation :: foreground_operation
  dim_configuration :: configuration_status
  dim_lifecycle :: lifecycle_status
  dim_forwarding :: forwarding_status
  dim_local_health :: local_health_status

section \<open>TCP ports\<close>

datatype tcp_port = TcpPort (tcp_port_get: "16 word")

datatype tcp_port_error = PortZero | PortTooLarge "32 word"

definition TcpPort_new :: "16 word \<Rightarrow> (tcp_port, tcp_port_error) result" where
  "TcpPort_new v = (if v = 0 then Err PortZero else Ok (TcpPort v))"

definition TcpPort_from_u32 :: "32 word \<Rightarrow> (tcp_port, tcp_port_error) result" where
  "TcpPort_from_u32 v =
     (if 2 ^ 16 \<le> unat v then Err (PortTooLarge v) else TcpPort_new (ucast v))"

definition TcpPort_serialize :: "tcp_port \<Rightarrow> ser_value" where
  "TcpPort_serialize p = SerU16 (tcp_port_get p)"

definition TcpPort_deserialize :: "ser_value \<Rightarrow> (tcp_port, tcp_port_error de_error) result" where
  "TcpPort_deserialize v = and_then (de_u32 v) (\<lambda>w. map_err DeCustom (TcpPort_from_u32 w))"

section \<open>Forwarding endpoints\<close>

record forwarding_endpoint =
  endpoint_address :: ip_addr
  endpoint_port :: tcp_port

datatype forwarding_endpoint_error =
    InvalidPort tcp_port_error
  | NonLoopbackAddress ip_addr

definition ForwardingEndpoint_new ::
    "ip_addr \<Rightarrow> tcp_port \<Rightarrow> (forwarding_endpoint, forwarding_endpoint_error) result" where
  "ForwardingEndpoint_new a p =
     (if \<not> is_loopback a then Err (NonLoopbackAddress a)
      else Ok \<lparr>endpoint_address = a, endpoint_port = p\<rparr>)"

definition ForwardingEndpoint_try_from_parts ::
    "ip_addr \<Rightarrow> 32 word \<Rightarrow> (forwarding_endpoint, forwarding_endpoint_error) result" where
  "ForwardingEndpoint_try_from_parts a v =
     and_then (map_err InvalidPort (TcpPort_from_u32 v)) (ForwardingEndpoint_new a)"

definition ForwardingEndpoint_loopback :: "tcp_port \<Rightarrow> forwarding_endpoint" where
  "ForwardingEndpoint_loopback p = \<lparr>endpoint_address = V4 127 0 0 1, endpoint_port = p\<rparr>"

text \<open>Deserialisation first reads the two fields (the port through its own check), then
  validates them together.\<close>

datatype endpoint_de_error =
    EndpointPort "tcp_port_error de_error"
  | EndpointCustom forwarding_endpoint_error

definition ForwardingEndpoint_deserialize ::
    "ip_addr \<Rightarrow> ser_value \<Rightarrow> (forwarding_endpoint, endpoint_de_error) result" where
  "ForwardingEndpoint_deserialize a v =
     and_then (map_err EndpointPort (TcpPort_deserialize v))
       (\<lambda>p. map_err EndpointCustom (ForwardingEndpoint_new a p))"

record forwarding_endpoint_assignment =
  assignment_requested :: forwarding_endpoint
  assignment_assigned :: "forwarding_endpoint option"

definition ForwardingEndpointAssignment_pending ::
    "forwarding_endpoint \<Rightarrow> forwarding_endpoint_assignment" where
  "ForwardingEndpointAssignment_pending r = \<lparr>assignment_requested = r, assignment_assigned = None\<rparr>"

section \<open>Facts\<close>

datatype status_fact_severity = Warning | ErrorSeverity

datatype status_fact_code =
    FactDockerUnavailable | FactAmbiguousContainers | FactInterruptedOperation | FactBuildDrift
  | FactCreateDrift | FactRuntimeDriftApplied | FactRuntimeDriftPending | FactInvalidConfiguration
  | FactProfileUnsupported | FactLifecycleFailed | FactLifecycleIndeterminate
  | FactForwardingDegraded | FactMissingForwardingSupervisor | FactForwardingTargetUnavailable
  | FactLastOperationFailed | FactCorruptLocalState | FactProvisionDrift
  | FactAlternateForwardingEndpoint

record status_fact =
  fact_severity :: status_fact_severity
  fact_code :: status_fact_code

definition StatusFact_warning :: "status_fact_code \<Rightarrow> status_fact" where
  "StatusFact_warning c = \<lparr>fact_severity = Warning, fact_code = c\<rparr>"

definition StatusFact_error :: "status_fact_code \<Rightarrow> status_fact" where
  "StatusFact_error c = \<lparr>fact_severity = ErrorSeverity, fact_code = c\<rparr>"

record workspace_status =
  status_dims :: status_dimensions
  status_forwarding_endpoints :: "forwarding_endpoint_assignment list"
  status_facts :: "status_fact list"

section \<open>Properties\<close>

definition endpoint_ok :: "forwarding_endpoint \<Rightarrow> bool" where
  "endpoint_ok e \<longleftrightarrow> is_loopback (endpoint_address e) \<and> tcp_port_get (endpoint_port e) \<noteq> 0"

lemma unat_ucast_16: "unat (v :: 32 word) < 2 ^ 16 \<Longrightarrow> unat (ucast v :: 16 word) = unat v"
  by (simp add: unsigned_ucast_eq take_bit_nat_eq_self_iff)

lemma unat_ucast_32: "unat (ucast (w :: 16 word) :: 32 word) = unat w"
  using unsigned_less [of w, where ?'a = nat]
  by (simp add: unsigned_ucast_eq take_bit_nat_eq_self_iff)

lemma TcpPort_from_u32_Ok:
  "TcpPort_from_u32 v = Ok p \<longleftrightarrow> v \<noteq> 0 \<and> unat v < 2 ^ 16 \<and> unat (tcp_port_get p) = unat v"
proof (cases "unat v < 2 ^ 16")
  case True
  note u = unat_ucast_16 [OF True]
  have z: "(ucast v :: 16 word) = 0 \<longleftrightarrow> v = 0"
    using u by (metis unsigned_0 unsigned_word_eqI)
  have "p = TcpPort (ucast v) \<longleftrightarrow> unat (tcp_port_get p) = unat v"
    using u unsigned_word_eqI [of "tcp_port_get p" "ucast v", where ?'a = nat]
    by (cases p) auto
  with True z show ?thesis by (auto simp: TcpPort_from_u32_def TcpPort_new_def)
next
  case False
  then show ?thesis by (simp add: TcpPort_from_u32_def)
qed

lemma TcpPort_from_u32_is_ok: "is_ok (TcpPort_from_u32 v) \<longleftrightarrow> v \<noteq> 0 \<and> unat v < 2 ^ 16"
  using unat_ucast_16 [of v] by (auto simp: is_ok_iff TcpPort_from_u32_Ok intro!: exI [of _ "TcpPort (ucast v)"])

lemma TcpPort_serde:
  assumes "tcp_port_get p \<noteq> 0"
  shows "TcpPort_deserialize (TcpPort_serialize p) = Ok p"
proof -
  have b: "unat (tcp_port_get p) < 65536" using unsigned_less [of "tcp_port_get p", where ?'a = nat] by simp
  then have "de_u32 (TcpPort_serialize p) =
      (Ok (of_nat (unat (tcp_port_get p))) :: (_, tcp_port_error de_error) result)"
    by (simp add: de_u32_def de_unsigned_def TcpPort_serialize_def)
  moreover have "TcpPort_from_u32 (of_nat (unat (tcp_port_get p))) = Ok p"
  proof -
    have "unat (of_nat (unat (tcp_port_get p)) :: 32 word) = unat (tcp_port_get p)"
      using unat_ucast_32 [of "tcp_port_get p"] by simp
    moreover have "0 < unat (tcp_port_get p)" using assms by (simp add: unat_gt_0)
    ultimately show ?thesis using b by (auto simp: TcpPort_from_u32_Ok)
  qed
  ultimately show ?thesis by (simp add: TcpPort_deserialize_def)
qed

text \<open>A port is accepted exactly when it is between 1 and 65535, keeps its value, and survives
  serialisation; an endpoint built from any address and any 32-bit port is loopback and has such
  a port, and it is accepted exactly then.\<close>

theorem forwarding_endpoint_loopback_only:
  "(is_ok (ForwardingEndpoint_try_from_parts a v) \<longleftrightarrow> is_loopback a \<and> 1 \<le> unat v \<and> unat v \<le> 65535) \<and>
   (\<forall>e. ForwardingEndpoint_try_from_parts a v = Ok e \<longrightarrow>
      endpoint_ok e \<and> endpoint_address e = a \<and> unat (tcp_port_get (endpoint_port e)) = unat v \<and>
      ForwardingEndpoint_deserialize (endpoint_address e) (TcpPort_serialize (endpoint_port e)) = Ok e)"
proof -
  have nz: "v \<noteq> 0 \<longleftrightarrow> 1 \<le> unat v" by (simp add: Suc_le_eq unat_gt_0)
  have "is_ok (TcpPort_from_u32 v) \<longleftrightarrow> 1 \<le> unat v \<and> unat v \<le> 65535"
    using nz by (auto simp: TcpPort_from_u32_is_ok)
  moreover have "endpoint_ok e \<and> endpoint_address e = a \<and>
      unat (tcp_port_get (endpoint_port e)) = unat v \<and>
      ForwardingEndpoint_deserialize (endpoint_address e) (TcpPort_serialize (endpoint_port e)) = Ok e"
    if ok: "ForwardingEndpoint_try_from_parts a v = Ok e" for e
  proof -
    from ok obtain p where p: "TcpPort_from_u32 v = Ok p" and e: "ForwardingEndpoint_new a p = Ok e"
      by (auto simp: ForwardingEndpoint_try_from_parts_def)
    from e have a: "is_loopback a" "e = \<lparr>endpoint_address = a, endpoint_port = p\<rparr>"
      by (auto simp: ForwardingEndpoint_new_def split: if_splits)
    from p have "0 < unat (tcp_port_get p)" by (auto simp: TcpPort_from_u32_Ok unat_gt_0)
    then have np: "tcp_port_get p \<noteq> 0" by (simp add: unat_gt_0)
    with TcpPort_serde a p show ?thesis
      by (auto simp: endpoint_ok_def ForwardingEndpoint_deserialize_def ForwardingEndpoint_new_def
          TcpPort_from_u32_Ok)
  qed
  ultimately show ?thesis
    by (auto simp: ForwardingEndpoint_try_from_parts_def ForwardingEndpoint_new_def is_ok_iff)
qed

theorem forwarding_endpoint_loopback_only_witness:
  "is_ok (ForwardingEndpoint_try_from_parts (V4 127 0 0 1) 8080) \<and>
   \<not> is_ok (ForwardingEndpoint_try_from_parts (V4 0 0 0 0) 8080) \<and>
   (\<exists>e. ForwardingEndpoint_try_from_parts (V4 127 0 0 1) 8080 = Ok e \<and> endpoint_ok e)"
  using forwarding_endpoint_loopback_only [of "V4 127 0 0 1" 8080]
    forwarding_endpoint_loopback_only [of "V4 0 0 0 0" 8080]
  by (simp add: is_ok_iff) blast

end
