(* ===== verification/Credentials.thy ===== *)
theory Credentials
  imports Net
begin

text \<open>
  \<^verbatim>\<open>crates/cdenv-core/src/credentials.rs\<close>: host capabilities, exact HTTPS origins, SSH-agent
  selectors and the per-workspace grants. The URL parser of the \<^verbatim>\<open>url\<close> crate is a parameter.
  Grants are an instance of the \<open>stateful\<close> contract, and an origin that is allowed is
  traced back to a call that granted it and that nothing revoked since.
\<close>

section \<open>Capabilities and errors\<close>

definition MAX_HTTPS_ORIGINS :: nat where "MAX_HTTPS_ORIGINS = 64"
definition MAX_ORIGIN_BYTES :: nat where "MAX_ORIGIN_BYTES = 2048"

datatype credential_policy_error =
    UnknownCapability | InvalidOrigin | OriginsRequired | HttpsDisabled | TooManyOrigins
  | InvalidSocketSelector

datatype credential_capability = GitHttps | SshAgent | GitIdentity

primrec capability_as_str :: "credential_capability \<Rightarrow> string" where
  "capability_as_str GitHttps = ''git-https''"
| "capability_as_str SshAgent = ''ssh-agent''"
| "capability_as_str GitIdentity = ''git-identity''"

definition CredentialCapability_from_str ::
    "string \<Rightarrow> (credential_capability, credential_policy_error) result" where
  "CredentialCapability_from_str s =
     (if s = ''git-https'' then Ok GitHttps
      else if s = ''ssh-agent'' then Ok SshAgent
      else if s = ''git-identity'' then Ok GitIdentity
      else Err UnknownCapability)"

section \<open>HTTPS origins\<close>

datatype https_origin = HttpsOrigin (origin_as_str: string)

definition dns_label_ok :: "string \<Rightarrow> bool" where
  "dns_label_ok label \<longleftrightarrow> \<not> (label = [] \<or> 63 < length label \<or> prefix ''-'' label \<or> suffix ''-'' label \<or>
     \<not> list_all (\<lambda>c. is_ascii_alphanumeric (byte c) \<or> c = CHR ''-'') label)"

definition origin_host ::
    "string \<Rightarrow> url_host \<Rightarrow> (string, credential_policy_error) result" where
  "origin_host authority h =
     (case h of
        Domain d \<Rightarrow>
          (let host = option_or (strip_suffix ''.'' d) d
           in if host = [] \<or> list_ex (\<lambda>l. \<not> dns_label_ok l) (split_on (CHR ''.'') host) \<or>
                 253 < length host
              then Err InvalidOrigin else Ok host)
      | HostV4 a b c e \<Rightarrow>
          (let input_host = hd (split_on (CHR '':'') authority)
           in if input_host \<noteq> ipv4_str a b c e then Err InvalidOrigin else Ok (ipv4_str a b c e))
      | HostV6 w \<Rightarrow> Ok (''['' @ ipv6_str w @ '']''))"

definition canonical_origin :: "string \<Rightarrow> 16 word \<Rightarrow> https_origin" where
  "canonical_origin host port = HttpsOrigin (''https://'' @ host @ '':'' @ nat_str (unat port))"

definition HttpsOrigin_parse ::
    "url_parser \<Rightarrow> string \<Rightarrow> (https_origin, credential_policy_error) result" where
  "HttpsOrigin_parse url_parse s =
     (if MAX_ORIGIN_BYTES < length s \<or>
         list_ex (\<lambda>c. is_control c \<or> is_whitespace c) (chars s) \<or>
         list_ex (\<lambda>c. c \<in> {CHR 0x5C, CHR ''%'', CHR ''*'', CHR ''?'', CHR ''#'', CHR ''@''}) s
      then Err InvalidOrigin
      else and_then (ok_or InvalidOrigin (split_once_str ''://'' s)) (\<lambda>(scheme, rest).
        if \<not> eq_ignore_ascii_case scheme ''https'' then Err InvalidOrigin
        else
          (let authority = option_or (strip_suffix ''/'' rest) rest
           in if authority = [] \<or> CHR ''/'' \<in> set authority \<or> suffix '':'' authority
              then Err InvalidOrigin
              else and_then (ok_or InvalidOrigin (url_parse s)) (\<lambda>u.
                and_then (ok_or InvalidOrigin (url_host u)) (\<lambda>h.
                and_then (origin_host authority h) (\<lambda>host.
                and_then (ok_or InvalidOrigin (url_port_or_known_default u)) (\<lambda>port.
                  if port = 0 then Err InvalidOrigin
                  else Ok (canonical_origin host port))))))))"

definition HttpsOrigin_from_repository_source ::
    "url_parser \<Rightarrow> string \<Rightarrow> (https_origin, credential_policy_error) result" where
  "HttpsOrigin_from_repository_source url_parse s =
     (if list_ex (\<lambda>c. is_control c \<or> is_whitespace c) (chars s) \<or> CHR 0x5C \<in> set s
      then Err InvalidOrigin
      else and_then (ok_or InvalidOrigin (url_parse s)) (\<lambda>u.
        if url_scheme u \<noteq> ''https'' \<or> url_username u \<noteq> [] \<or> url_password u \<noteq> None \<or>
           url_query u \<noteq> None \<or> url_fragment u \<noteq> None
        then Err InvalidOrigin
        else and_then (ok_or InvalidOrigin (split_once_str ''://'' s)) (\<lambda>(_, remainder).
          HttpsOrigin_parse url_parse (''https://'' @ hd (split_on (CHR ''/'') remainder)))))"

section \<open>SSH-agent selectors\<close>

datatype ssh_agent_selector = SshAgentSelector (selector_text: string)

definition SshAgentSelector_automatic :: ssh_agent_selector where
  "SshAgentSelector_automatic = SshAgentSelector ''auto''"

definition SshAgentSelector_explicit_path :: "ssh_agent_selector \<Rightarrow> string option" where
  "SshAgentSelector_explicit_path s =
     (if selector_text s \<noteq> ''auto'' then Some (selector_text s) else None)"

definition SshAgentSelector_from_str ::
    "string \<Rightarrow> (ssh_agent_selector, credential_policy_error) result" where
  "SshAgentSelector_from_str s =
     (if s = ''auto'' then Ok SshAgentSelector_automatic
      else if \<not> prefix ''/'' s \<or> 4096 < length s \<or> list_ex is_control (chars s) \<or>
              list_ex (\<lambda>p. p = [] \<or> p = ''.'' \<or> p = ''..'') (drop 1 (split_on (CHR ''/'') s))
      then Err InvalidSocketSelector
      else Ok (SshAgentSelector s))"

section \<open>Grants\<close>

record credential_grants =
  git_https :: "https_origin set option"
  ssh_agent :: "ssh_agent_selector option"
  git_identity :: bool

definition CredentialGrants_default :: credential_grants where
  "CredentialGrants_default = \<lparr>git_https = None, ssh_agent = None, git_identity = False\<rparr>"

primrec CredentialGrants_enabled :: "credential_capability \<Rightarrow> credential_grants \<Rightarrow> bool" where
  "CredentialGrants_enabled GitHttps g = (git_https g \<noteq> None)"
| "CredentialGrants_enabled SshAgent g = (ssh_agent g \<noteq> None)"
| "CredentialGrants_enabled GitIdentity g = git_identity g"

definition CredentialGrants_allows :: "https_origin \<Rightarrow> credential_grants \<Rightarrow> bool" where
  "CredentialGrants_allows o' g = (case git_https g of Some os \<Rightarrow> o' \<in> os | None \<Rightarrow> False)"

definition CredentialGrants_validate :: "credential_grants \<Rightarrow> (unit, credential_policy_error) result" where
  "CredentialGrants_validate g =
     (case git_https g of
        Some os \<Rightarrow> if MAX_HTTPS_ORIGINS < card os then Err TooManyOrigins else Ok ()
      | None \<Rightarrow> Ok ())"

definition CredentialGrants_enable_https ::
    "https_origin list \<Rightarrow> credential_grants \<Rightarrow> credential_grants \<times> (unit, credential_policy_error) result" where
  "CredentialGrants_enable_https origins g =
     (if git_https g = None \<and> origins = [] then (g, Err OriginsRequired)
      else
        (let desired = option_or (git_https g) {} \<union> set origins
         in if MAX_HTTPS_ORIGINS < card desired then (g, Err TooManyOrigins)
            else (g\<lparr>git_https := Some desired\<rparr>, Ok ())))"

definition CredentialGrants_adjust_origins ::
    "https_origin list \<Rightarrow> bool \<Rightarrow> credential_grants \<Rightarrow> credential_grants \<times> (unit, credential_policy_error) result" where
  "CredentialGrants_adjust_origins origins allow g =
     (case git_https g of
        None \<Rightarrow> (g, Err HttpsDisabled)
      | Some granted \<Rightarrow>
          if origins = [] then (g, Err OriginsRequired)
          else if allow then CredentialGrants_enable_https origins g
          else (g\<lparr>git_https := Some (granted - set origins)\<rparr>, Ok ()))"

definition CredentialGrants_enable_ssh_agent ::
    "ssh_agent_selector \<Rightarrow> credential_grants \<Rightarrow> credential_grants" where
  "CredentialGrants_enable_ssh_agent s g = g\<lparr>ssh_agent := Some s\<rparr>"

definition CredentialGrants_enable_identity :: "credential_grants \<Rightarrow> credential_grants" where
  "CredentialGrants_enable_identity g = g\<lparr>git_identity := True\<rparr>"

primrec CredentialGrants_disable :: "credential_capability \<Rightarrow> credential_grants \<Rightarrow> credential_grants" where
  "CredentialGrants_disable GitHttps g = g\<lparr>git_https := None\<rparr>"
| "CredentialGrants_disable SshAgent g = g\<lparr>ssh_agent := None\<rparr>"
| "CredentialGrants_disable GitIdentity g = g\<lparr>git_identity := False\<rparr>"

definition CredentialGrants_is_empty :: "credential_grants \<Rightarrow> bool" where
  "CredentialGrants_is_empty g \<longleftrightarrow> git_https g = None \<and> ssh_agent g = None \<and> \<not> git_identity g"

lemmas grant_defs =
  CredentialGrants_enable_https_def CredentialGrants_adjust_origins_def
  CredentialGrants_enable_ssh_agent_def CredentialGrants_enable_identity_def

datatype grant_call =
    EnableHttps "https_origin list"
  | AdjustOrigins "https_origin list" bool
  | EnableSshAgent ssh_agent_selector
  | EnableIdentity
  | DisableCapability credential_capability

primrec grant_step ::
    "(grant_call, credential_grants, unit, credential_policy_error) operations" where
  "grant_step (EnableHttps os) g = CredentialGrants_enable_https os g"
| "grant_step (AdjustOrigins os allow) g = CredentialGrants_adjust_origins os allow g"
| "grant_step (EnableSshAgent s) g = (CredentialGrants_enable_ssh_agent s g, Ok ())"
| "grant_step EnableIdentity g = (CredentialGrants_enable_identity g, Ok ())"
| "grant_step (DisableCapability c) g = (CredentialGrants_disable c g, Ok ())"

definition grants_inv :: "credential_grants \<Rightarrow> bool" where
  "grants_inv g \<longleftrightarrow> (\<forall>os. git_https g = Some os \<longrightarrow> finite os \<and> card os \<le> MAX_HTTPS_ORIGINS)"

lemma grants_inv_default: "grants_inv CredentialGrants_default"
  by (simp add: grants_inv_def CredentialGrants_default_def)

lemma enable_https_inv:
  "grants_inv g \<Longrightarrow> grants_inv (fst (CredentialGrants_enable_https os g))"
  by (auto simp: grants_inv_def CredentialGrants_enable_https_def Let_def option_or_def
      split: option.splits)

interpretation grants: stateful grant_step grants_inv
proof unfold_locales
  fix g x
  assume inv: "grants_inv g"
  show "grants_inv (fst (grant_step x g))"
  proof (cases x)
    case (EnableHttps os)
    with inv show ?thesis by (simp add: enable_https_inv)
  next
    case (AdjustOrigins os allow)
    have "card (granted - set os) \<le> card granted" if "finite granted" for granted
      using that by (intro card_mono) auto
    with AdjustOrigins inv enable_https_inv [OF inv, of os] show ?thesis
      by (auto simp: CredentialGrants_adjust_origins_def split: option.splits)
         (auto simp: grants_inv_def intro: le_trans)
  next
    case (EnableSshAgent s)
    with inv show ?thesis by (simp add: grants_inv_def grant_defs)
  next
    case EnableIdentity
    with inv show ?thesis by (simp add: grants_inv_def grant_defs)
  next
    case (DisableCapability c)
    with inv show ?thesis by (cases c) (simp_all add: grants_inv_def)
  qed
next
  fix g x e
  assume "snd (grant_step x g) = Err e"
  then show "fst (grant_step x g) = g"
    by (cases x) (auto simp: grant_defs Let_def split: if_splits option.splits)
qed

section \<open>Where an allowed origin comes from\<close>

definition call_grants :: "https_origin \<Rightarrow> grant_call \<Rightarrow> bool" where
  "call_grants o' x = (case x of
     EnableHttps os \<Rightarrow> o' \<in> set os | AdjustOrigins os allow \<Rightarrow> allow \<and> o' \<in> set os | _ \<Rightarrow> False)"

definition call_revokes :: "https_origin \<Rightarrow> grant_call \<Rightarrow> bool" where
  "call_revokes o' x = (case x of
     AdjustOrigins os allow \<Rightarrow> \<not> allow \<and> o' \<in> set os | DisableCapability c \<Rightarrow> c = GitHttps
   | _ \<Rightarrow> False)"

lemma grant_step_allows:
  assumes "CredentialGrants_allows o' (fst (grant_step x g))"
  shows "call_grants o' x \<or> CredentialGrants_allows o' g \<and> \<not> call_revokes o' x"
proof (cases x)
  case (EnableHttps os)
  with assms show ?thesis
    by (auto simp: CredentialGrants_allows_def grant_defs call_grants_def call_revokes_def Let_def
        option_or_def split: option.splits if_splits)
next
  case (AdjustOrigins os allow)
  with assms show ?thesis
    by (auto simp: CredentialGrants_allows_def grant_defs call_grants_def call_revokes_def Let_def
        option_or_def split: option.splits if_splits)
next
  case (DisableCapability c)
  with assms show ?thesis
    by (cases c) (auto simp: CredentialGrants_allows_def call_revokes_def)
qed (use assms in \<open>auto simp: CredentialGrants_allows_def grant_defs call_revokes_def\<close>)

lemma run_allows:
  "CredentialGrants_allows o' (run_ops grant_step CredentialGrants_default xs) \<Longrightarrow>
     \<exists>as x bs. xs = as @ x # bs \<and> call_grants o' x \<and> (\<forall>b \<in> set bs. \<not> call_revokes o' b)"
proof (induction xs rule: rev_induct)
  case Nil
  then show ?case by (simp add: CredentialGrants_allows_def CredentialGrants_default_def)
next
  case (snoc y xs)
  from snoc.prems
  have "CredentialGrants_allows o' (fst (grant_step y (run_ops grant_step CredentialGrants_default xs)))"
    by simp
  from grant_step_allows [OF this] show ?case
  proof
    assume "call_grants o' y"
    then show ?thesis by (intro exI [of _ xs] exI [of _ y] exI [of _ "[]"]) simp
  next
    assume a: "CredentialGrants_allows o' (run_ops grant_step CredentialGrants_default xs) \<and>
      \<not> call_revokes o' y"
    with snoc.IH obtain as x bs where "xs = as @ x # bs" "call_grants o' x"
      "\<forall>b \<in> set bs. \<not> call_revokes o' b" by blast
    with a show ?thesis by (intro exI [of _ as] exI [of _ x] exI [of _ "bs @ [y]"]) auto
  qed
qed

primrec call_capability :: "grant_call \<Rightarrow> credential_capability" where
  "call_capability (EnableHttps os) = GitHttps"
| "call_capability (AdjustOrigins os allow) = GitHttps"
| "call_capability (EnableSshAgent s) = SshAgent"
| "call_capability EnableIdentity = GitIdentity"
| "call_capability (DisableCapability c) = c"

definition origin_host_byte :: "char \<Rightarrow> bool" where
  "origin_host_byte c \<longleftrightarrow> is_ascii_alphanumeric (byte c) \<or> c \<in> set ''-.:[]''"

lemma origin_host_shape:
  assumes "origin_host authority h = Ok host"
  shows "host \<noteq> [] \<and> (\<forall>c \<in> set host. origin_host_byte c)"
proof (cases h)
  case (Domain d)
  let ?t = "option_or (strip_suffix ''.'' d) d"
  from assms Domain have host: "host = ?t" "host \<noteq> []" and
    labels: "\<forall>l \<in> set (split_on (CHR ''.'') host). dns_label_ok l"
    by (auto simp: origin_host_def Let_def list_ex_iff split: if_splits)
  have "set host \<subseteq> set ''.'' \<union> (\<Union>l \<in> set (split_on (CHR ''.'') host). set l)"
    using set_join [of "''.''" "split_on (CHR ''.'') host"] by (simp add: join_split_on)
  with labels host show ?thesis
    by (fastforce simp: origin_host_byte_def dns_label_ok_def list_all_iff)
next
  case (HostV4 a b c d)
  with assms have "host = ipv4_str a b c d" by (auto simp: origin_host_def Let_def split: if_splits)
  moreover have "ipv4_str a b c d \<noteq> []" by (simp add: ipv4_str_def)
  ultimately show ?thesis
    by (auto simp: origin_host_byte_def is_ascii_alphanumeric_def dest: set_ipv4_str)
next
  case (HostV6 w)
  with assms show ?thesis
    by (auto simp: origin_host_def origin_host_byte_def dest: set_ipv6_str)
qed

section \<open>Properties\<close>

text \<open>Whatever the URL library answers, an accepted origin is \<^verbatim>\<open>https://host:port\<close> with a
  port from 1 to 65535 and a non-empty host of letters, digits, hyphens, dots, colons and
  brackets only, so it carries no user information, path, query, fragment or wildcard; and it
  was accepted from text that had none of these.\<close>

theorem https_origin_shape:
  assumes "HttpsOrigin_parse url_parse s = Ok o'"
  shows "(\<exists>host port. origin_as_str o' = ''https://'' @ host @ '':'' @ nat_str port \<and>
      1 \<le> port \<and> port \<le> 65535 \<and> host \<noteq> [] \<and> (\<forall>c \<in> set host. origin_host_byte c)) \<and>
    length s \<le> 2048 \<and> set s \<inter> set ''%*?#@'' = {} \<and>
    (\<exists>scheme rest. s = scheme @ ''://'' @ rest \<and> eq_ignore_ascii_case scheme ''https'')"
proof -
  from assms obtain scheme rest h host port where
    s: "split_once_str ''://'' s = Some (scheme, rest)" "eq_ignore_ascii_case scheme ''https''" and
    h: "origin_host (option_or (strip_suffix ''/'' rest) rest) h = Ok host" and
    port: "port \<noteq> 0" and o': "o' = canonical_origin host port" and
    len: "length s \<le> 2048" and
    no: "\<not> list_ex (\<lambda>c. c \<in> {CHR 0x5C, CHR ''%'', CHR ''*'', CHR ''?'', CHR ''#'', CHR ''@''}) s"
    by (auto simp: HttpsOrigin_parse_def Let_def MAX_ORIGIN_BYTES_def split: if_splits)
  have "1 \<le> unat (port :: 16 word)" using port by (simp add: Suc_le_eq unat_gt_0)
  moreover have "unat port \<le> 65535" using unsigned_less [of port, where ?'a = nat] by simp
  moreover have "set s \<inter> set ''%*?#@'' = {}" using no by (auto simp: list_ex_iff)
  moreover have "s = scheme @ ''://'' @ rest" using split_once_str_Some [OF s(1)] by simp
  ultimately show ?thesis
    using origin_host_shape [OF h] s(2) len
    unfolding o' canonical_origin_def https_origin.sel by blast
qed

definition sample_url :: url where
  "sample_url = \<lparr>url_scheme = ''https'', url_username = [], url_password = None,
     url_host = Some (Domain ''git.example''), url_port_or_known_default = Some 443,
     url_query = None, url_fragment = None\<rparr>"

lemma sample_origin:
  "HttpsOrigin_parse (\<lambda>_. Some sample_url) ''https://git.example'' =
     Ok (HttpsOrigin ''https://git.example:443'')"
proof -
  have "nat_str (unat (443 :: 16 word)) = ''443''" 
    by (simp add: nat_str.simps digit_char_def char_of_eq_iff)
  moreover have "split_once_str ''://'' ''https://git.example'' = Some (''https'', ''git.example'')"
    by (simp add: split_once_str_def find_str.simps)
  moreover have "origin_host ''git.example'' (Domain ''git.example'') = Ok ''git.example''"
    by (simp add: origin_host_def strip_suffix_def option_or_def dns_label_ok_def str_simps
        suffix_to_prefix)
  ultimately show ?thesis
    by (simp add: HttpsOrigin_parse_def sample_url_def canonical_origin_def Let_def
        MAX_ORIGIN_BYTES_def chars_ascii str_simps strip_suffix_def option_or_def eq_ignore_ascii_case_def
        suffix_to_prefix)
qed

theorem https_origin_shape_witness:
  "\<exists>host port. ''https://git.example:443'' = ''https://'' @ host @ '':'' @ nat_str port \<and>
     1 \<le> port \<and> port \<le> 65535 \<and> host \<noteq> []"
  using https_origin_shape [OF sample_origin] by auto

text \<open>C4: after any calls on fresh grants, an origin is allowed only if some call named it in an
  enable or an allow and no later call denied it or disabled HTTPS; the aggregate bound holds,
  and the calls that were refused left no trace.\<close>

theorem grants_allow_only_granted:
  fixes xs :: "grant_call list"
  defines "g \<equiv> run_ops grant_step CredentialGrants_default xs"
  shows "(CredentialGrants_allows o' g \<longrightarrow>
      (\<exists>as x bs. xs = as @ x # bs \<and> call_grants o' x \<and> (\<forall>b \<in> set bs. \<not> call_revokes o' b))) \<and>
    CredentialGrants_validate g = Ok () \<and>
    run_ops grant_step CredentialGrants_default (accepted grant_step CredentialGrants_default xs) = g"
proof -
  have "grants_inv g" unfolding g_def by (rule grants.run_inv [OF grants_inv_default])
  then have "CredentialGrants_validate g = Ok ()"
    by (auto simp: grants_inv_def CredentialGrants_validate_def split: option.splits)
  with run_allows [of o' xs] grants.run_accepted [OF grants_inv_default, of xs] show ?thesis
    by (simp add: g_def)
qed

theorem grants_allow_only_granted_witness:
  "CredentialGrants_allows (HttpsOrigin ''a'')
     (run_ops grant_step CredentialGrants_default [EnableHttps [HttpsOrigin ''a''], EnableIdentity]) \<and>
   (\<exists>as x bs. [EnableHttps [HttpsOrigin ''a''], EnableIdentity] = as @ x # bs \<and>
      call_grants (HttpsOrigin ''a'') x)"
proof -
  have "CredentialGrants_allows (HttpsOrigin ''a'')
     (run_ops grant_step CredentialGrants_default [EnableHttps [HttpsOrigin ''a''], EnableIdentity])"
    by (simp add: CredentialGrants_allows_def CredentialGrants_default_def grant_defs Let_def
        option_or_def MAX_HTTPS_ORIGINS_def)
  with grants_allow_only_granted [of "HttpsOrigin ''a''" "[EnableHttps [HttpsOrigin ''a''], EnableIdentity]"]
  show ?thesis by blast
qed

text \<open>The capabilities are independent: a call changes the state of its own capability only,
  and disabling one takes away all of its authority.\<close>

theorem grants_independent:
  "(call_capability x \<noteq> GitHttps \<longrightarrow> git_https (fst (grant_step x g)) = git_https g) \<and>
   (call_capability x \<noteq> SshAgent \<longrightarrow> ssh_agent (fst (grant_step x g)) = ssh_agent g) \<and>
   (call_capability x \<noteq> GitIdentity \<longrightarrow> git_identity (fst (grant_step x g)) = git_identity g) \<and>
   \<not> CredentialGrants_enabled c (CredentialGrants_disable c g) \<and>
   \<not> CredentialGrants_allows o' (CredentialGrants_disable GitHttps g)"
proof -
  have "git_https (fst (grant_step x g)) = git_https g" if "call_capability x \<noteq> GitHttps"
    using that by (cases x; cases "call_capability x") (auto simp: grant_defs)
  moreover have "ssh_agent (fst (grant_step x g)) = ssh_agent g" if "call_capability x \<noteq> SshAgent"
    using that by (cases x; cases "call_capability x")
      (auto simp: grant_defs Let_def split: option.splits)
  moreover have "git_identity (fst (grant_step x g)) = git_identity g"
    if "call_capability x \<noteq> GitIdentity"
    using that by (cases x; cases "call_capability x")
      (auto simp: grant_defs Let_def split: option.splits)
  ultimately show ?thesis
    by (cases c) (auto simp: CredentialGrants_allows_def)
qed

theorem grants_independent_witness:
  "git_identity (fst (grant_step (EnableHttps [HttpsOrigin ''a'']) CredentialGrants_default)) = False"
  using grants_independent [of "EnableHttps [HttpsOrigin ''a'']" CredentialGrants_default]
  by (simp add: CredentialGrants_default_def)

text \<open>An SSH-agent selector is \<^verbatim>\<open>auto\<close> or an absolute path free of control characters
  whose components are never empty, \<^verbatim>\<open>.\<close> or \<^verbatim>\<open>..\<close>; it reparses to itself, and only \<^verbatim>\<open>auto\<close> has no
  explicit path.\<close>

theorem ssh_selector_absolute:
  assumes "SshAgentSelector_from_str s = Ok sel"
  shows "selector_text sel = s \<and> SshAgentSelector_from_str (selector_text sel) = Ok sel \<and>
    (case SshAgentSelector_explicit_path sel of
       None \<Rightarrow> s = ''auto''
     | Some p \<Rightarrow> p = s \<and> (\<exists>ps. p = CHR ''/'' # join ''/'' ps \<and> ps \<noteq> [] \<and>
         set ps \<inter> {[], ''.'', ''..''} = {}) \<and> length p \<le> 4096 \<and> \<not> list_ex is_control (chars p))"
proof (cases "s = ''auto''")
  case True
  with assms show ?thesis
    by (auto simp: SshAgentSelector_from_str_def SshAgentSelector_automatic_def
        SshAgentSelector_explicit_path_def)
next
  case False
  with assms have sel: "sel = SshAgentSelector s" and slash: "prefix ''/'' s" and
    parts: "\<not> list_ex (\<lambda>p. p = [] \<or> p = ''.'' \<or> p = ''..'') (drop 1 (split_on (CHR ''/'') s))" and
    rest: "length s \<le> 4096" "\<not> list_ex is_control (chars s)"
    by (auto simp: SshAgentSelector_from_str_def split: if_splits)
  from slash obtain t where t: "s = CHR ''/'' # t" by (auto simp: prefix_def)
  then have "s = CHR ''/'' # join ''/'' (split_on (CHR ''/'') t)" by (simp add: join_split_on)
  moreover have "set (split_on (CHR ''/'') t) \<inter> {[], ''.'', ''..''} = {}"
    using parts t by (auto simp: list_ex_iff)
  ultimately show ?thesis
    using False assms sel rest
    by (auto simp: SshAgentSelector_explicit_path_def intro!: exI [of _ "split_on (CHR ''/'') t"])
qed

theorem ssh_selector_absolute_witness:
  "selector_text (SshAgentSelector ''/run/agent.sock'') = ''/run/agent.sock'' \<and>
   SshAgentSelector_explicit_path (SshAgentSelector ''/run/agent.sock'') \<noteq> None"
proof -
  have "SshAgentSelector_from_str ''/run/agent.sock'' = Ok (SshAgentSelector ''/run/agent.sock'')"
    by code_simp
  from ssh_selector_absolute [OF this] show ?thesis
    by (auto simp: SshAgentSelector_explicit_path_def)
qed

text \<open>A capability is parsed from exactly its public name.\<close>

theorem capability_names:
  "CredentialCapability_from_str s = Ok c \<longleftrightarrow> s = capability_as_str c"
  by (cases c) (auto simp: CredentialCapability_from_str_def)

end
