(* ===== verification/Ordered_Map.thy ===== *)
theory Ordered_Map
  imports Prelude "HOL-Library.List_Lexorder"
begin

text \<open>
  \<^verbatim>\<open>std::collections::BTreeMap\<close> as the list of its entries in ascending key order, which is the
  order the sources iterate and print it in. Keys that are strings are compared bytewise, as
  Rust compares \<^verbatim>\<open>str\<close>. The locale \<open>map_interface\<close> states what the components rely on;
  \<open>bt\<close> interprets it on the list operations.
\<close>

section \<open>The contract\<close>

text \<open>Inserting a list of entries one after the other, for any insertion function.\<close>

fun insert_all :: "('k \<Rightarrow> 'v \<Rightarrow> 'm \<Rightarrow> 'm) \<Rightarrow> ('k \<times> 'v) list \<Rightarrow> 'm \<Rightarrow> 'm" where
  "insert_all ins [] m = m"
| "insert_all ins ((k, v) # kvs) m = insert_all ins kvs (ins k v m)"

lemma insert_all_append [simp]:
  "insert_all ins (kvs @ lvs) m = insert_all ins lvs (insert_all ins kvs m)"
  by (induction ins kvs m rule: insert_all.induct) auto

locale map_interface =
  fixes empty :: 'm
    and get :: "'m \<Rightarrow> 'k \<Rightarrow> 'v option"
    and insert :: "'k \<Rightarrow> 'v \<Rightarrow> 'm \<Rightarrow> 'm"
    and remove :: "'k \<Rightarrow> 'm \<Rightarrow> 'm"
    and entries :: "'m \<Rightarrow> nat"
    and ok :: "'m \<Rightarrow> bool"
  assumes ok_empty: "ok empty"
    and ok_insert: "ok m \<Longrightarrow> ok (insert k v m)"
    and ok_remove: "ok m \<Longrightarrow> ok (remove k m)"
    and get_empty: "get empty = Map.empty"
    and get_insert: "ok m \<Longrightarrow> get (insert k v m) = (get m)(k \<mapsto> v)"
    and get_remove: "ok m \<Longrightarrow> get (remove k m) = (get m)(k := None)"
    and entries_card: "ok m \<Longrightarrow> entries m = card (dom (get m))"
    and finite_dom: "ok m \<Longrightarrow> finite (dom (get m))"
    and ext: "ok m \<Longrightarrow> ok m' \<Longrightarrow> get m = get m' \<Longrightarrow> m = m'"
begin

lemma ok_insert_all: "ok m \<Longrightarrow> ok (insert_all insert kvs m)"
  by (induction kvs arbitrary: m) (auto simp: ok_insert)

lemma get_insert_all: "ok m \<Longrightarrow> get (insert_all insert kvs m) = get m ++ map_of (rev kvs)"
proof (induction kvs arbitrary: m)
  case Nil
  then show ?case by simp
next
  case (Cons kv kvs)
  then show ?case
    by (cases kv) (auto simp: get_insert ok_insert map_add_def fun_eq_iff split: option.splits)
qed

lemma get_insert_all_distinct:
  assumes "ok m" and "distinct (map fst kvs)"
  shows "get (insert_all insert kvs m) = get m ++ map_of kvs"
proof -
  have "map_of (rev kvs) = map_of kvs"
    using assms(2) by (simp add: map_of_inject_set rev_map [symmetric])
  with get_insert_all [OF assms(1), of kvs] show ?thesis by simp
qed

lemma entries_insert:
  "ok m \<Longrightarrow> get m k = None \<Longrightarrow> entries (insert k v m) = Suc (entries m)"
  by (auto simp: entries_card ok_insert get_insert finite_dom domIff card_insert_if)

lemma entries_insert_all:
  assumes "distinct (map fst kvs)"
  shows "entries (insert_all insert kvs empty) = length kvs"
proof -
  have "dom (get (insert_all insert kvs empty)) = fst ` set kvs"
    using assms by (simp add: get_insert_all_distinct ok_empty get_empty dom_map_of_conv_image_fst)
  then have "entries (insert_all insert kvs empty) = card (set (map fst kvs))"
    by (simp add: entries_card ok_insert_all ok_empty)
  with assms show ?thesis by (metis distinct_card length_map)
qed

lemma insert_all_order:
  assumes "distinct (map fst kvs)" and "distinct (map fst lvs)" and "set kvs = set lvs"
  shows "insert_all insert kvs empty = insert_all insert lvs empty"
  by (rule ext)
    (use assms in \<open>auto simp: ok_insert_all ok_empty get_insert_all_distinct get_empty map_of_inject_set\<close>)

end

section \<open>Sorted association lists\<close>

type_synonym ('k, 'v) btree = "('k \<times> 'v) list"

definition bt_ok :: "('k :: linorder, 'v) btree \<Rightarrow> bool" where
  "bt_ok m \<longleftrightarrow> sorted_wrt (<) (map fst m)"

abbreviation bt_get :: "('k, 'v) btree \<Rightarrow> 'k \<Rightarrow> 'v option" where
  "bt_get \<equiv> map_of"

fun bt_insert :: "'k :: linorder \<Rightarrow> 'v \<Rightarrow> ('k, 'v) btree \<Rightarrow> ('k, 'v) btree" where
  "bt_insert k v [] = [(k, v)]"
| "bt_insert k v ((a, b) # m) =
     (if k < a then (k, v) # (a, b) # m
      else if k = a then (k, v) # m
      else (a, b) # bt_insert k v m)"

definition bt_remove :: "'k \<Rightarrow> ('k, 'v) btree \<Rightarrow> ('k, 'v) btree" where
  "bt_remove k m = filter (\<lambda>(a, _). a \<noteq> k) m"

abbreviation bt_keys :: "('k, 'v) btree \<Rightarrow> 'k list" where
  "bt_keys m \<equiv> map fst m"

lemma bt_get_insert [simp]: "bt_get (bt_insert k v m) = (bt_get m)(k \<mapsto> v)"
  by (induction k v m rule: bt_insert.induct) (auto simp: fun_eq_iff)

lemma bt_get_remove [simp]: "bt_get (bt_remove k m) = (bt_get m)(k := None)"
  by (induction m) (auto simp: bt_remove_def fun_eq_iff)

lemma set_bt_insert_keys: "fst ` set (bt_insert k v m) = insert k (fst ` set m)"
  by (induction k v m rule: bt_insert.induct) auto

lemma bt_ok_Nil [simp]: "bt_ok []"
  by (simp add: bt_ok_def)

lemma bt_ok_Cons: "bt_ok ((a, b) # m) \<longleftrightarrow> (\<forall>k \<in> fst ` set m. a < k) \<and> bt_ok m"
  by (simp add: bt_ok_def)

lemma bt_ok_insert [simp]: "bt_ok m \<Longrightarrow> bt_ok (bt_insert k v m)"
proof (induction k v m rule: bt_insert.induct)
  case (2 k v a b m)
  then show ?case by (auto simp: bt_ok_Cons set_bt_insert_keys)
qed (simp add: bt_ok_def)

lemma bt_ok_remove [simp]: "bt_ok m \<Longrightarrow> bt_ok (bt_remove k m)"
  by (induction m) (auto simp: bt_remove_def bt_ok_Cons)

lemma bt_ok_distinct: "bt_ok m \<Longrightarrow> distinct (bt_keys m)"
  by (simp add: bt_ok_def strict_sorted_iff)

lemma bt_ok_sorted: "bt_ok m \<Longrightarrow> sorted (bt_keys m)"
  by (simp add: bt_ok_def strict_sorted_iff)

lemma bt_ext:
  assumes "bt_ok m" and "bt_ok m'" and "bt_get m = bt_get m'"
  shows "m = m'"
proof -
  have "set m = set m'"
    using assms by (simp add: bt_ok_distinct map_of_inject_set)
  moreover have "inj_on fst (set m)"
    using bt_ok_distinct [OF assms(1)] by (simp add: distinct_map)
  ultimately show ?thesis
    using assms(1,2) by (intro map_sorted_distinct_set_unique [of fst])
      (simp_all add: bt_ok_distinct bt_ok_sorted)
qed

interpretation bt: map_interface "[]" bt_get bt_insert bt_remove length bt_ok
proof unfold_locales
  fix m :: "('a :: linorder \<times> 'b) list"
  assume "bt_ok m"
  then show "length m = card (dom (bt_get m))"
    by (metis bt_ok_distinct dom_map_of_conv_image_fst distinct_card length_map set_map)
qed (auto simp: finite_dom_map_of intro: bt_ext)

text \<open>Collecting an iterator of entries, as \<^verbatim>\<open>BTreeMap::from_iter\<close> does: later entries win.\<close>

abbreviation bt_of :: "('k :: linorder \<times> 'v) list \<Rightarrow> ('k, 'v) btree" where
  "bt_of kvs \<equiv> insert_all bt_insert kvs []"

lemmas bt_of_facts =
  bt.ok_insert_all [OF bt.ok_empty] bt.get_insert_all_distinct [OF bt.ok_empty]
  bt.entries_insert_all bt.insert_all_order

lemma bt_of_id: "bt_ok m \<Longrightarrow> bt_of m = m"
  by (rule bt.ext) (simp_all add: bt_of_facts(1) bt.get_insert_all_distinct [OF bt.ok_empty] bt_ok_distinct)

lemma set_bt_insert: "set (bt_insert k v m) \<subseteq> insert (k, v) (set m)"
  by (induction k v m rule: bt_insert.induct) auto

lemma set_bt_of: "set (bt_of kvs) \<subseteq> set kvs"
proof -
  have "set (insert_all bt_insert kvs m) \<subseteq> set m \<union> set kvs" for m :: "('a, 'b) btree"
  proof (induction kvs arbitrary: m)
    case (Cons kv kvs)
    obtain k v where kv: "kv = (k, v)" by fastforce
    show ?case using Cons.IH [of "bt_insert k v m"] set_bt_insert [of k v m] by (auto simp: kv)
  qed simp
  from this [of "[]"] show ?thesis by simp
qed

end
