(* ===== verification/Credential_Protocol.thy ===== *)
theory Credential_Protocol
  imports Credentials Ordered_Map
begin

text \<open>
  \<^verbatim>\<open>crates/cdenv-core/src/credential_protocol.rs\<close>: the lookup-only Git credential surface. A
  message is lines of \<^verbatim>\<open>key=value\<close>, bounded in size and number, with an optional blank
  terminator; requests and responses accept a fixed set of keys. The field parser is shown
  equivalent to that grammar; writing and reading back requests and responses follow from it.
  Writers are modelled by the bytes they produce; their I/O failures are the caller's.
\<close>

section \<open>Bounds, errors and operations\<close>

definition MAX_CREDENTIAL_BYTES :: nat where "MAX_CREDENTIAL_BYTES = 32 * 1024"
definition MAX_CREDENTIAL_FIELD_BYTES :: nat where "MAX_CREDENTIAL_FIELD_BYTES = 8 * 1024"
definition MAX_CREDENTIAL_FIELDS :: nat where "MAX_CREDENTIAL_FIELDS = 8"

lemmas credential_bounds =
  MAX_CREDENTIAL_BYTES_def MAX_CREDENTIAL_FIELD_BYTES_def MAX_CREDENTIAL_FIELDS_def

datatype credential_protocol_error =
    Operation | Bounds | Framing | UnsupportedField | Context | Expiry | Io

datatype credential_helper_operation = Get | Store | Erase

definition CredentialHelperOperation_from_str ::
    "string \<Rightarrow> (credential_helper_operation, credential_protocol_error) result" where
  "CredentialHelperOperation_from_str s =
     (if s = ''get'' then Ok Get else if s = ''store'' then Ok Store
      else if s = ''erase'' then Ok Erase else Err Operation)"

section \<open>Fields\<close>

abbreviation newline :: char where "newline \<equiv> CHR 0x0A"

type_synonym fields = "(string, string) btree"

fun parse_lines :: "string list \<Rightarrow> bool \<Rightarrow> fields \<Rightarrow> (fields, credential_protocol_error) result" where
  "parse_lines [] terminated fs = Ok fs"
| "parse_lines (line # ls) terminated fs =
     (if terminated then Err Framing
      else if line = [] then parse_lines ls True fs
      else if MAX_CREDENTIAL_FIELD_BYTES < length line \<or> length fs = MAX_CREDENTIAL_FIELDS
      then Err Bounds
      else if list_ex is_control (chars line) then Err Framing
      else (case split_once (CHR ''='') line of
              None \<Rightarrow> Err Framing
            | Some (key, val) \<Rightarrow>
                if key = [] \<or> bt_get fs key \<noteq> None then Err Framing
                else parse_lines ls terminated (bt_insert key val fs)))"

definition parse_fields :: "string \<Rightarrow> (fields, credential_protocol_error) result" where
  "parse_fields bytes =
     (if MAX_CREDENTIAL_BYTES < length bytes then Err Bounds
      else if \<not> valid_utf8 bytes then Err Framing
      else if bytes \<noteq> [] \<and> \<not> suffix [newline] bytes then Err Framing
      else parse_lines (split_terminator newline bytes) False [])"

definition write_field :: "string \<Rightarrow> string \<Rightarrow> string" where
  "write_field name val = name @ ''='' @ val @ [newline]"

text \<open>\<^verbatim>\<open>take(n).read_to_end\<close>: pieces up to the limit, after which the source is not read again.\<close>

fun take_to_end :: "nat \<Rightarrow> char read_event list \<Rightarrow> (string, credential_protocol_error) result" where
  "take_to_end 0 es = Ok []"
| "take_to_end (Suc n) [] = Ok []"
| "take_to_end (Suc n) (Interrupted # es) = take_to_end (Suc n) es"
| "take_to_end (Suc n) (Failed # es) = Err Io"
| "take_to_end (Suc n) (Data bs # es) =
     (if bs = [] then Ok []
      else if Suc n \<le> length bs then Ok (take (Suc n) bs)
      else map_ok (\<lambda>cs. bs @ cs) (take_to_end (Suc n - length bs) es))"

definition read_private_body :: "char read_event list \<Rightarrow> (string, credential_protocol_error) result" where
  "read_private_body es =
     and_then (take_to_end (MAX_CREDENTIAL_BYTES + 1) es) (\<lambda>bytes.
       if MAX_CREDENTIAL_BYTES < length bytes then Err Bounds else Ok bytes)"

section \<open>Requests\<close>

record git_credential_request =
  req_origin :: https_origin
  req_host :: string
  req_path :: "string option"
  req_username :: "string option"

definition GitCredentialRequest_parse ::
    "url_parser \<Rightarrow> string \<Rightarrow> (git_credential_request, credential_protocol_error) result" where
  "GitCredentialRequest_parse url_parse bytes =
     and_then (parse_fields bytes) (\<lambda>fs0.
     and_then (ok_or Context (bt_get fs0 ''protocol'')) (\<lambda>protocol.
     let fs1 = bt_remove ''protocol'' fs0 in
     and_then (ok_or Context (bt_get fs1 ''host'')) (\<lambda>host.
     let fs2 = bt_remove ''host'' fs1 in
     if protocol \<noteq> ''https'' \<or> host = [] \<or> CHR ''/'' \<in> set host then Err Context
     else
       and_then (map_err (\<lambda>_. Context) (HttpsOrigin_parse url_parse (''https://'' @ host))) (\<lambda>origin.
       let path = bt_get fs2 ''path''; fs3 = bt_remove ''path'' fs2;
           username = bt_get fs3 ''username''; fs4 = bt_remove ''username'' fs3
       in if fs4 \<noteq> [] then Err UnsupportedField
          else Ok \<lparr>req_origin = origin, req_host = host, req_path = path,
                    req_username = username\<rparr>))))"

definition GitCredentialRequest_write_private :: "git_credential_request \<Rightarrow> string" where
  "GitCredentialRequest_write_private r =
     ''protocol=https'' @ [newline] @ write_field ''host'' (req_host r) @
     (case req_path r of None \<Rightarrow> [] | Some p \<Rightarrow> write_field ''path'' p) @
     (case req_username r of None \<Rightarrow> [] | Some u \<Rightarrow> write_field ''username'' u) @ [newline]"

section \<open>Responses\<close>

record git_credential_response =
  resp_username :: string
  resp_password :: string
  resp_expires_at :: "64 word option"

definition parse_expiry :: "string \<Rightarrow> (64 word, credential_protocol_error) result" where
  "parse_expiry s =
     (if s = [] \<or> \<not> list_all (\<lambda>c. is_ascii_digit (byte c)) s then Err Expiry
      else ok_or Expiry (map_option of_nat (parse_uint 64 s)))"

definition GitCredentialResponse_parse ::
    "url_parser \<Rightarrow> string \<Rightarrow> git_credential_request \<Rightarrow> 64 word \<Rightarrow>
      (git_credential_response option, credential_protocol_error) result" where
  "GitCredentialResponse_parse url_parse bytes request now =
     and_then (parse_fields bytes) (\<lambda>fs0.
     let fs1 = bt_remove ''protocol'' fs0; fs2 = bt_remove ''host'' fs1;
         fs3 = bt_remove ''path'' fs2
     in if is_some_and (bt_get fs0 ''protocol'') (\<lambda>v. v \<noteq> ''https'') \<or>
           is_some_and (bt_get fs1 ''host'') (\<lambda>host. CHR ''/'' \<in> set host \<or>
             HttpsOrigin_parse url_parse (''https://'' @ host) \<noteq> Ok (req_origin request)) \<or>
           is_some_and (bt_get fs2 ''path'') (\<lambda>path. req_path request \<noteq> Some path)
        then Err Context
        else
          (let username = bt_get fs3 ''username''; fs4 = bt_remove ''username'' fs3;
               password = bt_get fs4 ''password''; fs5 = bt_remove ''password'' fs4;
               expiry = bt_get fs5 ''password_expiry_utc'';
               fs6 = bt_remove ''password_expiry_utc'' fs5
           in and_then (case expiry of None \<Rightarrow> Ok None | Some v \<Rightarrow> map_ok Some (parse_expiry v))
             (\<lambda>expires_at.
               if fs6 \<noteq> [] then Err UnsupportedField
               else if is_some_and expires_at (\<lambda>e. e \<le> now) then Ok None
               else (case (username, password) of
                   (Some u, Some p) \<Rightarrow>
                     if is_some_and (req_username request) (\<lambda>expected. expected \<noteq> u)
                     then Err Context
                     else Ok (Some \<lparr>resp_username = u, resp_password = p,
                                    resp_expires_at = expires_at\<rparr>)
                 | _ \<Rightarrow> Ok None))))"

definition GitCredentialResponse_is_current :: "git_credential_response \<Rightarrow> 64 word \<Rightarrow> bool" where
  "GitCredentialResponse_is_current r now =
     (case resp_expires_at r of None \<Rightarrow> True | Some expiry \<Rightarrow> now < expiry)"

definition GitCredentialResponse_write_private :: "git_credential_response \<Rightarrow> string" where
  "GitCredentialResponse_write_private r =
     write_field ''username'' (resp_username r) @ write_field ''password'' (resp_password r) @
     (case resp_expires_at r of None \<Rightarrow> []
      | Some e \<Rightarrow> ''password_expiry_utc='' @ nat_str (unat e) @ [newline]) @ [newline]"

section \<open>The grammar of a message\<close>

definition field_line :: "string \<times> string \<Rightarrow> string" where
  "field_line kv = fst kv @ CHR ''='' # snd kv"

definition render :: "(string \<times> string) list \<Rightarrow> bool \<Rightarrow> string" where
  "render kvs blank = concat (map (\<lambda>l. l @ [newline]) (map field_line kvs @ (if blank then [[]] else [])))"

definition field_ok :: "string \<times> string \<Rightarrow> bool" where
  "field_ok kv \<longleftrightarrow> fst kv \<noteq> [] \<and> CHR ''='' \<notin> set (fst kv) \<and> length (field_line kv) \<le> 8192 \<and>
     newline \<notin> set (field_line kv) \<and> \<not> list_ex is_control (chars (field_line kv))"

definition message_ok :: "(string \<times> string) list \<Rightarrow> bool" where
  "message_ok kvs \<longleftrightarrow> list_all field_ok kvs \<and> distinct (map fst kvs) \<and> length kvs \<le> 8"

lemma field_line_not_Nil [simp]: "field_line kv \<noteq> []"
  by (simp add: field_line_def)

lemma parse_lines_render:
  "length fs + length kvs \<le> 8 \<Longrightarrow> bt_ok fs \<Longrightarrow> list_all field_ok kvs \<Longrightarrow> distinct (map fst kvs) \<Longrightarrow>
     \<forall>kv \<in> set kvs. bt_get fs (fst kv) = None \<Longrightarrow>
     parse_lines (map field_line kvs @ (if blank then [[]] else [])) False fs =
       Ok (insert_all bt_insert kvs fs)"
proof (induction kvs arbitrary: fs)
  case Nil
  then show ?case by simp
next
  case (Cons kv kvs)
  obtain k v where kv: "kv = (k, v)" by (cases kv)
  with Cons.prems have "split_once (CHR ''='') (field_line kv) = Some (k, v)"
    by (simp add: field_ok_def field_line_def)
  moreover have "parse_lines (map field_line kvs @ (if blank then [[]] else [])) False
      (bt_insert k v fs) = Ok (insert_all bt_insert kvs (bt_insert k v fs))"
    using Cons.prems kv by (intro Cons.IH) (auto simp: bt.entries_insert)
  ultimately show ?case
    using Cons.prems kv by (auto simp: field_ok_def credential_bounds)
qed

lemma parse_lines_True: "parse_lines ls True fs = Ok fs' \<longleftrightarrow> ls = [] \<and> fs' = fs"
  by (cases ls) auto

lemma parse_lines_Ok:
  "parse_lines ls False fs = Ok fs' \<Longrightarrow> \<forall>l \<in> set ls. newline \<notin> set l \<Longrightarrow> bt_ok fs \<Longrightarrow>
     length fs \<le> 8 \<Longrightarrow>
     \<exists>kvs blank. ls = map field_line kvs @ (if blank then [[]] else []) \<and> list_all field_ok kvs \<and>
       distinct (map fst kvs) \<and> (\<forall>kv \<in> set kvs. bt_get fs (fst kv) = None) \<and>
       length fs + length kvs \<le> 8 \<and> fs' = insert_all bt_insert kvs fs"
proof (induction ls arbitrary: fs)
  case Nil
  then show ?case by (intro exI [of _ "[]"] exI [of _ False]) simp
next
  case (Cons l ls)
  show ?case
  proof (cases "l = []")
    case True
    with Cons.prems show ?thesis
      by (intro exI [of _ "[]"] exI [of _ True]) (simp add: parse_lines_True)
  next
    case False
    with Cons.prems obtain k v where kv: "l = field_line (k, v)" "CHR ''='' \<notin> set k" "k \<noteq> []"
      "bt_get fs k = None" "length l \<le> 8192" "length fs < 8" "\<not> list_ex is_control (chars l)"
      and rest: "parse_lines ls False (bt_insert k v fs) = Ok fs'"
      by (auto simp: credential_bounds field_line_def split_once_Some split: if_splits option.splits)
    have n: "length (bt_insert k v fs) = Suc (length fs)"
      using Cons.prems(3) kv(4) by (rule bt.entries_insert)
    from Cons.IH [OF rest] Cons.prems kv n obtain kvs blank where
      "ls = map field_line kvs @ (if blank then [[]] else [])" "list_all field_ok kvs"
      "distinct (map fst kvs)" "\<forall>kv \<in> set kvs. bt_get (bt_insert k v fs) (fst kv) = None"
      "Suc (length fs) + length kvs \<le> 8" "fs' = insert_all bt_insert kvs (bt_insert k v fs)"
      by auto
    moreover have "field_ok (k, v)" using kv Cons.prems(2) by (simp add: field_ok_def)
    ultimately show ?thesis
      using kv(1,4) by (intro exI [of _ "(k, v) # kvs"] exI [of _ blank]) (auto split: if_splits)
  qed
qed

lemma render_newlines:
  "list_all field_ok kvs \<Longrightarrow> \<forall>l \<in> set (map field_line kvs @ (if b then [[]] else [])). newline \<notin> set l"
  by (auto simp: list_all_iff field_ok_def)

lemma render_terminated: "render kvs b = [] \<or> suffix [newline] (render kvs b)"
proof (cases "map field_line kvs @ (if b then [[]] else [])" rule: rev_cases)
  case (snoc ls l)
  then show ?thesis by (simp add: render_def suffix_def)
qed (simp add: render_def)

lemma parse_fields_render:
  assumes "message_ok kvs" and "valid_utf8 (render kvs b)" and "length (render kvs b) \<le> 32768"
  shows "parse_fields (render kvs b) = Ok (bt_of kvs)"
proof -
  have "split_terminator newline (render kvs b) = map field_line kvs @ (if b then [[]] else [])"
    unfolding render_def
    by (rule split_terminator_lines, rule render_newlines)
      (use assms(1) in \<open>simp add: message_ok_def\<close>)
  moreover have "parse_lines (map field_line kvs @ (if b then [[]] else [])) False [] = Ok (bt_of kvs)"
    by (rule parse_lines_render) (use assms(1) in \<open>simp_all add: message_ok_def\<close>)
  ultimately show ?thesis
    using assms(2,3) render_terminated [of kvs b] by (simp add: parse_fields_def credential_bounds)
qed

lemma parse_fields_Ok:
  assumes "parse_fields s = Ok fs"
  shows "valid_utf8 s \<and> length s \<le> 32768 \<and> (\<exists>kvs b. s = render kvs b \<and> message_ok kvs \<and> fs = bt_of kvs)"
proof -
  from assms have s: "valid_utf8 s" "length s \<le> 32768" "s = [] \<or> suffix [newline] s"
    and p: "parse_lines (split_terminator newline s) False [] = Ok fs"
    by (auto simp: parse_fields_def credential_bounds split: if_splits)
  note lines = lines_split_terminator [OF s(3)]
  from parse_lines_Ok [OF p] lines obtain kvs b where
    ls: "split_terminator newline s = map field_line kvs @ (if b then [[]] else [])"
    and "message_ok kvs" "fs = bt_of kvs" by (auto simp: message_ok_def)
  moreover have "s = render kvs b" using lines unfolding render_def ls [symmetric] by simp
  ultimately show ?thesis using s by blast
qed

lemma valid_utf8_lines:
  "valid_utf8 (concat (map (\<lambda>l. l @ [newline]) ls)) \<longleftrightarrow> (\<forall>l \<in> set ls. valid_utf8 l)"
  by (induction ls) (simp_all add: valid_utf8_cut_iff)

lemma valid_utf8_render:
  "valid_utf8 (render kvs b) \<longleftrightarrow> (\<forall>kv \<in> set kvs. valid_utf8 (field_line kv))"
  unfolding render_def valid_utf8_lines by auto

lemma parse_fields_entry:
  assumes "parse_fields s = Ok fs" and "bt_get fs k = Some v"
  shows "field_ok (k, v) \<and> valid_utf8 (field_line (k, v))"
proof -
  from parse_fields_Ok [OF assms(1)] obtain kvs b where
    kvs: "valid_utf8 (render kvs b)" "message_ok kvs" "fs = bt_of kvs" by blast
  then have "bt_get fs = map_of kvs" by (simp add: bt_of_facts message_ok_def)
  with assms(2) have "(k, v) \<in> set kvs" by (simp add: map_of_SomeD)
  with kvs show ?thesis by (auto simp: message_ok_def list_all_iff valid_utf8_render)
qed

lemma parse_fields_ok: "parse_fields s = Ok fs \<Longrightarrow> bt_ok fs"
  by (drule parse_fields_Ok) (auto simp: bt_of_facts)

lemma length_render_le:
  "list_all field_ok kvs \<Longrightarrow> length (render kvs b) \<le> 8193 * length kvs + 1"
  by (induction kvs) (auto simp: render_def field_ok_def)

lemma reparse_fields:
  assumes "list_all field_ok kvs" and "distinct (map fst kvs)" and "length kvs \<le> 3"
    and "\<forall>kv \<in> set kvs. valid_utf8 (field_line kv)"
  shows "parse_fields (render kvs b) = Ok (bt_of kvs)"
  using assms length_render_le [OF assms(1), of b]
  by (intro parse_fields_render) (auto simp: message_ok_def valid_utf8_render)

section \<open>Requests and their fields\<close>

definition optional_field :: "string \<Rightarrow> string option \<Rightarrow> (string \<times> string) list" where
  "optional_field k x = (case x of None \<Rightarrow> [] | Some v \<Rightarrow> [(k, v)])"

lemma optional_field_simps [simp]:
  "optional_field k None = []" "optional_field k (Some v) = [(k, v)]"
  "map_of (optional_field k x) k' = (if k = k' then x else None)"
  by (cases x; auto simp: optional_field_def)+

definition request_fields :: "git_credential_request \<Rightarrow> (string \<times> string) list" where
  "request_fields r = [(''protocol'', ''https''), (''host'', req_host r)] @
     optional_field ''path'' (req_path r) @ optional_field ''username'' (req_username r)"

lemma request_written: "GitCredentialRequest_write_private r = render (request_fields r) True"
  by (cases "req_path r"; cases "req_username r")
    (simp_all add: GitCredentialRequest_write_private_def request_fields_def render_def
      write_field_def field_line_def)

lemma distinct_request_fields: "distinct (map fst (request_fields r))"
  by (cases "req_path r"; cases "req_username r") (simp_all add: request_fields_def)

lemma remove_all_Nil:
  "foldl (\<lambda>m k. bt_remove k m) fs ks = [] \<longleftrightarrow> (\<forall>k. k \<notin> set ks \<longrightarrow> bt_get fs k = None)"
proof -
  have "bt_get (foldl (\<lambda>m k. bt_remove k m) fs ks) = (\<lambda>k. if k \<in> set ks then None else bt_get fs k)"
    by (induction ks arbitrary: fs) (auto simp: fun_eq_iff)
  then show ?thesis by (simp add: map_of_eq_empty_iff [symmetric] fun_eq_iff del: map_of_eq_empty_iff)
qed

lemma map_of_fields:
  assumes "distinct [a, b, c, d]"
  shows "m = map_of ((a, va) # (b, vb) # optional_field c vc @ optional_field d vd) \<longleftrightarrow>
    m a = Some va \<and> m b = Some vb \<and> m c = vc \<and> m d = vd \<and> (\<forall>k. k \<notin> set [a, b, c, d] \<longrightarrow> m k = None)"
proof -
  have of: "map_of ((a, va) # (b, vb) # optional_field c vc @ optional_field d vd) =
      (\<lambda>k. if k = a then Some va else if k = b then Some vb else if k = c then vc
        else if k = d then vd else None)" (is "_ = ?f")
    using assms by (cases vc; cases vd) (simp_all add: fun_eq_iff)
  show ?thesis
    unfolding of
  proof (intro iffI)
    assume "m = ?f"
    then show "m a = Some va \<and> m b = Some vb \<and> m c = vc \<and> m d = vd \<and>
        (\<forall>k. k \<notin> set [a, b, c, d] \<longrightarrow> m k = None)"
      using assms by (simp add: eq_commute [of b a] eq_commute [of c a] eq_commute [of c b]
          eq_commute [of d a] eq_commute [of d b] eq_commute [of d c])
  next
    assume "m a = Some va \<and> m b = Some vb \<and> m c = vc \<and> m d = vd \<and>
        (\<forall>k. k \<notin> set [a, b, c, d] \<longrightarrow> m k = None)"
    then show "m = ?f" by (intro ext) simp
  qed
qed

lemma request_parse_iff:
  "GitCredentialRequest_parse url_parse s = Ok r \<longleftrightarrow>
     (\<exists>fs. parse_fields s = Ok fs \<and> bt_get fs = map_of (request_fields r)) \<and>
     req_host r \<noteq> [] \<and> CHR ''/'' \<notin> set (req_host r) \<and>
     HttpsOrigin_parse url_parse (''https://'' @ req_host r) = Ok (req_origin r)"
proof -
  have get: "bt_get fs = map_of (request_fields r) \<longleftrightarrow>
    bt_get fs ''protocol'' = Some ''https'' \<and> bt_get fs ''host'' = Some (req_host r) \<and>
    bt_get fs ''path'' = req_path r \<and> bt_get fs ''username'' = req_username r \<and>
    foldl (\<lambda>m k. bt_remove k m) fs [''protocol'', ''host'', ''path'', ''username''] = []" for fs
    unfolding remove_all_Nil request_fields_def append.simps by (rule map_of_fields) simp
  show ?thesis
    unfolding get
  proof (intro iffI; (elim conjE exE)?)
    fix fs
    assume "parse_fields s = Ok fs" "req_host r \<noteq> []" "CHR ''/'' \<notin> set (req_host r)"
      "HttpsOrigin_parse url_parse (''https://'' @ req_host r) = Ok (req_origin r)"
      "bt_get fs ''protocol'' = Some ''https''" "bt_get fs ''host'' = Some (req_host r)"
      "bt_get fs ''path'' = req_path r" "bt_get fs ''username'' = req_username r"
      "foldl (\<lambda>m k. bt_remove k m) fs [''protocol'', ''host'', ''path'', ''username''] = []"
    then show "GitCredentialRequest_parse url_parse s = Ok r"
      by (simp add: GitCredentialRequest_parse_def Let_def del: and_then_eq_Ok)
  qed (auto simp: GitCredentialRequest_parse_def Let_def split: if_splits)
qed

lemma request_fields_ok:
  assumes "parse_fields s = Ok fs" and "bt_get fs = map_of kvs" and "distinct (map fst kvs)"
  shows "list_all field_ok kvs \<and> (\<forall>kv \<in> set kvs. valid_utf8 (field_line kv))"
  using assms(2,3) parse_fields_entry [OF assms(1)]
  by (fastforce simp: list_all_iff intro: map_of_is_SomeI)

lemma request_reparse:
  assumes "GitCredentialRequest_parse url_parse s = Ok r"
  shows "parse_fields (GitCredentialRequest_write_private r) = Ok (bt_of (request_fields r))"
proof -
  from assms obtain fs where fs: "parse_fields s = Ok fs" "bt_get fs = map_of (request_fields r)"
    unfolding request_parse_iff by blast
  note ok = request_fields_ok [OF fs distinct_request_fields]
  let ?rest = "tl (request_fields r)"
  have split: "request_fields r = (''protocol'', ''https'') # ?rest" and n: "length ?rest \<le> 3"
    by (cases "req_path r"; cases "req_username r"; simp add: request_fields_def)+
  have "length (render (request_fields r) True) = 15 + length (render ?rest True)"
    by (subst split) (simp add: render_def field_line_def)
  moreover have "list_all field_ok ?rest" using ok by (subst (asm) split) simp
  ultimately have "length (render (request_fields r) True) \<le> 32768"
    using length_render_le [of ?rest True] n by linarith
  moreover have "message_ok (request_fields r)"
    using ok distinct_request_fields [of r] n by (subst (asm) split, subst split)
      (simp add: message_ok_def split [symmetric])
  ultimately show ?thesis
    using ok unfolding request_written by (intro parse_fields_render) (auto simp: valid_utf8_render)
qed

section \<open>Responses and their fields\<close>

definition response_fields :: "git_credential_response \<Rightarrow> (string \<times> string) list" where
  "response_fields r = [(''username'', resp_username r), (''password'', resp_password r)] @
     optional_field ''password_expiry_utc'' (map_option (\<lambda>e. nat_str (unat e)) (resp_expires_at r))"

lemma response_written: "GitCredentialResponse_write_private r = render (response_fields r) True"
  by (cases "resp_expires_at r")
    (simp_all add: GitCredentialResponse_write_private_def response_fields_def render_def
      write_field_def field_line_def)

lemma distinct_response_fields: "distinct (map fst (response_fields r))"
  by (cases "resp_expires_at r") (simp_all add: response_fields_def)

lemma response_parse_Some:
  assumes "GitCredentialResponse_parse url_parse s request now = Ok (Some r)"
  shows "\<exists>fs. parse_fields s = Ok fs \<and> bt_get fs ''username'' = Some (resp_username r) \<and>
    bt_get fs ''password'' = Some (resp_password r) \<and>
    \<not> is_some_and (resp_expires_at r) (\<lambda>e. e \<le> now) \<and>
    \<not> is_some_and (req_username request) (\<lambda>u. u \<noteq> resp_username r)"
  using assms
  by (auto simp: GitCredentialResponse_parse_def Let_def split: if_splits option.splits)

lemma parse_expiry_nat_str: "parse_expiry (nat_str (unat e)) = Ok e"
proof -
  have "unat e < 2 ^ 64" using unsigned_less [of e, where ?'a = nat] by simp
  then show ?thesis
    using nat_str_digits [of "unat e"]
    by (auto simp: parse_expiry_def parse_uint_nat_str ok_or_def list_all_iff)
qed

lemma expiry_field_ok:
  "field_ok (''password_expiry_utc'', nat_str (unat (e :: 64 word))) \<and>
   valid_utf8 (field_line (''password_expiry_utc'', nat_str (unat e)))"
proof -
  let ?l = "field_line (''password_expiry_utc'', nat_str (unat e))"
  have "unat e < 10 ^ 20" using unsigned_less [of e, where ?'a = nat] by simp
  then have "length (nat_str (unat e)) \<le> 20" by (rule length_nat_str) simp
  then have "length ?l \<le> 8192" by (simp add: field_line_def)
  moreover have a: "ascii ?l" using nat_str_ascii [of "unat e"] by (simp add: field_line_def)
  moreover have "\<forall>c \<in> set ?l. \<not> is_control (byte c)"
    using nat_str_digits [of "unat e"]
    by (auto simp: field_line_def is_control_def is_ascii_digit_def)
  moreover have "newline \<notin> set ?l"
    using nat_str_digits [of "unat e"] by (auto simp: field_line_def is_ascii_digit_def)
  ultimately show ?thesis
    by (auto simp: field_ok_def ascii_valid_utf8 chars_ascii list_ex_iff)
qed

lemma response_reparse:
  assumes "GitCredentialResponse_parse url_parse s request now = Ok (Some r)"
  shows "parse_fields (GitCredentialResponse_write_private r) = Ok (bt_of (response_fields r))"
proof -
  from response_parse_Some [OF assms] obtain fs where fs: "parse_fields s = Ok fs"
    "bt_get fs ''username'' = Some (resp_username r)" "bt_get fs ''password'' = Some (resp_password r)"
    by blast
  note ok = parse_fields_entry [OF fs(1) fs(2)] parse_fields_entry [OF fs(1) fs(3)]
  show ?thesis
    unfolding response_written using ok distinct_response_fields [of r] expiry_field_ok
    by (intro reparse_fields; cases "resp_expires_at r") (simp_all add: response_fields_def)
qed

lemma response_parse_clean:
  assumes "parse_fields t = Ok (bt_of (response_fields r))"
    and "\<not> is_some_and (resp_expires_at r) (\<lambda>e. e \<le> now)"
    and "\<not> is_some_and (req_username request) (\<lambda>u. u \<noteq> resp_username r)"
  shows "GitCredentialResponse_parse url_parse t request now = Ok (Some r)"
proof -
  let ?fs = "bt_of (response_fields r)"
  have get: "bt_get ?fs = map_of (response_fields r)"
    by (simp add: bt_of_facts distinct_response_fields)
  have "foldl (\<lambda>m k. bt_remove k m) ?fs [''protocol'', ''host'', ''path'', ''username'', ''password'',
      ''password_expiry_utc''] = []"
    unfolding remove_all_Nil get by (cases "resp_expires_at r") (simp_all add: response_fields_def)
  with assms get show ?thesis
    by (cases "resp_expires_at r")
      (simp_all add: GitCredentialResponse_parse_def Let_def response_fields_def parse_expiry_nat_str
        del: and_then_eq_Ok)
qed

section \<open>Bounded reading\<close>

text \<open>Whether a reader fails before it comes to its end.\<close>

fun reader_fails :: "'b read_event list \<Rightarrow> bool" where
  "reader_fails [] = False"
| "reader_fails (Interrupted # es) = reader_fails es"
| "reader_fails (Failed # es) = True"
| "reader_fails (Data bs # es) = (bs \<noteq> [] \<and> reader_fails es)"

lemma take_to_end_eq:
  "take_to_end n es =
     (if n \<le> length (delivered es) then Ok (take n (delivered es))
      else if reader_fails es then Err Io else Ok (delivered es))"
  by (induction n es rule: take_to_end.induct) auto

section \<open>Properties\<close>

text \<open>The field parser accepts exactly the messages of the grammar (at most 32 KiB of UTF-8, at
  most eight lines \<^verbatim>\<open>key=value\<close> of at most 8 KiB without control characters, distinct non-empty
  keys, an optional blank line at the end and nothing after it) and returns their fields.\<close>

theorem credential_fields_grammar:
  "parse_fields s = Ok fs \<longleftrightarrow>
     valid_utf8 s \<and> length s \<le> 32768 \<and>
     (\<exists>kvs blank. s = render kvs blank \<and> message_ok kvs \<and> fs = bt_of kvs)"
proof
  assume "parse_fields s = Ok fs"
  then show "valid_utf8 s \<and> length s \<le> 32768 \<and>
    (\<exists>kvs blank. s = render kvs blank \<and> message_ok kvs \<and> fs = bt_of kvs)" by (rule parse_fields_Ok)
qed (auto simp: parse_fields_render)

text \<open>C16: whatever the URL library answers, a request that was accepted is written to the host's Git
  in a form that reads back as the same request, and that form carries no key but
  \<^verbatim>\<open>protocol\<close>, \<^verbatim>\<open>host\<close>, \<^verbatim>\<open>path\<close> and \<^verbatim>\<open>username\<close>, whatever the input had.\<close>

theorem request_round_trip:
  assumes "GitCredentialRequest_parse url_parse s = Ok r"
  shows "GitCredentialRequest_parse url_parse (GitCredentialRequest_write_private r) = Ok r \<and>
    (\<exists>fs. parse_fields (GitCredentialRequest_write_private r) = Ok fs \<and>
       set (bt_keys fs) \<subseteq> {''protocol'', ''host'', ''path'', ''username''})"
proof -
  note p = request_reparse [OF assms]
  have get: "bt_get (bt_of (request_fields r)) = map_of (request_fields r)"
    by (simp add: bt_of_facts distinct_request_fields)
  have "GitCredentialRequest_parse url_parse (GitCredentialRequest_write_private r) = Ok r"
    using assms unfolding request_parse_iff p by (auto simp: get)
  moreover have "fst ` set (bt_of (request_fields r)) = fst ` set (request_fields r)"
    using arg_cong [OF get, of dom] by (simp add: dom_map_of_conv_image_fst)
  moreover have "fst ` set (request_fields r) \<subseteq> {''protocol'', ''host'', ''path'', ''username''}"
    by (cases "req_path r"; cases "req_username r") (simp_all add: request_fields_def)
  ultimately show ?thesis using p by simp
qed

definition sample_request :: git_credential_request where
  "sample_request = \<lparr>req_origin = HttpsOrigin ''https://git.example:443'', req_host = ''git.example'',
     req_path = None, req_username = Some ''u''\<rparr>"

lemma sample_request_parsed:
  "GitCredentialRequest_parse (\<lambda>_. Some sample_url)
     (''host=git.example'' @ [newline] @ ''username=u'' @ [newline] @ ''protocol=https'' @ [newline]) =
   Ok sample_request"
proof -
  let ?kvs = "[(''host'', ''git.example''), (''username'', ''u''), (''protocol'', ''https'')]"
  have "message_ok ?kvs"
    by (simp add: message_ok_def field_ok_def field_line_def chars_ascii is_control_def)
  moreover have "valid_utf8 (render ?kvs False)" "length (render ?kvs False) \<le> 32768"
    by (simp_all add: render_def field_line_def)
  ultimately have "parse_fields (render ?kvs False) = Ok (bt_of ?kvs)"
    by (rule parse_fields_render)
  moreover have "bt_get (bt_of ?kvs) = map_of (request_fields sample_request)"
    by (simp add: request_fields_def sample_request_def fun_upd_twist)
  ultimately have "GitCredentialRequest_parse (\<lambda>_. Some sample_url) (render ?kvs False) = Ok sample_request"
    unfolding request_parse_iff using sample_origin by (simp add: sample_request_def)
  then show ?thesis by (simp add: render_def field_line_def)
qed

theorem request_round_trip_witness:
  "GitCredentialRequest_parse (\<lambda>_. Some sample_url) (GitCredentialRequest_write_private sample_request) =
     Ok sample_request"
  using request_round_trip [OF sample_request_parsed] by blast

text \<open>C17: a credential that is released is current at the time it was checked and belongs to the
  account that was asked for; what is written for the container has the keys \<^verbatim>\<open>username\<close>,
  \<^verbatim>\<open>password\<close> and \<^verbatim>\<open>password_expiry_utc\<close> only, and reads back as the same credential.\<close>

theorem response_release:
  assumes "GitCredentialResponse_parse url_parse s request now = Ok (Some r)"
  shows "GitCredentialResponse_is_current r now \<and>
    (req_username request = None \<or> req_username request = Some (resp_username r)) \<and>
    GitCredentialResponse_parse url_parse (GitCredentialResponse_write_private r) request now = Ok (Some r) \<and>
    (\<exists>fs. parse_fields (GitCredentialResponse_write_private r) = Ok fs \<and>
       set (bt_keys fs) \<subseteq> {''username'', ''password'', ''password_expiry_utc''})"
proof -
  from response_parse_Some [OF assms] have
    current: "\<not> is_some_and (resp_expires_at r) (\<lambda>e. e \<le> now)" and
    account: "\<not> is_some_and (req_username request) (\<lambda>u. u \<noteq> resp_username r)" by blast+
  note p = response_reparse [OF assms]
  have "bt_get (bt_of (response_fields r)) = map_of (response_fields r)"
    by (simp add: bt_of_facts distinct_response_fields)
  from arg_cong [OF this, of dom]
  have "fst ` set (bt_of (response_fields r)) = fst ` set (response_fields r)"
    by (simp add: dom_map_of_conv_image_fst)
  moreover have "fst ` set (response_fields r) \<subseteq> {''username'', ''password'', ''password_expiry_utc''}"
    by (cases "resp_expires_at r") (simp_all add: response_fields_def)
  moreover have "GitCredentialResponse_is_current r now"
    using current by (auto simp: GitCredentialResponse_is_current_def is_some_and_iff split: option.splits)
  moreover have "req_username request = None \<or> req_username request = Some (resp_username r)"
    using account by (cases "req_username request") auto
  ultimately show ?thesis
    using p response_parse_clean [OF p current account] by simp
qed

theorem response_release_witness:
  "GitCredentialResponse_is_current
     \<lparr>resp_username = ''u'', resp_password = ''p'', resp_expires_at = Some 10\<rparr> 9 \<and>
   GitCredentialResponse_parse (\<lambda>_. Some sample_url)
     (GitCredentialResponse_write_private
       \<lparr>resp_username = ''u'', resp_password = ''p'', resp_expires_at = Some 10\<rparr>) sample_request 9 =
   Ok (Some \<lparr>resp_username = ''u'', resp_password = ''p'', resp_expires_at = Some 10\<rparr>)"
proof -
  let ?r = "\<lparr>resp_username = ''u'', resp_password = ''p'', resp_expires_at = Some 10\<rparr>"
  have ok: "field_ok (''username'', ''u'') \<and> field_ok (''password'', ''p'')"
    by (simp add: field_ok_def field_line_def chars_ascii is_control_def)
  have v: "valid_utf8 (field_line (''username'', ''u'')) \<and> valid_utf8 (field_line (''password'', ''p''))"
    by (simp add: field_line_def)
  have "parse_fields (render (response_fields ?r) True) = Ok (bt_of (response_fields ?r))"
    by (rule reparse_fields)
      (use ok v expiry_field_ok [of 10] in \<open>simp_all add: response_fields_def\<close>)
  then have "GitCredentialResponse_parse (\<lambda>_. Some sample_url) (render (response_fields ?r) True)
      sample_request 9 = Ok (Some ?r)"
    by (rule response_parse_clean) (simp_all add: sample_request_def)
  from response_release [OF this] show ?thesis by blast
qed

text \<open>Reading a private body allocates at most 32 KiB and a byte: a source that holds more is
  refused, one that fails first is an I/O error, and any other yields exactly what it holds.\<close>

theorem read_private_body_bounded:
  "read_private_body es =
     (if 32768 < length (delivered es) then Err Bounds
      else if reader_fails es then Err Io else Ok (delivered es))"
  by (auto simp: read_private_body_def take_to_end_eq credential_bounds)

end
