(* ===== verification/Executable.thy ===== *)
theory Executable
  imports Prelude "HOL-Library.Monad_Syntax"
begin

text \<open>
  \<^verbatim>\<open>crates/cdenv-core/src/executable.rs\<close>: the structural check of an agent executable before it is
  uploaded. Slicing and indexing outside a slice panic in Rust; they are the value \<open>None\<close> here,
  so that the absence of panics on arbitrary bytes is a theorem. Arithmetic on \<^verbatim>\<open>usize\<close> and
  \<^verbatim>\<open>u64\<close> (both of 64 bits on the supported hosts) is checked, as in the code.
\<close>

section \<open>Slices and little-endian fields\<close>

definition slice :: "'a list \<Rightarrow> nat \<Rightarrow> nat \<Rightarrow> 'a list option" where
  "slice xs lo hi = (if lo \<le> hi \<and> hi \<le> length xs then Some (take (hi - lo) (drop lo xs)) else None)"

definition index_at :: "'a list \<Rightarrow> nat \<Rightarrow> 'a option" where
  "index_at xs i = (if i < length xs then Some (xs ! i) else None)"

primrec le_value :: "8 word list \<Rightarrow> nat" where
  "le_value [] = 0"
| "le_value (b # bs) = unat b + 256 * le_value bs"

definition le_field :: "8 word list \<Rightarrow> nat \<Rightarrow> nat \<Rightarrow> nat option" where
  "le_field xs lo n = map_option le_value (slice xs lo (lo + n))"

definition checked_add64 :: "nat \<Rightarrow> nat \<Rightarrow> nat option" where
  "checked_add64 a b = (if a + b < 2 ^ 64 then Some (a + b) else None)"

definition checked_mul64 :: "nat \<Rightarrow> nat \<Rightarrow> nat option" where
  "checked_mul64 a b = (if a * b < 2 ^ 64 then Some (a * b) else None)"

function chunks_exact :: "nat \<Rightarrow> 'a list \<Rightarrow> 'a list list" where
  "chunks_exact n xs =
     (if n = 0 \<or> length xs < n then [] else take n xs # chunks_exact n (drop n xs))"
  by pat_completeness auto
termination
  by (relation "measure (\<lambda>(n, xs). length xs)") auto

declare chunks_exact.simps [simp del]

section \<open>The check\<close>

datatype static_elf_error = Malformed | WrongMachine | Dynamic

type_synonym elf_check = "(unit, static_elf_error) result option"

definition ELF_IDENT :: "8 word list" where
  "ELF_IDENT = [0x7F, 0x45, 0x4C, 0x46, 2, 1, 1]"

fun scan_headers :: "nat \<Rightarrow> nat \<Rightarrow> 8 word list list \<Rightarrow> bool \<Rightarrow> elf_check" where
  "scan_headers file_len entry [] executable = Some (if executable then Ok () else Err Malformed)"
| "scan_headers file_len entry (header # hs) executable = do {
     kind \<leftarrow> le_field header 0 4;
     if kind = 2 \<or> kind = 3 then Some (Err Dynamic)
     else if kind = 1 then do {
       start \<leftarrow> le_field header 8 8;
       len \<leftarrow> le_field header 32 8;
       memory \<leftarrow> le_field header 40 8;
       if memory < len \<or> (case checked_add64 start len of None \<Rightarrow> True | Some e \<Rightarrow> file_len < e)
       then Some (Err Malformed)
       else do {
         address \<leftarrow> le_field header 16 8;
         (case checked_add64 address len of
            None \<Rightarrow> Some (Err Malformed)
          | Some end_address \<Rightarrow> do {
              flags \<leftarrow> index_at header 4;
              scan_headers file_len entry hs
                (executable \<or> odd (unat flags) \<and> address \<le> entry \<and> entry < end_address)
            })
       }
     }
     else scan_headers file_len entry hs executable
   }"

definition validate_static_elf :: "8 word list \<Rightarrow> 16 word \<Rightarrow> elf_check" where
  "validate_static_elf bytes machine =
     (if length bytes < 64 then Some (Err Malformed)
      else do {
        ident \<leftarrow> slice bytes 0 7;
        elf_type \<leftarrow> le_field bytes 16 2;
        version \<leftarrow> le_field bytes 20 4;
        entry_bytes \<leftarrow> slice bytes 24 32;
        header_size \<leftarrow> le_field bytes 52 2;
        if ident \<noteq> ELF_IDENT \<or> \<not> (elf_type = 2 \<or> elf_type = 3) \<or> version \<noteq> 1 \<or>
           entry_bytes = replicate 8 0 \<or> header_size \<noteq> 64
        then Some (Err Malformed)
        else do {
          elf_machine \<leftarrow> le_field bytes 18 2;
          if elf_machine \<noteq> unat machine then Some (Err WrongMachine)
          else do {
            offset \<leftarrow> le_field bytes 32 8;
            size \<leftarrow> le_field bytes 54 2;
            count \<leftarrow> le_field bytes 56 2;
            (case Option.bind (checked_mul64 size count) (checked_add64 offset) of
               None \<Rightarrow> Some (Err Malformed)
             | Some stop \<Rightarrow>
                 if size \<noteq> 56 \<or> count = 0 \<or> offset < 64 \<or> length bytes < stop
                 then Some (Err Malformed)
                 else do {
                   entry \<leftarrow> le_field bytes 24 8;
                   table \<leftarrow> slice bytes offset stop;
                   scan_headers (length bytes) entry (chunks_exact size table) False
                 })
          }
        }
      })"

section \<open>Fields in range\<close>

lemma slice_Some [simp]: "lo \<le> hi \<Longrightarrow> hi \<le> length xs \<Longrightarrow> slice xs lo hi = Some (take (hi - lo) (drop lo xs))"
  by (simp add: slice_def)

abbreviation le_at :: "8 word list \<Rightarrow> nat \<Rightarrow> nat \<Rightarrow> nat" where
  "le_at xs lo n \<equiv> le_value (take n (drop lo xs))"

lemma le_field_Some [simp]: "lo + n \<le> length xs \<Longrightarrow> le_field xs lo n = Some (le_at xs lo n)"
  by (simp add: le_field_def)

lemma index_at_Some [simp]: "i < length xs \<Longrightarrow> index_at xs i = Some (xs ! i)"
  by (simp add: index_at_def)

lemma chunks_exact_nth:
  assumes "0 < n" and "length xs = n * k"
  shows "chunks_exact n xs = map (\<lambda>i. take n (drop (n * i) xs)) [0..<k]"
  using assms(2)
proof (induction k arbitrary: xs)
  case 0
  then show ?case using assms(1) by (simp add: chunks_exact.simps)
next
  case (Suc k)
  then have "chunks_exact n (drop n xs) = map (\<lambda>i. take n (drop (n * i) (drop n xs))) [0..<k]"
    by (intro Suc.IH) simp
  moreover have "[0..<Suc k] = 0 # map Suc [0..<k]" by (simp add: upt_conv_Cons map_Suc_upt)
  ultimately show ?case
    using Suc.prems assms(1) by (subst chunks_exact.simps) (simp add: algebra_simps)
qed

section \<open>What an accepted executable is\<close>

text \<open>The fields of a program header, by their offsets: type 0, flags 4, file offset 8, address 16,
  size in the file 32, size in memory 40. The last two conditions on a loadable segment say that
  the ends of its file range and of its address range are representable.\<close>

definition segment_ok :: "nat \<Rightarrow> 8 word list \<Rightarrow> bool" where
  "segment_ok file_len h \<longleftrightarrow>
     le_at h 32 8 \<le> le_at h 40 8 \<and> le_at h 8 8 + le_at h 32 8 \<le> file_len \<and>
     le_at h 8 8 + le_at h 32 8 < 2 ^ 64 \<and> le_at h 16 8 + le_at h 32 8 < 2 ^ 64"

definition runs_entry :: "nat \<Rightarrow> 8 word list \<Rightarrow> bool" where
  "runs_entry entry h \<longleftrightarrow> le_at h 0 4 = 1 \<and> odd (unat (h ! 4)) \<and> le_at h 16 8 \<le> entry \<and>
     entry < le_at h 16 8 + le_at h 32 8"

definition header_ok :: "nat \<Rightarrow> 8 word list \<Rightarrow> bool" where
  "header_ok file_len h \<longleftrightarrow> le_at h 0 4 \<noteq> 2 \<and> le_at h 0 4 \<noteq> 3 \<and>
     (le_at h 0 4 = 1 \<longrightarrow> segment_ok file_len h)"

definition program_header :: "8 word list \<Rightarrow> nat \<Rightarrow> 8 word list" where
  "program_header bytes i = take 56 (drop (le_at bytes 32 8 + 56 * i) bytes)"

definition static_elf :: "8 word list \<Rightarrow> nat \<Rightarrow> bool" where
  "static_elf bytes machine \<longleftrightarrow>
     64 \<le> length bytes \<and> take 7 bytes = ELF_IDENT \<and> le_at bytes 16 2 \<in> {2, 3} \<and>
     le_at bytes 20 4 = 1 \<and> take 8 (drop 24 bytes) \<noteq> replicate 8 0 \<and> le_at bytes 52 2 = 64 \<and>
     le_at bytes 18 2 = machine \<and>
     (let offset = le_at bytes 32 8; count = le_at bytes 56 2; entry = le_at bytes 24 8
      in le_at bytes 54 2 = 56 \<and> 0 < count \<and> 64 \<le> offset \<and> offset + 56 * count \<le> length bytes \<and>
         offset + 56 * count < 2 ^ 64 \<and>
         (\<forall>i < count. header_ok (length bytes) (program_header bytes i)) \<and>
         (\<exists>i < count. runs_entry entry (program_header bytes i)))"

lemma scan_headers_defined:
  "list_all (\<lambda>h. length h = 56) hs \<Longrightarrow> \<exists>r. scan_headers file_len entry hs ex = Some r"
  by (induction file_len entry hs ex rule: scan_headers.induct) (auto split: option.splits)

lemma scan_headers_Ok:
  "list_all (\<lambda>h. length h = 56) hs \<Longrightarrow>
     scan_headers file_len entry hs ex = Some (Ok ()) \<longleftrightarrow>
       list_all (header_ok file_len) hs \<and> (ex \<or> list_ex (runs_entry entry) hs)"
proof (induction hs arbitrary: ex)
  case Nil
  then show ?case by simp
next
  case (Cons h hs)
  then show ?case
    by (auto simp: header_ok_def segment_ok_def runs_entry_def checked_add64_def
        split: if_splits option.splits)
qed

lemma header_table:
  assumes "offset + 56 * n \<le> length bytes"
  shows "chunks_exact 56 (take (56 * n) (drop offset bytes)) =
    map (\<lambda>i. take 56 (drop (offset + 56 * i) bytes)) [0..<n]"
proof -
  have "take 56 (drop (56 * i) (take (56 * n) (drop offset bytes))) =
      take 56 (drop (offset + 56 * i) bytes)" if "i < n" for i
  proof -
    have "56 \<le> 56 * n - 56 * i" using that by simp
    then show ?thesis by (simp add: drop_take add.commute min_def)
  qed
  with assms show ?thesis by (subst chunks_exact_nth [of _ _ n]) auto
qed

lemma validate_scan:
  assumes "le_at bytes 54 2 = 56" and "le_at bytes 32 8 + 56 * le_at bytes 56 2 \<le> length bytes"
  shows "list_all (\<lambda>h. length h = 56)
      (chunks_exact 56 (take (56 * le_at bytes 56 2) (drop (le_at bytes 32 8) bytes)))"
  using assms by (auto simp: header_table list_all_iff)

section \<open>Properties\<close>

text \<open>The check returns a verdict on every byte sequence: no index or slice it takes is ever
  out of range.\<close>

theorem elf_check_never_panics: "\<exists>r. validate_static_elf bytes machine = Some r"
proof (cases "length bytes < 64")
  case False
  let ?off = "le_at bytes 32 8" and ?n = "le_at bytes 56 2"
  have "\<exists>r. scan_headers (length bytes) entry (chunks_exact 56 (take (56 * ?n) (drop ?off bytes))) False =
      Some r" if "le_at bytes 54 2 = 56" "?off + 56 * ?n \<le> length bytes" for entry
    by (rule scan_headers_defined, rule validate_scan) (use that in auto)
  with False show ?thesis
    by (auto simp: validate_static_elf_def checked_add64_def checked_mul64_def)
qed (simp add: validate_static_elf_def)

text \<open>C18: an executable is accepted exactly when it is a little-endian 64-bit ELF file for the
  machine whose program header table lies in the file, none of whose segments asks for an
  interpreter or dynamic linking, whose loadable segments lie in the file, and whose entry point
  lies in the file contents of an executable segment.\<close>

theorem elf_accepted_iff:
  "validate_static_elf bytes machine = Some (Ok ()) \<longleftrightarrow> static_elf bytes (unat machine)"
proof (cases "length bytes < 64")
  case False
  let ?off = "le_at bytes 32 8" and ?n = "le_at bytes 56 2"
  have scan: "scan_headers (length bytes) entry
      (chunks_exact 56 (take (56 * ?n) (drop ?off bytes))) False = Some (Ok ()) \<longleftrightarrow>
      (\<forall>i < ?n. header_ok (length bytes) (program_header bytes i)) \<and>
      (\<exists>i < ?n. runs_entry entry (program_header bytes i))"
    if "le_at bytes 54 2 = 56" "?off + 56 * ?n \<le> length bytes" for entry
    unfolding scan_headers_Ok [OF validate_scan [OF that]]
    using that by (auto simp: header_table list_all_iff list_ex_iff program_header_def)
  show ?thesis
    using False scan
    by (auto simp: validate_static_elf_def static_elf_def checked_add64_def checked_mul64_def Let_def)
qed (simp add: validate_static_elf_def static_elf_def)

end
