(* ===== verification/Git_Identity.thy ===== *)
theory Git_Identity
  imports Prelude
begin

text \<open>
  \<^verbatim>\<open>crates/cdenv-core/src/git_identity.rs\<close>: the author name and email the broker carries. The JSON
  codec is \<^verbatim>\<open>serde_json\<close> and is a parameter.
\<close>

definition MAX_GIT_IDENTITY_BYTES :: nat where "MAX_GIT_IDENTITY_BYTES = 16 * 1024"
definition MAX_GIT_IDENTITY_FIELD_BYTES :: nat where "MAX_GIT_IDENTITY_FIELD_BYTES = 8 * 1024"

datatype git_identity_error = IdentityBounds | InvalidField | Encoding

record git_identity_metadata =
  identity_name :: "string option"
  identity_email :: "string option"

definition validate_field :: "string option \<Rightarrow> (unit, git_identity_error) result" where
  "validate_field x =
     (if is_some_and x (\<lambda>s. MAX_GIT_IDENTITY_FIELD_BYTES < length s \<or> list_ex is_control (chars s))
      then Err InvalidField else Ok ())"

definition GitIdentityMetadata_new ::
    "string option \<Rightarrow> string option \<Rightarrow> (git_identity_metadata, git_identity_error) result" where
  "GitIdentityMetadata_new name email =
     and_then (validate_field name) (\<lambda>_. and_then (validate_field email) (\<lambda>_.
       Ok \<lparr>identity_name = name, identity_email = email\<rparr>))"

definition GitIdentityMetadata_encode ::
    "(git_identity_metadata \<Rightarrow> 'b list option) \<Rightarrow> git_identity_metadata \<Rightarrow>
      ('b list, git_identity_error) result" where
  "GitIdentityMetadata_encode to_vec m =
     and_then (validate_field (identity_name m)) (\<lambda>_.
     and_then (validate_field (identity_email m)) (\<lambda>_.
     and_then (ok_or Encoding (to_vec m)) (\<lambda>bytes.
       if MAX_GIT_IDENTITY_BYTES < length bytes then Err IdentityBounds else Ok bytes)))"

definition GitIdentityMetadata_decode ::
    "('b list \<Rightarrow> git_identity_metadata option) \<Rightarrow> 'b list \<Rightarrow>
      (git_identity_metadata, git_identity_error) result" where
  "GitIdentityMetadata_decode from_slice bytes =
     (if MAX_GIT_IDENTITY_BYTES < length bytes then Err IdentityBounds
      else and_then (ok_or Encoding (from_slice bytes)) (\<lambda>m.
        and_then (validate_field (identity_name m)) (\<lambda>_.
        and_then (validate_field (identity_email m)) (\<lambda>_. Ok m))))"

definition identity_field_ok :: "string option \<Rightarrow> bool" where
  "identity_field_ok x =
     (case x of None \<Rightarrow> True | Some s \<Rightarrow> length s \<le> 8192 \<and> \<not> list_ex is_control (chars s))"

lemma validate_field_Ok [simp]: "validate_field x = Ok u \<longleftrightarrow> identity_field_ok x"
  by (cases x) (auto simp: validate_field_def identity_field_ok_def MAX_GIT_IDENTITY_FIELD_BYTES_def)

section \<open>Properties\<close>

text \<open>Identity metadata is constructed exactly from fields of at most 8 KiB without control
  characters. With a JSON codec that reads back what it wrote, it can then be encoded up to the
  16 KiB bound and decodes to itself, and whatever is decoded has such fields.\<close>

theorem git_identity_codec:
  assumes "\<And>m bs. to_vec m = Some bs \<Longrightarrow> from_slice bs = Some m"
  shows "(GitIdentityMetadata_new n e = Ok m \<longleftrightarrow> identity_field_ok n \<and> identity_field_ok e \<and>
      m = \<lparr>identity_name = n, identity_email = e\<rparr>) \<and>
    (GitIdentityMetadata_encode to_vec m = Ok bs \<longrightarrow> GitIdentityMetadata_decode from_slice bs = Ok m) \<and>
    (GitIdentityMetadata_decode from_slice cs = Ok m \<longrightarrow>
      identity_field_ok (identity_name m) \<and> identity_field_ok (identity_email m) \<and>
      length cs \<le> 16384)"
  using assms
  by (auto simp: GitIdentityMetadata_new_def GitIdentityMetadata_encode_def
      GitIdentityMetadata_decode_def MAX_GIT_IDENTITY_BYTES_def split: if_splits)

theorem git_identity_codec_witness:
  "GitIdentityMetadata_decode (\<lambda>bs. if bs = [7 :: nat]
       then Some \<lparr>identity_name = Some ''Ada'', identity_email = None\<rparr> else None) [7] =
     Ok \<lparr>identity_name = Some ''Ada'', identity_email = None\<rparr>"
proof -
  let ?m = "\<lparr>identity_name = Some ''Ada'', identity_email = None\<rparr>"
  let ?to = "\<lambda>m. if m = ?m then Some [7 :: nat] else None"
  let ?from = "\<lambda>bs. if bs = [7 :: nat] then Some ?m else None"
  have codec: "?to m = Some bs \<Longrightarrow> ?from bs = Some m" for m bs by (auto split: if_splits)
  have "GitIdentityMetadata_encode ?to ?m = Ok [7]"
    by (simp add: GitIdentityMetadata_encode_def MAX_GIT_IDENTITY_BYTES_def identity_field_ok_def
        chars_ascii is_control_def)
  with git_identity_codec [of ?to ?from, OF codec, of None None ?m "[7]"] show ?thesis by blast
qed

end
