(* ===== verification/Substitution.thy ===== *)
theory Substitution
  imports Ordered_Map
begin

text \<open>
  \<^verbatim>\<open>crates/cdenv-devcontainer/src/substitution.rs\<close>: the staged substitution of \<^verbatim>\<open>${...}\<close>
  variables and the identifier derived from the stable labels. SHA-256 and the JSON form of the
  labels are third-party code and parameters. The scanner is compared with the meaning of a
  template given as a list of pieces, and its errors are shown independent of the values
  substituted.
\<close>

section \<open>The identifier of a dev container\<close>

datatype stable_identity_labels = StableIdentityLabels (labels: "(string, string) btree")

definition StableIdentityLabels_new :: "string \<Rightarrow> string \<Rightarrow> stable_identity_labels" where
  "StableIdentityLabels_new installation_id workspace_name =
     StableIdentityLabels (bt_of [(''cdenv.installation'', installation_id),
       (''cdenv.workspace'', workspace_name)])"

definition DIGITS :: string where
  "DIGITS = ''0123456789abcdefghijklmnopqrstuv''"

text \<open>One pass of the division by 32: the quotient's bytes, and the remainder.\<close>

fun divide32 :: "nat \<Rightarrow> 8 word list \<Rightarrow> 8 word list \<times> nat" where
  "divide32 carry [] = ([], carry)"
| "divide32 carry (b # bs) =
     (let val = carry * 256 + unat b;
          (qs, r) = divide32 (val mod 32) bs
      in ((if val div 32 < 256 then of_nat (val div 32) else 0) # qs, r))"

primrec be_value :: "8 word list \<Rightarrow> nat" where
  "be_value [] = 0"
| "be_value (b # bs) = unat b * 256 ^ length bs + be_value bs"

lemma divide32_spec:
  "c < 32 \<Longrightarrow> divide32 c bs = (qs, r) \<Longrightarrow>
     be_value qs * 32 + r = c * 256 ^ length bs + be_value bs \<and> r < 32 \<and> length qs = length bs"
proof (induction bs arbitrary: c qs r)
  case Nil
  then show ?case by simp
next
  case (Cons b bs)
  let ?v = "c * 256 + unat b"
  obtain qs' r' where d: "divide32 (?v mod 32) bs = (qs', r')" by fastforce
  have b: "unat b < 256" using unsigned_less [of b, where ?'a = nat] by simp
  then have q: "?v div 32 < 256" using Cons.prems(1) by simp
  with Cons.prems d have qs: "qs = of_nat (?v div 32) # qs'" "r = r'" by (auto simp: Let_def)
  from Cons.IH [OF _ d] have ih: "be_value qs' * 32 + r' = ?v mod 32 * 256 ^ length bs + be_value bs"
    "r' < 32" "length qs' = length bs" by auto
  have "unat (of_nat (?v div 32) :: 8 word) = ?v div 32" using q by (simp add: unat_of_nat)
  then have "be_value qs * 32 + r =
      (?v div 32 * 32) * 256 ^ length bs + (be_value qs' * 32 + r')"
    using qs ih(3) by (simp add: algebra_simps)
  also have "\<dots> = (?v div 32 * 32 + ?v mod 32) * 256 ^ length bs + be_value bs"
    by (simp only: ih(1) add_mult_distrib add.assoc)
  also have "\<dots> = c * 256 ^ length (b # bs) + be_value (b # bs)"
    by (simp only: div_mult_mod_eq) (simp add: algebra_simps)
  finally show ?case using qs ih by simp
qed

lemma be_value_zero: "be_value bs = 0 \<longleftrightarrow> list_all (\<lambda>b. b = 0) bs"
  by (induction bs) (auto simp: unat_eq_zero)

function base32_loop :: "8 word list \<Rightarrow> string \<Rightarrow> string" where
  "base32_loop number out =
     (if \<not> list_ex (\<lambda>b. b \<noteq> 0) number then out
      else (case divide32 0 number of (qs, carry) \<Rightarrow> base32_loop qs (out @ [DIGITS ! carry])))"
  by pat_completeness auto
termination
proof (relation "measure (\<lambda>(number, out). be_value number)")
  fix number qs carry and out :: string
  assume "\<not> \<not> list_ex (\<lambda>b. b \<noteq> 0) number" "(qs, carry) = divide32 0 number"
  then have "be_value number \<noteq> 0" "be_value qs * 32 + carry = be_value number"
    using divide32_spec [of 0 number qs carry] by (auto simp: be_value_zero list_ex_iff list_all_iff)
  then show "((qs, out @ [DIGITS ! carry]), (number, out))
      \<in> measure (\<lambda>(number, out). be_value number)" by simp
qed simp

declare base32_loop.simps [simp del]

definition base32_big_integer :: "8 word list \<Rightarrow> string" where
  "base32_big_integer bytes =
     (let out = base32_loop bytes [] in rev (out @ replicate (52 - length out) (CHR ''0'')))"

definition devcontainer_id ::
    "((string, string) btree \<Rightarrow> 8 word list option) \<Rightarrow> (8 word list \<Rightarrow> 8 word list) \<Rightarrow>
      stable_identity_labels \<Rightarrow> string" where
  "devcontainer_id to_json sha256 ls =
     base32_big_integer (sha256 (option_or (to_json (labels ls)) []))"

section \<open>Substitution\<close>

datatype substitution_property =
    NameProperty | BuildArgument | RunArgument | WorkspaceFolder | WorkspaceMount | MountProperty
  | ContainerEnvProperty | RemoteEnv | ContainerUser | RemoteUser | LifecycleCommand | Customization
  | FeatureEntrypoint

definition allows_devcontainer_id :: "substitution_property \<Rightarrow> bool" where
  "allows_devcontainer_id p \<longleftrightarrow> p \<noteq> BuildArgument"

definition allows_container_env :: "substitution_property \<Rightarrow> bool" where
  "allows_container_env p \<longleftrightarrow> p = RemoteEnv \<or> p = LifecycleCommand"

record host_substitution_inputs =
  local_workspace_folder :: string
  container_workspace_folder :: string
  local_env :: "(string, string) btree"
  identity_labels :: stable_identity_labels

datatype segment = Literal string | ContainerEnv string string

datatype deferred_string = DeferredString (segments: "segment list")

datatype substitution_error =
    MalformedSubstitution substitution_property
  | Disallowed substitution_property string
  | Unsupported substitution_property string

definition requires_container_environment :: "deferred_string \<Rightarrow> bool" where
  "requires_container_environment d \<longleftrightarrow>
     list_ex (\<lambda>s. case s of ContainerEnv _ _ \<Rightarrow> True | Literal _ \<Rightarrow> False) (segments d)"

definition segment_value :: "(string, string) btree \<Rightarrow> segment \<Rightarrow> string" where
  "segment_value env s =
     (case s of Literal t \<Rightarrow> t | ContainerEnv n d \<Rightarrow> (case bt_get env n of None \<Rightarrow> d | Some v \<Rightarrow> v))"

definition DeferredString_resolve :: "deferred_string \<Rightarrow> (string, string) btree \<Rightarrow> string" where
  "DeferredString_resolve d env = foldl (\<lambda>val s. val @ segment_value env s) [] (segments d)"

definition basename :: "string \<Rightarrow> string" where
  "basename path = last (split_on (CHR ''/'') (trim_end_matches (CHR ''/'') path))"

definition expression_name :: "string \<Rightarrow> string" where
  "expression_name expression = hd (split_on (CHR '':'') expression)"

definition environment_expression ::
    "string \<Rightarrow> string \<Rightarrow> substitution_property \<Rightarrow> (string \<times> string, substitution_error) result" where
  "environment_expression expression pre p =
     (let fields = drop (length pre) expression;
          (name, dflt) = (case split_once (CHR '':'') fields of None \<Rightarrow> (fields, []) | Some nd \<Rightarrow> nd)
      in if name = [] then Err (MalformedSubstitution p) else Ok (name, dflt))"

text \<open>The \<^verbatim>\<open>match\<close> on an expression: text to append, or a lookup to defer to the container.\<close>

datatype replacement = Replace string | Defer string string

definition replacement_for ::
    "string \<Rightarrow> substitution_property \<Rightarrow> host_substitution_inputs \<Rightarrow> string \<Rightarrow>
      (replacement, substitution_error) result" where
  "replacement_for dev_id p ctx expression =
     (if expression = ''localWorkspaceFolder'' then Ok (Replace (local_workspace_folder ctx))
      else if expression = ''localWorkspaceFolderBasename''
        then Ok (Replace (basename (local_workspace_folder ctx)))
      else if expression = ''containerWorkspaceFolder''
        then Ok (Replace (container_workspace_folder ctx))
      else if expression = ''containerWorkspaceFolderBasename''
        then Ok (Replace (basename (container_workspace_folder ctx)))
      else if expression = ''devcontainerId''
        then (if allows_devcontainer_id p then Ok (Replace dev_id)
              else Err (Disallowed p ''devcontainerId''))
      else if prefix ''localEnv:'' expression
        then map_ok (\<lambda>(name, dflt).
               Replace (case bt_get (local_env ctx) name of None \<Rightarrow> dflt | Some v \<Rightarrow> v))
             (environment_expression expression ''localEnv:'' p)
      else if prefix ''containerEnv:'' expression
        then (if allows_container_env p
              then map_ok (\<lambda>(name, dflt). Defer name dflt)
                     (environment_expression expression ''containerEnv:'' p)
              else Err (Disallowed p ''containerEnv''))
      else Err (Unsupported p (expression_name expression)))"

text \<open>The scanning loop, on the rest of the input, the segments so far and the pending literal.\<close>

function substitute_loop ::
    "string \<Rightarrow> substitution_property \<Rightarrow> host_substitution_inputs \<Rightarrow> string \<Rightarrow> segment list \<Rightarrow> string \<Rightarrow>
      (segment list \<times> string, substitution_error) result" where
  "substitute_loop dev_id p ctx [] segs lit = Ok (segs, lit)"
| "substitute_loop dev_id p ctx (c # cs) segs lit =
     (if prefix ''$${'' (c # cs)
      then substitute_loop dev_id p ctx (drop 3 (c # cs)) segs (lit @ ''${'')
      else if \<not> prefix ''${'' (c # cs)
      then substitute_loop dev_id p ctx (drop (utf8_width c) (c # cs)) segs
             (lit @ take (utf8_width c) (c # cs))
      else (case split_once (CHR ''}'') (drop 2 (c # cs)) of
              None \<Rightarrow> Err (MalformedSubstitution p)
            | Some (expression, rest) \<Rightarrow>
                (case replacement_for dev_id p ctx expression of
                   Err e \<Rightarrow> Err e
                 | Ok (Replace t) \<Rightarrow> substitute_loop dev_id p ctx rest segs (lit @ t)
                 | Ok (Defer n d) \<Rightarrow>
                     substitute_loop dev_id p ctx rest
                       (segs @ (if lit = [] then [] else [Literal lit]) @ [ContainerEnv n d]) [])))"
  by pat_completeness auto
termination
proof (relation "measure (\<lambda>(i, p, ctx, cs, segs, lit). length cs)")
  fix dev_id p ctx and c :: char and cs segs lit
  show "((dev_id, p, ctx, drop (utf8_width c) (c # cs), segs, lit @ take (utf8_width c) (c # cs)),
      (dev_id, p, ctx, c # cs, segs, lit))
    \<in> measure (\<lambda>(i, p, ctx, cs, segs, lit). length cs)"
    by (simp add: utf8_width_def)
qed (auto simp: split_once_Some dest!: arg_cong [where f = length])

definition substitute_host ::
    "((string, string) btree \<Rightarrow> 8 word list option) \<Rightarrow> (8 word list \<Rightarrow> 8 word list) \<Rightarrow>
      substitution_property \<Rightarrow> string \<Rightarrow> host_substitution_inputs \<Rightarrow>
      (deferred_string, substitution_error) result" where
  "substitute_host to_json sha256 p input ctx =
     map_ok (\<lambda>(segs, lit).
         DeferredString (if lit \<noteq> [] \<or> segs = [] then segs @ [Literal lit] else segs))
       (substitute_loop (devcontainer_id to_json sha256 (identity_labels ctx)) p ctx input [] [])"

record substitution_summary =
  summary_property :: substitution_property
  summary_requires_container_environment :: bool

definition DeferredString_summary :: "deferred_string \<Rightarrow> substitution_property \<Rightarrow> substitution_summary" where
  "DeferredString_summary d p = \<lparr>summary_property = p,
     summary_requires_container_environment = requires_container_environment d\<rparr>"

section \<open>Templates\<close>

text \<open>A template by its meaning: text, and the variables that the profile knows.\<close>

datatype piece =
    Text string | LocalFolder | LocalBasename | ContainerFolder | ContainerBasename | DevcontainerId
  | LocalVariable string "string option" | ContainerVariable string "string option"

fun escape :: "string \<Rightarrow> string" where
  "escape [] = []"
| "escape [c] = [c]"
| "escape (c # d # s) =
     (if c = CHR ''$'' \<and> d = CHR ''{'' then ''$${'' @ escape s else c # escape (d # s))"

definition default_text :: "string option \<Rightarrow> string" where
  "default_text d = (case d of None \<Rightarrow> [] | Some v \<Rightarrow> CHR '':'' # v)"

primrec piece_text :: "piece \<Rightarrow> string" where
  "piece_text (Text t) = escape t"
| "piece_text LocalFolder = ''${localWorkspaceFolder}''"
| "piece_text LocalBasename = ''${localWorkspaceFolderBasename}''"
| "piece_text ContainerFolder = ''${containerWorkspaceFolder}''"
| "piece_text ContainerBasename = ''${containerWorkspaceFolderBasename}''"
| "piece_text DevcontainerId = ''${devcontainerId}''"
| "piece_text (LocalVariable n d) = ''${localEnv:'' @ n @ default_text d @ ''}''"
| "piece_text (ContainerVariable n d) = ''${containerEnv:'' @ n @ default_text d @ ''}''"

definition variable_ok :: "string \<Rightarrow> string option \<Rightarrow> bool" where
  "variable_ok n d \<longleftrightarrow> n \<noteq> [] \<and> CHR '':'' \<notin> set n \<and> CHR ''}'' \<notin> set n \<and>
     (case d of None \<Rightarrow> True | Some v \<Rightarrow> CHR ''}'' \<notin> set v)"

primrec piece_ok :: "substitution_property \<Rightarrow> piece \<Rightarrow> bool" where
  "piece_ok p (Text t) \<longleftrightarrow> valid_utf8 t \<and> \<not> suffix ''$'' t"
| "piece_ok p LocalFolder \<longleftrightarrow> True"
| "piece_ok p LocalBasename \<longleftrightarrow> True"
| "piece_ok p ContainerFolder \<longleftrightarrow> True"
| "piece_ok p ContainerBasename \<longleftrightarrow> True"
| "piece_ok p DevcontainerId \<longleftrightarrow> allows_devcontainer_id p"
| "piece_ok p (LocalVariable n d) \<longleftrightarrow> variable_ok n d"
| "piece_ok p (ContainerVariable n d) \<longleftrightarrow> allows_container_env p \<and> variable_ok n d"

definition variable_value :: "(string, string) btree \<Rightarrow> string \<Rightarrow> string option \<Rightarrow> string" where
  "variable_value env n d = option_or (bt_get env n) (option_or d [])"

primrec piece_value ::
    "string \<Rightarrow> host_substitution_inputs \<Rightarrow> (string, string) btree \<Rightarrow> piece \<Rightarrow> string" where
  "piece_value dev_id ctx env (Text t) = t"
| "piece_value dev_id ctx env LocalFolder = local_workspace_folder ctx"
| "piece_value dev_id ctx env LocalBasename = basename (local_workspace_folder ctx)"
| "piece_value dev_id ctx env ContainerFolder = container_workspace_folder ctx"
| "piece_value dev_id ctx env ContainerBasename = basename (container_workspace_folder ctx)"
| "piece_value dev_id ctx env DevcontainerId = dev_id"
| "piece_value dev_id ctx env (LocalVariable n d) = variable_value (local_env ctx) n d"
| "piece_value dev_id ctx env (ContainerVariable n d) = variable_value env n d"

definition is_container_variable :: "piece \<Rightarrow> bool" where
  "is_container_variable x = (case x of ContainerVariable _ _ \<Rightarrow> True | _ \<Rightarrow> False)"

lemma escape_high: "\<forall>c \<in> set u. 128 \<le> byte c \<Longrightarrow> escape (u @ v) = u @ escape v"
proof (induction u)
  case (Cons c u)
  then have "c \<noteq> CHR ''$''" by auto
  then have "escape (c # s) = c # escape s" for s by (cases s) auto
  with Cons show ?case by simp
qed simp

lemma escape_not_open:
  assumes "s \<noteq> []" and "\<not> suffix ''$'' s"
  shows "\<not> prefix ''${'' (escape s @ rest)" and "prefix ''{'' (escape s @ rest) \<longleftrightarrow> prefix ''{'' s"
  using assms by (induction s rule: escape.induct) (auto simp: suffix_Cons split: if_splits)

lemma utf8_width_pos: "0 < utf8_width c"
  by (simp add: utf8_width_def)

lemma valid_utf8_front:
  assumes "valid_utf8 (c # s)" and "128 \<le> byte c"
  shows "\<forall>d \<in> set (take (utf8_width c) (c # s)). 128 \<le> byte d"
    and "length (take (utf8_width c) (c # s)) = utf8_width c"
  using assms by (auto simp: utf8_width_def utf8_cont_def split: if_splits list.splits)

lemma loop_char:
  assumes "\<not> prefix ''$${'' (c # cs)" and "\<not> prefix ''${'' (c # cs)"
  shows "substitute_loop i p ctx (c # cs) segs lit =
    substitute_loop i p ctx (drop (utf8_width c) (c # cs)) segs (lit @ take (utf8_width c) (c # cs))"
  using assms by (simp only: substitute_loop.simps) simp

lemma loop_escape:
  assumes "prefix ''$${'' (c # cs)"
  shows "substitute_loop i p ctx (c # cs) segs lit =
    substitute_loop i p ctx (drop 3 (c # cs)) segs (lit @ ''${'')"
  using assms by (simp only: substitute_loop.simps if_True)

lemma loop_text:
  "valid_utf8 t \<Longrightarrow> \<not> suffix ''$'' t \<Longrightarrow>
     substitute_loop i p ctx (escape t @ rest) segs lit = substitute_loop i p ctx rest segs (lit @ t)"
proof (induction "length t" arbitrary: t lit rule: less_induct)
  case less
  show ?case
  proof (cases t)
    case Nil
    then show ?thesis by simp
  next
    case (Cons c s)
    show ?thesis
    proof (cases "128 \<le> byte c")
      case True
      let ?u = "take (utf8_width c) t" and ?v = "drop (utf8_width c) t"
      note front = valid_utf8_front [of c s, folded Cons, OF less.prems(1) True]
      have esc: "escape t = ?u @ escape ?v"
        using escape_high [OF front(1), of ?v] by simp
      obtain u' where u: "?u = c # u'" 
        using Cons utf8_width_pos [of c] by (cases "utf8_width c") auto
      with front(2) have w: "utf8_width c = Suc (length u')" by simp
      have "c \<noteq> CHR ''$''" using True by auto
      then have "substitute_loop i p ctx (escape t @ rest) segs lit =
          substitute_loop i p ctx (escape ?v @ rest) segs (lit @ ?u)"
        unfolding esc u by (simp add: loop_char w)
      also have "\<dots> = substitute_loop i p ctx rest segs ((lit @ ?u) @ ?v)"
      proof (rule less.hyps)
        show "length ?v < length t" using Cons by (simp add: utf8_width_def)
        show "valid_utf8 ?v" using less.prems(1) valid_utf8_drop_front [of c s] Cons
          by (simp add: utf8_width_def drop_Cons')
        show "\<not> suffix ''$'' ?v" using less.prems(2) suffix_order.trans suffix_drop by blast
      qed
      finally show ?thesis by simp
    next
      case False
      then have w: "utf8_width c = 1" by (simp add: utf8_width_def)
      from less.prems(1) Cons False have vs: "valid_utf8 s" by simp
      show ?thesis
      proof (cases s)
        case Nil
        with Cons less.prems(2) w show ?thesis by (auto simp: loop_char)
      next
        case (Cons d s')
        note s = this
        from less.prems(2) \<open>t = c # s\<close> s have sfx: "\<not> suffix ''$'' s" "\<not> suffix ''$'' s'"
          by (auto simp: suffix_Cons)
        show ?thesis
        proof (cases "c = CHR ''$'' \<and> d = CHR ''{''")
          case True
          then have "valid_utf8 s'" using vs s by simp
          with less.hyps [of s' "lit @ ''${''"] True \<open>t = c # s\<close> s sfx show ?thesis by simp
        next
          case False
          have esc: "escape t = c # escape s" using False \<open>t = c # s\<close> s by auto
          have "\<not> prefix ''$${'' (c # escape s @ rest)" "\<not> prefix ''${'' (c # escape s @ rest)"
            using escape_not_open [of s rest] sfx s False by (auto simp: Cons_prefix_Cons)
          then have "substitute_loop i p ctx (escape t @ rest) segs lit =
              substitute_loop i p ctx (escape s @ rest) segs (lit @ [c])"
            unfolding esc append_Cons by (subst loop_char) (simp_all add: w)
          with less.hyps [of s "lit @ [c]"] vs sfx \<open>t = c # s\<close> show ?thesis by simp
        qed
      qed
    qed
  qed
qed

lemma loop_expression:
  assumes "CHR ''}'' \<notin> set e"
  shows "substitute_loop i p ctx (''${'' @ e @ ''}'' @ rest) segs lit =
    (case replacement_for i p ctx e of
       Err err \<Rightarrow> Err err
     | Ok (Replace t) \<Rightarrow> substitute_loop i p ctx rest segs (lit @ t)
     | Ok (Defer n d) \<Rightarrow> substitute_loop i p ctx rest
         (segs @ (if lit = [] then [] else [Literal lit]) @ [ContainerEnv n d]) [])"
  using assms by simp

lemma environment_expression_ok:
  assumes "variable_ok n d"
  shows "environment_expression (pre @ n @ default_text d) pre p = Ok (n, option_or d [])"
  using assms
  by (cases d) (auto simp: environment_expression_def variable_ok_def default_text_def option_or_def
      iffD2 [OF split_once_None])

lemma variable_no_brace: "variable_ok n d \<Longrightarrow> CHR ''}'' \<notin> set (n @ default_text d)"
  by (cases d) (auto simp: variable_ok_def default_text_def)

lemma local_replacement:
  assumes "variable_ok n d"
  shows "replacement_for i p ctx (''localEnv:'' @ n @ default_text d) =
    Ok (Replace (variable_value (local_env ctx) n d))"
  using environment_expression_ok [OF assms, of "''localEnv:''" p]
  by (simp add: replacement_for_def variable_value_def option_or_def split: option.splits)

lemma container_replacement:
  assumes "variable_ok n d" and "allows_container_env p"
  shows "replacement_for i p ctx (''containerEnv:'' @ n @ default_text d) = Ok (Defer n (option_or d []))"
  using environment_expression_ok [OF assms(1), of "''containerEnv:''" p] assms(2)
  by (simp add: replacement_for_def)

definition flat :: "(string, string) btree \<Rightarrow> segment list \<Rightarrow> string \<Rightarrow> string" where
  "flat env segs lit = concat (map (segment_value env) segs) @ lit"

definition has_lookup :: "segment list \<Rightarrow> bool" where
  "has_lookup segs = list_ex (\<lambda>s. case s of ContainerEnv _ _ \<Rightarrow> True | Literal _ \<Rightarrow> False) segs"

lemma loop_piece:
  assumes "piece_ok p x"
  shows "\<exists>segs' lit'. substitute_loop i p ctx (piece_text x @ rest) segs lit =
      substitute_loop i p ctx rest segs' lit' \<and>
    (\<forall>env. flat env segs' lit' = flat env segs lit @ piece_value i ctx env x) \<and>
    has_lookup segs' = (has_lookup segs \<or> is_container_variable x)"
proof -
  have simple: ?thesis if "piece_text x = ''${'' @ e @ ''}''" "CHR ''}'' \<notin> set e"
    "replacement_for i p ctx e = Ok (Replace t)" "\<forall>env. piece_value i ctx env x = t"
    "\<not> is_container_variable x" for e t
    using that loop_expression [OF that(2), of i p ctx rest segs lit]
    by (intro exI [of _ segs] exI [of _ "lit @ t"]) (simp add: flat_def)
  show ?thesis
  proof (cases x)
    case (Text t)
    with assms show ?thesis
      by (intro exI [of _ segs] exI [of _ "lit @ t"])
        (simp add: loop_text flat_def is_container_variable_def)
  next
    case (LocalVariable n d)
    with assms have ok: "variable_ok n d" by simp
    show ?thesis
      by (rule simple [OF _ _ local_replacement [OF ok]])
        (use LocalVariable variable_no_brace [OF ok] in \<open>simp_all add: is_container_variable_def\<close>)
  next
    case (ContainerVariable n d)
    let ?segs = "segs @ (if lit = [] then [] else [Literal lit]) @ [ContainerEnv n (option_or d [])]"
    have "substitute_loop i p ctx (piece_text x @ rest) segs lit = substitute_loop i p ctx rest ?segs []"
      using assms ContainerVariable loop_expression [of "''containerEnv:'' @ n @ default_text d" i p ctx rest segs lit]
        variable_no_brace [of n d] by (simp only: container_replacement piece_text.simps piece_ok.simps) simp
    moreover have "flat env ?segs [] = flat env segs lit @ piece_value i ctx env x" for env
      using ContainerVariable
      by (simp add: flat_def segment_value_def variable_value_def option_or_def split: option.splits)
    ultimately show ?thesis
      using ContainerVariable
      by (intro exI [of _ ?segs] exI [of _ "[]"]) (simp add: has_lookup_def is_container_variable_def)
  next
    case DevcontainerId
    with assms show ?thesis
      by (intro simple [of "''devcontainerId''" i]) (simp_all add: replacement_for_def is_container_variable_def)
  next
    case LocalFolder
    show ?thesis
      by (rule simple [of "''localWorkspaceFolder''"])
        (simp_all add: LocalFolder replacement_for_def is_container_variable_def)
  next
    case LocalBasename
    show ?thesis
      by (rule simple [of "''localWorkspaceFolderBasename''"])
        (simp_all add: LocalBasename replacement_for_def is_container_variable_def)
  next
    case ContainerFolder
    show ?thesis
      by (rule simple [of "''containerWorkspaceFolder''"])
        (simp_all add: ContainerFolder replacement_for_def is_container_variable_def)
  next
    case ContainerBasename
    show ?thesis
      by (rule simple [of "''containerWorkspaceFolderBasename''"])
        (simp_all add: ContainerBasename replacement_for_def is_container_variable_def)
  qed
qed

lemma loop_pieces:
  "list_all (piece_ok p) ps \<Longrightarrow>
     \<exists>segs' lit'. substitute_loop i p ctx (concat (map piece_text ps)) segs lit = Ok (segs', lit') \<and>
       (\<forall>env. flat env segs' lit' = flat env segs lit @ concat (map (piece_value i ctx env) ps)) \<and>
       has_lookup segs' = (has_lookup segs \<or> list_ex is_container_variable ps)"
proof (induction ps arbitrary: segs lit)
  case Nil
  then show ?case by simp
next
  case (Cons x ps)
  from Cons.prems loop_piece [of p x i ctx "concat (map piece_text ps)" segs lit] obtain segs1 lit1 where
    one: "substitute_loop i p ctx (piece_text x @ concat (map piece_text ps)) segs lit =
      substitute_loop i p ctx (concat (map piece_text ps)) segs1 lit1"
    "\<forall>env. flat env segs1 lit1 = flat env segs lit @ piece_value i ctx env x"
    "has_lookup segs1 = (has_lookup segs \<or> is_container_variable x)" by auto
  from Cons.IH [of segs1 lit1] Cons.prems obtain segs2 lit2 where
    "substitute_loop i p ctx (concat (map piece_text ps)) segs1 lit1 = Ok (segs2, lit2)"
    "\<forall>env. flat env segs2 lit2 = flat env segs1 lit1 @ concat (map (piece_value i ctx env) ps)"
    "has_lookup segs2 = (has_lookup segs1 \<or> list_ex is_container_variable ps)" by auto
  with one show ?case by (intro exI [of _ segs2] exI [of _ lit2]) auto
qed

lemma resolve_flat:
  "DeferredString_resolve (DeferredString (if lit \<noteq> [] \<or> segs = [] then segs @ [Literal lit] else segs)) env =
     flat env segs lit"
proof -
  have "foldl (\<lambda>val s. val @ segment_value env s) acc xs = acc @ concat (map (segment_value env) xs)"
    for acc xs by (induction xs arbitrary: acc) auto
  then show ?thesis by (auto simp: DeferredString_resolve_def flat_def segment_value_def)
qed

lemma requires_flat:
  "requires_container_environment (DeferredString (if lit \<noteq> [] \<or> segs = [] then segs @ [Literal lit] else segs)) =
     has_lookup segs"
  by (auto simp: requires_container_environment_def has_lookup_def)

section \<open>Errors and stages\<close>

lemma replacement_Err:
  "replacement_for i p ctx e = Err err \<longleftrightarrow> replacement_for i' p ctx' e = Err err"
  by (auto simp: replacement_for_def map_ok_def split: result.splits)

lemma replacement_Defer:
  "replacement_for i p ctx e = Ok (Defer n d) \<longleftrightarrow> replacement_for i' p ctx' e = Ok (Defer n d)"
  by (auto simp: replacement_for_def map_ok_def split: result.splits)

lemma replacement_Replace:
  "replacement_for i p ctx e = Ok (Replace t) \<Longrightarrow> \<exists>t'. replacement_for i' p ctx' e = Ok (Replace t')"
  by (auto simp: replacement_for_def map_ok_def split: result.splits if_splits)

lemma replacement_Defer_stage: "replacement_for i p ctx e = Ok (Defer n d) \<Longrightarrow> allows_container_env p"
  by (auto simp: replacement_for_def map_ok_def split: result.splits if_splits)

lemma replacement_id: "\<not> allows_devcontainer_id p \<Longrightarrow> replacement_for i p ctx e = replacement_for i' p ctx e"
  by (simp add: replacement_for_def)

declare substitute_loop.simps(2) [simp del]

text \<open>One turn of the scanner, whatever the context and the state: text, an unterminated
  expression, or an expression to look up.\<close>

lemma loop_step:
  obtains (plain) rest t where "length rest < length (c # cs)"
      "\<And>i ctx segs lit. substitute_loop i p ctx (c # cs) segs lit = substitute_loop i p ctx rest segs (lit @ t)"
  | (open_ended) "\<And>i ctx segs lit. substitute_loop i p ctx (c # cs) segs lit = Err (MalformedSubstitution p)"
  | (lookup) rest e where "length rest < length (c # cs)"
      "\<And>i ctx segs lit. substitute_loop i p ctx (c # cs) segs lit =
        (case replacement_for i p ctx e of
           Err err \<Rightarrow> Err err
         | Ok (Replace t) \<Rightarrow> substitute_loop i p ctx rest segs (lit @ t)
         | Ok (Defer n d) \<Rightarrow> substitute_loop i p ctx rest
             (segs @ (if lit = [] then [] else [Literal lit]) @ [ContainerEnv n d]) [])"
proof -
  consider (esc) "prefix ''$${'' (c # cs)" | (char) "\<not> prefix ''$${'' (c # cs)" "\<not> prefix ''${'' (c # cs)"
    | (expr) "\<not> prefix ''$${'' (c # cs)" "prefix ''${'' (c # cs)" by blast
  then show thesis
  proof cases
    case esc
    then have "length (drop 3 (c # cs)) < length (c # cs)" by simp
    then show thesis by (rule plain) (rule loop_escape [OF esc])
  next
    case char
    have "length (drop (utf8_width c) (c # cs)) < length (c # cs)" by (simp add: utf8_width_def)
    then show thesis by (rule plain) (rule loop_char [OF char])
  next
    case expr
    note unfold = substitute_loop.simps(2) expr if_False not_True_eq_False option.case if_True prod.case
    show thesis
    proof (cases "split_once (CHR ''}'') (drop 2 (c # cs))")
      case None
      then show thesis by (intro open_ended) (simp only: unfold)
    next
      case (Some er)
      obtain e rest where er: "er = (e, rest)" by fastforce
      with Some have "drop 2 (c # cs) = e @ CHR ''}'' # rest" by (simp add: split_once_Some)
      then have "length rest < length (c # cs)" by (auto dest!: arg_cong [where f = length])
      then show thesis by (rule lookup) (use Some er in \<open>simp only: unfold\<close>)
    qed
  qed
qed

text \<open>Two runs on the same input, in any contexts, agree on their errors.\<close>

lemma loop_Err:
  "substitute_loop i p ctx cs segs lit = Err e \<longleftrightarrow> substitute_loop i' p ctx' cs segs' lit' = Err e"
proof (induction "length cs" arbitrary: cs segs lit segs' lit' rule: less_induct)
  case less
  show ?case
  proof (cases cs)
    case (Cons c cs')
    show ?thesis
    proof (cases c cs' p rule: loop_step)
      case (plain rest t)
      with less.hyps [of rest] Cons show ?thesis by simp
    next
      case open_ended
      with Cons show ?thesis by simp
    next
      case (lookup rest ex)
      note ih = less.hyps [OF lookup(1) [folded Cons]]
      consider (error) err where "replacement_for i p ctx ex = Err err" "replacement_for i' p ctx' ex = Err err"
        | (now) t t' where "replacement_for i p ctx ex = Ok (Replace t)" "replacement_for i' p ctx' ex = Ok (Replace t')"
        | (later) n d where "replacement_for i p ctx ex = Ok (Defer n d)" "replacement_for i' p ctx' ex = Ok (Defer n d)"
        using replacement_Err replacement_Defer replacement_Replace
        by (metis result.exhaust replacement.exhaust)
      then show ?thesis by cases (use Cons in \<open>simp_all add: lookup(2) ih\<close>)
    qed
  qed simp
qed

lemma loop_no_lookup:
  "\<not> allows_container_env p \<Longrightarrow> \<not> has_lookup segs \<Longrightarrow>
     substitute_loop i p ctx cs segs lit = Ok (segs', lit') \<Longrightarrow> \<not> has_lookup segs'"
proof (induction "length cs" arbitrary: cs segs lit rule: less_induct)
  case less
  show ?case
  proof (cases cs)
    case (Cons c cs')
    show ?thesis
    proof (cases c cs' p rule: loop_step)
      case (lookup rest ex)
      with less.hyps [OF lookup(1) [folded Cons]] less.prems Cons replacement_Defer_stage [of i p ctx ex]
      show ?thesis by (auto split: result.splits replacement.splits)
    qed (use less Cons in auto)
  qed (use less.prems in simp)
qed

lemma loop_id:
  "\<not> allows_devcontainer_id p \<Longrightarrow>
     substitute_loop i p ctx cs segs lit = substitute_loop i' p ctx cs segs lit"
proof (induction "length cs" arbitrary: cs segs lit rule: less_induct)
  case less
  show ?case
  proof (cases cs)
    case (Cons c cs')
    show ?thesis
    proof (cases c cs' p rule: loop_step)
      case (lookup rest ex)
      with less.hyps [OF lookup(1) [folded Cons]] less.prems Cons show ?thesis
        by (simp add: replacement_id [OF less.prems, of i ctx ex i'] split: result.splits replacement.splits)
    qed (use less Cons in auto)
  qed simp
qed

lemma loop_labels:
  "substitute_loop i p (ctx\<lparr>identity_labels := ls\<rparr>) cs segs lit = substitute_loop i p ctx cs segs lit"
proof (induction "length cs" arbitrary: cs segs lit rule: less_induct)
  case less
  show ?case
  proof (cases cs)
    case (Cons c cs')
    show ?thesis
    proof (cases c cs' p rule: loop_step)
      case (lookup rest ex)
      have "replacement_for i p (ctx\<lparr>identity_labels := ls\<rparr>) ex = replacement_for i p ctx ex"
        by (simp add: replacement_for_def)
      with less.hyps [OF lookup(1) [folded Cons]] Cons lookup(2) show ?thesis
        by (simp split: result.splits replacement.splits)
    qed (use less Cons in auto)
  qed simp
qed

section \<open>Base 32\<close>

definition digit_value :: "char \<Rightarrow> nat" where
  "digit_value c = (if byte c < 58 then byte c - 48 else byte c - 87)"

definition base32_value :: "string \<Rightarrow> nat" where
  "base32_value s = foldl (\<lambda>a c. a * 32 + digit_value c) 0 s"

primrec le32 :: "string \<Rightarrow> nat" where
  "le32 [] = 0"
| "le32 (c # s) = digit_value c + 32 * le32 s"

lemma base32_value_rev: "base32_value (rev s) = le32 s"
  by (induction s) (simp_all add: base32_value_def)

lemma le32_zeros [simp]: "le32 (s @ replicate n (CHR ''0'')) = le32 s"
proof (induction s)
  case Nil
  show ?case by (induction n) (simp_all add: digit_value_def)
qed simp

lemma digit_value_DIGITS:
  assumes "k < 32"
  shows "digit_value (DIGITS ! k) = k \<and> DIGITS ! k \<in> set DIGITS"
proof -
  have "map digit_value DIGITS = [0..<32]" by (simp add: DIGITS_def digit_value_def upt_rec)
  moreover have "length DIGITS = 32" by (simp add: DIGITS_def)
  ultimately show ?thesis using assms nth_map [of k DIGITS digit_value] by simp
qed

lemma base32_loop_digits:
  "\<exists>ds. base32_loop number out = out @ ds \<and> le32 ds = be_value number \<and> set ds \<subseteq> set DIGITS \<and>
     (\<forall>k. be_value number < 32 ^ k \<longrightarrow> length ds \<le> k)"
proof (induction number out rule: base32_loop.induct)
  case (1 number out)
  show ?case
  proof (cases "list_ex (\<lambda>b. b \<noteq> 0) number")
    case False
    then have "be_value number = 0" by (auto simp: be_value_zero list_ex_iff list_all_iff)
    with False show ?thesis by (subst base32_loop.simps) auto
  next
    case True
    obtain qs r where d: "divide32 0 number = (qs, r)" by fastforce
    note q = divide32_spec [OF _ d]
    from "1.IH" [OF _ d [symmetric]] True obtain ds where
      ds: "base32_loop qs (out @ [DIGITS ! r]) = (out @ [DIGITS ! r]) @ ds" "le32 ds = be_value qs"
      "set ds \<subseteq> set DIGITS" "\<forall>k. be_value qs < 32 ^ k \<longrightarrow> length ds \<le> k" by auto
    have "be_value number \<noteq> 0" using True by (auto simp: be_value_zero list_ex_iff list_all_iff)
    then have "length (DIGITS ! r # ds) \<le> k" if "be_value number < 32 ^ k" for k
      using that q ds(4) by (cases k) auto
    moreover have "base32_loop number out = out @ DIGITS ! r # ds"
      using True d ds(1) by (subst base32_loop.simps) simp
    ultimately show ?thesis
      using ds q digit_value_DIGITS [of r] by (intro exI [of _ "DIGITS ! r # ds"]) auto
  qed
qed

lemma be_value_less: "be_value bs < 256 ^ length bs"
proof (induction bs)
  case (Cons b bs)
  let ?K = "256 ^ length bs :: nat"
  have "unat b < 256" using unsigned_less [of b, where ?'a = nat] by simp
  then have "unat b * ?K \<le> 255 * ?K" by (intro mult_right_mono) auto
  with Cons have "unat b * ?K + be_value bs < 256 * ?K" by linarith
  then show ?case by simp
qed simp

lemma be_value_inj: "length bs = length cs \<Longrightarrow> be_value bs = be_value cs \<Longrightarrow> bs = cs"
proof (induction bs cs rule: list_induct2)
  case (Cons b bs c cs)
  let ?K = "256 ^ length bs :: nat"
  have less: "be_value bs < ?K" "be_value cs < ?K"
    using be_value_less [of bs] be_value_less [of cs] Cons.hyps by auto
  from Cons have eq: "unat b * ?K + be_value bs = unat c * ?K + be_value cs" by simp
  from arg_cong [OF eq, of "\<lambda>x. x div ?K"] less have "unat b = unat c" by simp
  moreover from arg_cong [OF eq, of "\<lambda>x. x mod ?K"] less have "be_value bs = be_value cs" by simp
  ultimately show ?case using Cons.IH by (simp add: unsigned_word_eqI)
qed simp

section \<open>Properties\<close>

text \<open>C19: a template that is any sequence of escaped text and variables the property allows is
  accepted, and resolving it in any container environment gives the concatenation of their
  meanings; it needs the container's environment exactly when a container variable occurs.\<close>

theorem substitution_meaning:
  assumes "list_all (piece_ok p) ps"
  shows "\<exists>d. substitute_host to_json sha256 p (concat (map piece_text ps)) ctx = Ok d \<and>
    (\<forall>env. DeferredString_resolve d env =
       concat (map (piece_value (devcontainer_id to_json sha256 (identity_labels ctx)) ctx env) ps)) \<and>
    requires_container_environment d = list_ex is_container_variable ps"
proof -
  let ?i = "devcontainer_id to_json sha256 (identity_labels ctx)"
  from loop_pieces [OF assms, of ?i ctx "[]" "[]"] obtain segs lit where
    "substitute_loop ?i p ctx (concat (map piece_text ps)) [] [] = Ok (segs, lit)"
    "\<forall>env. flat env segs lit = concat (map (piece_value ?i ctx env) ps)"
    "has_lookup segs = list_ex is_container_variable ps"
    by (auto simp: flat_def has_lookup_def)
  then show ?thesis
    unfolding substitute_host_def
    by (simp only: map_ok_simps prod.case result.inject ex_simps simp_thms resolve_flat requires_flat)
qed

definition sample_inputs :: host_substitution_inputs where
  "sample_inputs = \<lparr>local_workspace_folder = ''/home/a/ws/'', container_workspace_folder = ''/w'',
     local_env = [], identity_labels = StableIdentityLabels_new ''i'' ''w''\<rparr>"

theorem substitution_meaning_witness:
  "\<exists>d. substitute_host (\<lambda>_. None) (\<lambda>_. []) RemoteEnv
       ''x$${${localWorkspaceFolderBasename}${containerEnv:PATH:/bin}'' sample_inputs = Ok d \<and>
     DeferredString_resolve d [] = ''x${ws/bin'' \<and> requires_container_environment d"
proof -
  let ?ps = "[Text ''x${'', LocalBasename, ContainerVariable ''PATH'' (Some ''/bin'')]"
  have "list_all (piece_ok RemoteEnv) ?ps"
    by (simp add: variable_ok_def allows_container_env_def suffix_Cons)
  from substitution_meaning [OF this, of "\<lambda>_. None" "\<lambda>_. []" sample_inputs] obtain d where
    "substitute_host (\<lambda>_. None) (\<lambda>_. []) RemoteEnv (concat (map piece_text ?ps)) sample_inputs = Ok d"
    "DeferredString_resolve d [] = concat (map (piece_value
       (devcontainer_id (\<lambda>_. None) (\<lambda>_. []) (identity_labels sample_inputs)) sample_inputs []) ?ps)"
    "requires_container_environment d = list_ex is_container_variable ?ps" by blast
  moreover have "concat (map piece_text ?ps) =
      ''x$${${localWorkspaceFolderBasename}${containerEnv:PATH:/bin}''"
    by (simp add: default_text_def)
  moreover have "concat (map (piece_value i sample_inputs []) ?ps) = ''x${ws/bin''" for i
    by (simp add: sample_inputs_def basename_def trim_end_matches_def variable_value_def option_or_def)
  ultimately show ?thesis by (simp add: is_container_variable_def)
qed

text \<open>C20: a failure says nothing of the values that would have been substituted: in any two
  contexts, and for any two identifiers, the same template fails with the same error.\<close>

theorem substitution_errors_value_free:
  "substitute_host to_json sha256 p s ctx = Err e \<longleftrightarrow> substitute_host to_json' sha256' p s ctx' = Err e"
  unfolding substitute_host_def map_ok_eq_Err by (rule loop_Err)



text \<open>The identifier of a 32-byte digest is 52 digits of base 32 whose value is the digest read
  as a big-endian integer, so that two workspaces get the same identifier only if their labels
  have the same digest.\<close>

theorem devcontainer_id_digits:
  assumes "length (sha256 (option_or (to_json (labels ls)) [])) = 32"
    and "length (sha256 (option_or (to_json (labels ls')) [])) = 32"
  shows "length (devcontainer_id to_json sha256 ls) = 52 \<and>
    set (devcontainer_id to_json sha256 ls) \<subseteq> set DIGITS \<and>
    base32_value (devcontainer_id to_json sha256 ls) =
      be_value (sha256 (option_or (to_json (labels ls)) [])) \<and>
    (devcontainer_id to_json sha256 ls = devcontainer_id to_json sha256 ls' \<longleftrightarrow>
      sha256 (option_or (to_json (labels ls)) []) = sha256 (option_or (to_json (labels ls')) []))"
proof -
  have b: "length (base32_big_integer bs) = 52 \<and> set (base32_big_integer bs) \<subseteq> set DIGITS \<and>
      base32_value (base32_big_integer bs) = be_value bs" if n: "length bs = 32" for bs
  proof -
    obtain ds where ds: "base32_loop bs [] = ds" "le32 ds = be_value bs" "set ds \<subseteq> set DIGITS"
      "be_value bs < 32 ^ 52 \<longrightarrow> length ds \<le> 52"
      using base32_loop_digits [of bs "[]"] by auto
    have "be_value bs < 32 ^ 52" using be_value_less [of bs] n by simp
    with ds have "length ds \<le> 52" by blast
    moreover have "CHR ''0'' \<in> set DIGITS" by (simp add: DIGITS_def)
    ultimately show ?thesis
      using ds by (auto simp: base32_big_integer_def base32_value_rev simp del: rev_append)
  qed
  let ?h = "sha256 (option_or (to_json (labels ls)) [])"
  let ?h' = "sha256 (option_or (to_json (labels ls')) [])"
  have "?h = ?h'" if "base32_big_integer ?h = base32_big_integer ?h'"
    using be_value_inj [of ?h ?h'] assms b [of ?h] b [of ?h'] that by simp
  then show ?thesis unfolding devcontainer_id_def using b [OF assms(1)] by auto
qed

theorem devcontainer_id_digits_witness:
  "length (devcontainer_id (\<lambda>_. None) (\<lambda>_. replicate 32 1) (StableIdentityLabels_new ''i'' ''w'')) = 52"
  using devcontainer_id_digits [of "\<lambda>_. replicate 32 1" "\<lambda>_. None"
      "StableIdentityLabels_new ''i'' ''w''" "StableIdentityLabels_new ''i'' ''w''"] by simp

end
