(* ===== verification/Profile.thy ===== *)
theory Profile
  imports Ordered_Map
begin

text \<open>
  The validated profile of \<^verbatim>\<open>crates/cdenv-devcontainer/src/profile.rs\<close>: the records and enumerations
  that the validation produces and that merging, lifecycle planning, host requirements and port
  planning consume. \<open>json\<close> is the value type of \<^verbatim>\<open>serde_json\<close> as the sources see it; a
  floating-point number is kept as its text. Records carry the source's fields, prefixed where
  the same name occurs in two records.
\<close>

datatype json_number = PosInt "64 word" | NegInt int | FloatNumber string

datatype json =
    JNull | JBool bool | JNumber json_number | JString string | JArray "json list"
  | JObject "(string \<times> json) list"

definition as_object :: "json \<Rightarrow> (string, json) btree option" where
  "as_object v = (case v of JObject kvs \<Rightarrow> Some kvs | _ \<Rightarrow> None)"

definition as_array :: "json \<Rightarrow> json list option" where
  "as_array v = (case v of JArray vs \<Rightarrow> Some vs | _ \<Rightarrow> None)"

definition as_str :: "json \<Rightarrow> string option" where
  "as_str v = (case v of JString s \<Rightarrow> Some s | _ \<Rightarrow> None)"

definition as_bool :: "json \<Rightarrow> bool option" where
  "as_bool v = (case v of JBool b \<Rightarrow> Some b | _ \<Rightarrow> None)"

definition as_u64 :: "json \<Rightarrow> 64 word option" where
  "as_u64 v = (case v of JNumber (PosInt n) \<Rightarrow> Some n | _ \<Rightarrow> None)"

section \<open>Enumerations\<close>

datatype shutdown_action = ShutdownNone | StopContainer | StopCompose

datatype user_env_probe = ProbeNone | LoginShell | LoginInteractiveShell | InteractiveShell

datatype wait_for =
    WaitInitialize | WaitOnCreate | WaitUpdateContent | WaitPostCreate | WaitPostStart

datatype auto_forward_action =
    Notify | OpenBrowser | OpenBrowserOnce | OpenPreview | Silent | Ignore

datatype port_protocol = Http | Https

datatype feature_source = OciSource string | HttpsSource string | LocalSource string

datatype feature_option_value = BooleanOption bool | StringOption string

datatype mount_kind = Bind | Volume

datatype raw_mount =
    StringMount string
  | ObjectMount (mount_object_kind: mount_kind) (mount_object_source: "string option")
      (mount_object_target: string)

datatype app_port = NumberPort "16 word" | DockerArgument string

datatype forward_port = ContainerPort "16 word" | ServicePort string "16 word"

datatype command_value = ShellValue string | ExecValue "string list"

datatype raw_command =
    ShellCommand string | ExecCommand "string list" | ParallelCommand "(string, command_value) btree"

datatype gpu_requirement =
    GpuRequired | GpuNotRequired | GpuOptional | GpuDetailed "64 word option" "string option"

section \<open>Records\<close>

record port_attributes =
  on_auto_forward :: "auto_forward_action option"
  elevate_if_needed :: "bool option"
  port_label :: "string option"
  require_local_port :: "bool option"
  port_protocol_hint :: "port_protocol option"

record lifecycle_commands =
  lc_initialize :: "raw_command option"
  lc_on_create :: "raw_command option"
  lc_update_content :: "raw_command option"
  lc_post_create :: "raw_command option"
  lc_post_start :: "raw_command option"
  lc_post_attach :: "raw_command option"

record host_requirements =
  req_cpus :: "64 word option"
  req_memory :: "string option"
  req_storage :: "string option"
  req_gpu :: "gpu_requirement option"

record secret_metadata =
  secret_description :: "string option"
  documentation_url :: "string option"

record raw_feature =
  feature_source_of :: feature_source
  feature_options :: "(string, feature_option_value) btree"

record raw_common =
  features :: "(string, raw_feature) btree"
  override_feature_install_order :: "string list"
  container_env :: "(string, string) btree"
  remote_env :: "(string, string option) btree"
  container_user :: "string option"
  remote_user :: "string option"
  update_remote_user_uid :: "bool option"
  user_env_probe_of :: "user_env_probe option"
  init :: "bool option"
  privileged :: "bool option"
  cap_add :: "string list"
  security_opt :: "string list"
  mounts :: "raw_mount list"
  app_ports :: "app_port list"
  forward_ports :: "forward_port list"
  ports_attributes :: "(string, port_attributes) btree"
  other_ports_attributes :: "port_attributes option"
  lifecycle :: lifecycle_commands
  wait_for_of :: "wait_for option"
  host_requirements_of :: "host_requirements option"
  customizations :: "(string, json) btree"
  secrets :: "(string, secret_metadata) btree"

record non_compose_options =
  opt_workspace_folder :: "string option"
  opt_workspace_mount :: "string option"
  opt_run_args :: "string list"
  opt_shutdown_action :: "shutdown_action option"
  opt_override_command :: "bool option"

record raw_build =
  dockerfile :: string
  build_context :: "string option"
  build_target :: "string option"
  build_args :: "(string, string) btree"
  cache_from :: "string list"
  build_options :: "string list"

record image_scenario =
  image :: string
  image_options :: non_compose_options

record dockerfile_scenario =
  build :: raw_build
  dockerfile_options :: non_compose_options

record compose_scenario =
  compose_files :: "string list"
  compose_service :: string
  run_services :: "string list option"
  compose_workspace_folder :: string
  compose_shutdown_action :: "shutdown_action option"
  compose_override_command :: "bool option"

datatype raw_scenario =
    ImageScenario image_scenario | DockerfileScenario dockerfile_scenario
  | ComposeScenario compose_scenario

record raw_profile =
  schema_uri :: "string option"
  profile_name :: "string option"
  scenario :: raw_scenario
  common :: raw_common

definition LifecycleCommands_default :: lifecycle_commands where
  "LifecycleCommands_default = \<lparr>lc_initialize = None, lc_on_create = None, lc_update_content = None,
     lc_post_create = None, lc_post_start = None, lc_post_attach = None\<rparr>"

definition RawCommon_default :: raw_common where
  "RawCommon_default = \<lparr>features = [], override_feature_install_order = [], container_env = [],
     remote_env = [], container_user = None, remote_user = None, update_remote_user_uid = None,
     user_env_probe_of = None, init = None, privileged = None, cap_add = [], security_opt = [],
     mounts = [], app_ports = [], forward_ports = [], ports_attributes = [],
     other_ports_attributes = None, lifecycle = LifecycleCommands_default, wait_for_of = None,
     host_requirements_of = None, customizations = [], secrets = []\<rparr>"

end
