(* ===== verification/Host_Requirements.thy ===== *)
theory Host_Requirements
  imports Profile
begin

text \<open>
  \<^verbatim>\<open>crates/cdenv-devcontainer/src/host_requirements.rs\<close>: evaluation of the merged host requirements
  against measured or unknown capabilities. The list of warnings that the code extends in place
  is threaded through. The verdict is compared with a statement, resource by resource, of what
  reliable evidence proves.
\<close>

section \<open>Capabilities and findings\<close>

datatype unknown_measurement = Unmeasurable | ProbeUnavailable

datatype 'a measured = Reliable 'a | Unknown unknown_measurement

record gpu_capabilities =
  gpu_cores :: "64 word option"
  gpu_memory_bytes :: "64 word option"

record host_capabilities =
  cpus :: "64 word measured"
  memory_bytes :: "64 word measured"
  storage_bytes :: "64 word measured"
  gpu :: "gpu_capabilities option measured"

datatype gpu_access_intent = NoGpu | GpuRequested

datatype host_resource = Cpu | Memory | Storage | Gpu | GpuCores | GpuMemory

primrec property_path :: "host_resource \<Rightarrow> string" where
  "property_path Cpu = ''$.hostRequirements.cpus''"
| "property_path Memory = ''$.hostRequirements.memory''"
| "property_path Storage = ''$.hostRequirements.storage''"
| "property_path Gpu = ''$.hostRequirements.gpu''"
| "property_path GpuCores = ''$.hostRequirements.gpu.cores''"
| "property_path GpuMemory = ''$.hostRequirements.gpu.memory''"

datatype host_requirement_warning_kind =
    UnknownCapability unknown_measurement | OptionalGpuUnavailable
  | OptionalGpuUnknown unknown_measurement | GpuDetailUnknown

datatype host_requirement_warning =
  HostRequirementWarning (warning_resource: host_resource) (warning_kind: host_requirement_warning_kind)

record host_requirement_evaluation =
  warnings :: "host_requirement_warning list"
  gpu_access :: gpu_access_intent

definition is_proved_met :: "host_requirement_evaluation \<Rightarrow> bool" where
  "is_proved_met e \<longleftrightarrow> warnings e = []"

datatype host_requirement_error =
  HostRequirementError (error_path: string) (error_resource: host_resource)

definition unmet_error :: "host_resource \<Rightarrow> host_requirement_error" where
  "unmet_error r = HostRequirementError (property_path r) r"

section \<open>Byte quantities\<close>

definition byte_quantity :: "string \<Rightarrow> 64 word option" where
  "byte_quantity s =
     (let digits = length (takeWhile (\<lambda>c. is_ascii_digit (byte c)) s)
      in case parse_uint 64 (take digits s) of
           None \<Rightarrow> None
         | Some number \<Rightarrow>
             (let suf = drop digits s;
                  multiplier = (if suf = [] then Some 1 else if suf = ''kb'' then Some (2 ^ 10)
                    else if suf = ''mb'' then Some (2 ^ 20) else if suf = ''gb'' then Some (2 ^ 30)
                    else if suf = ''tb'' then Some (2 ^ 40) else None)
              in case multiplier of
                   None \<Rightarrow> None
                 | Some m \<Rightarrow> if number * m < 2 ^ 64 then Some (of_nat (number * m)) else None))"

section \<open>Evaluation\<close>

type_synonym findings = "host_requirement_warning list"

definition evaluate_scalar ::
    "64 word \<Rightarrow> 64 word measured \<Rightarrow> host_resource \<Rightarrow> findings \<Rightarrow> (findings, host_requirement_error) result" where
  "evaluate_scalar required m resource ws =
     (case m of
        Reliable available \<Rightarrow> if available < required then Err (unmet_error resource) else Ok ws
      | Unknown reason \<Rightarrow> Ok (ws @ [HostRequirementWarning resource (UnknownCapability reason)]))"

definition require_gpu ::
    "gpu_capabilities option measured \<Rightarrow> findings \<Rightarrow>
      (gpu_capabilities option \<times> findings, host_requirement_error) result" where
  "require_gpu m ws =
     (case m of
        Reliable None \<Rightarrow> Err (unmet_error Gpu)
      | Reliable (Some g) \<Rightarrow> Ok (Some g, ws)
      | Unknown reason \<Rightarrow> Ok (None, ws @ [HostRequirementWarning Gpu (UnknownCapability reason)]))"

definition evaluate_detail ::
    "64 word \<Rightarrow> 64 word option \<Rightarrow> host_resource \<Rightarrow> findings \<Rightarrow> (findings, host_requirement_error) result" where
  "evaluate_detail required measurement resource ws =
     (case measurement of
        Some available \<Rightarrow> if available < required then Err (unmet_error resource) else Ok ws
      | None \<Rightarrow> Ok (ws @ [HostRequirementWarning resource GpuDetailUnknown]))"

definition evaluate_gpu_cores ::
    "64 word option \<Rightarrow> gpu_capabilities option \<Rightarrow> findings \<Rightarrow> (findings, host_requirement_error) result" where
  "evaluate_gpu_cores cores g ws =
     (case cores of None \<Rightarrow> Ok ws
      | Some required \<Rightarrow> evaluate_detail required (Option.bind g gpu_cores) GpuCores ws)"

definition evaluate_gpu_memory ::
    "string option \<Rightarrow> gpu_capabilities option \<Rightarrow> findings \<Rightarrow> (findings, host_requirement_error) result" where
  "evaluate_gpu_memory memory g ws =
     (case memory of None \<Rightarrow> Ok ws
      | Some s \<Rightarrow> and_then (ok_or (unmet_error GpuMemory) (byte_quantity s)) (\<lambda>required.
          evaluate_detail required (Option.bind g gpu_memory_bytes) GpuMemory ws))"

definition evaluate_gpu ::
    "gpu_requirement option \<Rightarrow> gpu_capabilities option measured \<Rightarrow> findings \<Rightarrow>
      (gpu_access_intent \<times> findings, host_requirement_error) result" where
  "evaluate_gpu requirement m ws =
     (case requirement of
        None \<Rightarrow> Ok (NoGpu, ws)
      | Some GpuNotRequired \<Rightarrow> Ok (NoGpu, ws)
      | Some GpuOptional \<Rightarrow>
          (case m of
             Reliable (Some _) \<Rightarrow> Ok (GpuRequested, ws)
           | Reliable None \<Rightarrow> Ok (NoGpu, ws @ [HostRequirementWarning Gpu OptionalGpuUnavailable])
           | Unknown reason \<Rightarrow>
               Ok (NoGpu, ws @ [HostRequirementWarning Gpu (OptionalGpuUnknown reason)]))
      | Some GpuRequired \<Rightarrow> map_ok (\<lambda>(_, ws). (GpuRequested, ws)) (require_gpu m ws)
      | Some (GpuDetailed cores memory) \<Rightarrow>
          and_then (require_gpu m ws) (\<lambda>(g, ws).
          and_then (evaluate_gpu_cores cores g ws) (\<lambda>ws.
          and_then (evaluate_gpu_memory memory g ws) (\<lambda>ws. Ok (GpuRequested, ws)))))"

definition evaluate_bytes ::
    "string option \<Rightarrow> 64 word measured \<Rightarrow> host_resource \<Rightarrow> findings \<Rightarrow>
      (findings, host_requirement_error) result" where
  "evaluate_bytes requirement m resource ws =
     (case requirement of None \<Rightarrow> Ok ws
      | Some s \<Rightarrow> and_then (ok_or (unmet_error resource) (byte_quantity s)) (\<lambda>required.
          evaluate_scalar required m resource ws))"

definition evaluate_host_requirements ::
    "host_requirements option \<Rightarrow> host_capabilities \<Rightarrow>
      (host_requirement_evaluation, host_requirement_error) result" where
  "evaluate_host_requirements requirements capabilities =
     (case requirements of
        None \<Rightarrow> Ok \<lparr>warnings = [], gpu_access = NoGpu\<rparr>
      | Some r \<Rightarrow>
          and_then (case req_cpus r of None \<Rightarrow> Ok []
            | Some required \<Rightarrow> evaluate_scalar required (cpus capabilities) Cpu []) (\<lambda>ws.
          and_then (evaluate_bytes (req_memory r) (memory_bytes capabilities) Memory ws) (\<lambda>ws.
          and_then (evaluate_bytes (req_storage r) (storage_bytes capabilities) Storage ws) (\<lambda>ws.
          map_ok (\<lambda>(access, ws). \<lparr>warnings = ws, gpu_access = access\<rparr>)
            (evaluate_gpu (req_gpu r) (gpu capabilities) ws)))))"

section \<open>What evidence proves\<close>

definition scalar_unmet :: "64 word option \<Rightarrow> 64 word measured \<Rightarrow> bool" where
  "scalar_unmet n m \<longleftrightarrow> is_some_and n (\<lambda>n. case m of Reliable a \<Rightarrow> a < n | Unknown _ \<Rightarrow> False)"

text \<open>A quantity that cannot be represented in 64 bits is unmet whatever is measured.\<close>

definition bytes_unmet :: "string option \<Rightarrow> 64 word measured \<Rightarrow> bool" where
  "bytes_unmet s m \<longleftrightarrow>
     is_some_and s (\<lambda>s. byte_quantity s = None \<or> scalar_unmet (byte_quantity s) m)"

definition exposed :: "(gpu_capabilities \<Rightarrow> 64 word option) \<Rightarrow> gpu_capabilities option \<Rightarrow> 64 word measured" where
  "exposed f g = (case Option.bind g f of Some n \<Rightarrow> Reliable n | None \<Rightarrow> Unknown Unmeasurable)"

definition present :: "gpu_capabilities option measured \<Rightarrow> gpu_capabilities option" where
  "present m = (case m of Reliable g \<Rightarrow> g | Unknown _ \<Rightarrow> None)"

abbreviation detail :: "(gpu_capabilities \<Rightarrow> 64 word option) \<Rightarrow> host_capabilities \<Rightarrow> 64 word measured" where
  "detail f c \<equiv> exposed f (present (gpu c))"

definition detailed_cores :: "host_requirements \<Rightarrow> 64 word option" where
  "detailed_cores r = (case req_gpu r of Some (GpuDetailed cores _) \<Rightarrow> cores | _ \<Rightarrow> None)"

definition detailed_memory :: "host_requirements \<Rightarrow> string option" where
  "detailed_memory r = (case req_gpu r of Some (GpuDetailed _ memory) \<Rightarrow> memory | _ \<Rightarrow> None)"

definition needs_gpu :: "host_requirements \<Rightarrow> bool" where
  "needs_gpu r = (case req_gpu r of Some GpuRequired \<Rightarrow> True | Some (GpuDetailed _ _) \<Rightarrow> True | _ \<Rightarrow> False)"

primrec proved_unmet :: "host_requirements \<Rightarrow> host_capabilities \<Rightarrow> host_resource \<Rightarrow> bool" where
  "proved_unmet r c Cpu = scalar_unmet (req_cpus r) (cpus c)"
| "proved_unmet r c Memory = bytes_unmet (req_memory r) (memory_bytes c)"
| "proved_unmet r c Storage = bytes_unmet (req_storage r) (storage_bytes c)"
| "proved_unmet r c Gpu = (needs_gpu r \<and> gpu c = Reliable None)"
| "proved_unmet r c GpuCores = scalar_unmet (detailed_cores r) (detail gpu_cores c)"
| "proved_unmet r c GpuMemory = bytes_unmet (detailed_memory r) (detail gpu_memory_bytes c)"

definition scalar_met :: "64 word option \<Rightarrow> 64 word measured \<Rightarrow> bool" where
  "scalar_met n m \<longleftrightarrow> (case n of None \<Rightarrow> True
     | Some n \<Rightarrow> (case m of Reliable a \<Rightarrow> n \<le> a | Unknown _ \<Rightarrow> False))"

definition bytes_met :: "string option \<Rightarrow> 64 word measured \<Rightarrow> bool" where
  "bytes_met s m \<longleftrightarrow> (case s of None \<Rightarrow> True
     | Some s \<Rightarrow> byte_quantity s \<noteq> None \<and> scalar_met (byte_quantity s) m)"

definition gpu_met :: "host_requirements \<Rightarrow> host_capabilities \<Rightarrow> bool" where
  "gpu_met r c \<longleftrightarrow> (case req_gpu r of None \<Rightarrow> True | Some GpuNotRequired \<Rightarrow> True
     | _ \<Rightarrow> (case gpu c of Reliable (Some _) \<Rightarrow> True | _ \<Rightarrow> False))"

definition proved_met :: "host_requirements \<Rightarrow> host_capabilities \<Rightarrow> bool" where
  "proved_met r c \<longleftrightarrow> scalar_met (req_cpus r) (cpus c) \<and> bytes_met (req_memory r) (memory_bytes c) \<and>
     bytes_met (req_storage r) (storage_bytes c) \<and> gpu_met r c \<and>
     scalar_met (detailed_cores r) (detail gpu_cores c) \<and>
     bytes_met (detailed_memory r) (detail gpu_memory_bytes c)"

definition gpu_granted :: "host_requirements \<Rightarrow> host_capabilities \<Rightarrow> bool" where
  "gpu_granted r c \<longleftrightarrow> needs_gpu r \<or>
     req_gpu r = Some GpuOptional \<and> (case gpu c of Reliable (Some _) \<Rightarrow> True | _ \<Rightarrow> False)"

lemma scalar_stage:
  "\<exists>ns. (case n of None \<Rightarrow> Ok ws | Some required \<Rightarrow> evaluate_scalar required m res ws) =
     (if scalar_unmet n m then Err (unmet_error res) else Ok (ws @ ns)) \<and>
   (\<not> scalar_unmet n m \<longrightarrow> (ns = [] \<longleftrightarrow> scalar_met n m))"
proof (cases n)
  case (Some k)
  then show ?thesis
    by (cases m) (auto simp: evaluate_scalar_def scalar_unmet_def scalar_met_def not_less)
qed (simp add: scalar_unmet_def scalar_met_def)

lemma bytes_stage:
  "\<exists>ns. evaluate_bytes q m res ws = (if bytes_unmet q m then Err (unmet_error res) else Ok (ws @ ns)) \<and>
   (\<not> bytes_unmet q m \<longrightarrow> (ns = [] \<longleftrightarrow> bytes_met q m))"
proof (cases q)
  case (Some s)
  show ?thesis
  proof (cases "byte_quantity s")
    case (Some b)
    with scalar_stage [where n = "Some b" and ws = ws and m = m and res = res] \<open>q = Some s\<close> show ?thesis
      by (simp add: evaluate_bytes_def bytes_unmet_def bytes_met_def ok_or_def)
  qed (simp add: \<open>q = Some s\<close> evaluate_bytes_def bytes_unmet_def ok_or_def)
qed (simp add: evaluate_bytes_def bytes_unmet_def bytes_met_def)

text \<open>A detail of the GPU is a scalar whose unknown value is noted differently.\<close>

lemma detail_stage:
  "\<exists>ns. evaluate_detail n (Option.bind g f) res ws =
     (if scalar_unmet (Some n) (exposed f g) then Err (unmet_error res) else Ok (ws @ ns)) \<and>
   (\<not> scalar_unmet (Some n) (exposed f g) \<longrightarrow> (ns = [] \<longleftrightarrow> scalar_met (Some n) (exposed f g)))"
  by (cases "Option.bind g f")
    (auto simp: evaluate_detail_def scalar_unmet_def scalar_met_def exposed_def not_less)

lemma cores_stage:
  "\<exists>ns. evaluate_gpu_cores n g ws =
     (if scalar_unmet n (exposed gpu_cores g) then Err (unmet_error GpuCores) else Ok (ws @ ns)) \<and>
   (\<not> scalar_unmet n (exposed gpu_cores g) \<longrightarrow> (ns = [] \<longleftrightarrow> scalar_met n (exposed gpu_cores g)))"
proof (cases n)
  case (Some k)
  with detail_stage [of k g gpu_cores GpuCores ws] show ?thesis by (simp add: evaluate_gpu_cores_def)
qed (simp add: evaluate_gpu_cores_def scalar_unmet_def scalar_met_def)

lemma gpu_memory_stage:
  "\<exists>ns. evaluate_gpu_memory q g ws =
     (if bytes_unmet q (exposed gpu_memory_bytes g) then Err (unmet_error GpuMemory) else Ok (ws @ ns)) \<and>
   (\<not> bytes_unmet q (exposed gpu_memory_bytes g) \<longrightarrow>
      (ns = [] \<longleftrightarrow> bytes_met q (exposed gpu_memory_bytes g)))"
proof (cases q)
  case (Some s)
  show ?thesis
  proof (cases "byte_quantity s")
    case (Some b)
    with detail_stage [of b g gpu_memory_bytes GpuMemory ws] \<open>q = Some s\<close> show ?thesis
      by (simp add: evaluate_gpu_memory_def bytes_unmet_def bytes_met_def ok_or_def)
  qed (simp add: \<open>q = Some s\<close> evaluate_gpu_memory_def bytes_unmet_def ok_or_def)
qed (simp add: evaluate_gpu_memory_def bytes_unmet_def bytes_met_def)

lemma require_gpu_stage:
  "\<exists>ns. require_gpu m ws = (if m = Reliable None then Err (unmet_error Gpu) else Ok (present m, ws @ ns)) \<and>
   (m \<noteq> Reliable None \<longrightarrow> (ns = [] \<longleftrightarrow> present m \<noteq> None))"
proof (cases m)
  case (Reliable g)
  then show ?thesis by (cases g) (auto simp: require_gpu_def present_def)
qed (auto simp: require_gpu_def present_def)

definition resource_order :: "host_resource list" where
  "resource_order = [Cpu, Memory, Storage, Gpu, GpuCores, GpuMemory]"

lemma gpu_met_iff:
  "gpu_met r c \<longleftrightarrow> req_gpu r = None \<or> req_gpu r = Some GpuNotRequired \<or> present (gpu c) \<noteq> None"
  by (auto simp: gpu_met_def present_def split: option.splits gpu_requirement.splits measured.splits)

lemma gpu_stage:
  "\<exists>ns. evaluate_gpu (req_gpu r) (gpu c) ws =
     (case find (proved_unmet r c) [Gpu, GpuCores, GpuMemory] of
        Some res \<Rightarrow> Err (unmet_error res)
      | None \<Rightarrow> Ok (if gpu_granted r c then GpuRequested else NoGpu, ws @ ns)) \<and>
   (find (proved_unmet r c) [Gpu, GpuCores, GpuMemory] = None \<longrightarrow>
     (ns = [] \<longleftrightarrow> gpu_met r c \<and> scalar_met (detailed_cores r) (detail gpu_cores c) \<and>
        bytes_met (detailed_memory r) (detail gpu_memory_bytes c)))"
proof -
  note defs = evaluate_gpu_def gpu_granted_def needs_gpu_def detailed_cores_def detailed_memory_def
    gpu_met_iff
  note trivial = scalar_unmet_def bytes_unmet_def scalar_met_def bytes_met_def
  from require_gpu_stage obtain n0 where
    n0: "require_gpu (gpu c) ws = (if gpu c = Reliable None then Err (unmet_error Gpu)
        else Ok (present (gpu c), ws @ n0))"
    "gpu c \<noteq> Reliable None \<longrightarrow> (n0 = [] \<longleftrightarrow> present (gpu c) \<noteq> None)" by blast
  show ?thesis
  proof (cases "req_gpu r")
    case None
    then show ?thesis by (simp add: defs trivial)
  next
    case (Some g)
    show ?thesis
    proof (cases g)
      case (GpuDetailed cores memory)
      from cores_stage obtain n1 where
        n1: "evaluate_gpu_cores cores (present (gpu c)) (ws @ n0) =
          (if scalar_unmet cores (detail gpu_cores c) then Err (unmet_error GpuCores) else Ok ((ws @ n0) @ n1))"
        "\<not> scalar_unmet cores (detail gpu_cores c) \<longrightarrow> (n1 = [] \<longleftrightarrow> scalar_met cores (detail gpu_cores c))"
        by blast
      from gpu_memory_stage obtain n2 where
        n2: "evaluate_gpu_memory memory (present (gpu c)) ((ws @ n0) @ n1) =
          (if bytes_unmet memory (detail gpu_memory_bytes c) then Err (unmet_error GpuMemory)
           else Ok (((ws @ n0) @ n1) @ n2))"
        "\<not> bytes_unmet memory (detail gpu_memory_bytes c) \<longrightarrow>
           (n2 = [] \<longleftrightarrow> bytes_met memory (detail gpu_memory_bytes c))" by blast
      from Some GpuDetailed n0 n1 n2 show ?thesis
        by (intro exI [of _ "n0 @ n1 @ n2"]) (auto simp: defs)
    next
      case GpuRequired
      with Some n0 show ?thesis by (intro exI [of _ n0]) (auto simp: defs trivial)
    next
      case GpuNotRequired
      with Some show ?thesis by (simp add: defs trivial)
    next
      case GpuOptional
      with Some show ?thesis
        by (auto simp: defs trivial present_def split: measured.splits option.splits)
    qed
  qed
qed

lemma verdict:
  "\<exists>ns. evaluate_host_requirements (Some r) c =
     (case find (proved_unmet r c) resource_order of
        Some res \<Rightarrow> Err (unmet_error res)
      | None \<Rightarrow> Ok \<lparr>warnings = ns, gpu_access = if gpu_granted r c then GpuRequested else NoGpu\<rparr>) \<and>
   (find (proved_unmet r c) resource_order = None \<longrightarrow> (ns = [] \<longleftrightarrow> proved_met r c))"
proof -
  let ?cpu = "scalar_unmet (req_cpus r) (cpus c)"
  let ?mem = "bytes_unmet (req_memory r) (memory_bytes c)"
  let ?sto = "bytes_unmet (req_storage r) (storage_bytes c)"
  obtain n1 where n1: "(case req_cpus r of None \<Rightarrow> Ok [] | Some q \<Rightarrow> evaluate_scalar q (cpus c) Cpu []) =
      (if ?cpu then Err (unmet_error Cpu) else Ok ([] @ n1)) \<and>
      (\<not> ?cpu \<longrightarrow> (n1 = [] \<longleftrightarrow> scalar_met (req_cpus r) (cpus c)))"
    using scalar_stage by (rule exE)
  obtain n2 where n2: "evaluate_bytes (req_memory r) (memory_bytes c) Memory n1 =
      (if ?mem then Err (unmet_error Memory) else Ok (n1 @ n2)) \<and>
      (\<not> ?mem \<longrightarrow> (n2 = [] \<longleftrightarrow> bytes_met (req_memory r) (memory_bytes c)))"
    using bytes_stage by (rule exE)
  obtain n3 where n3: "evaluate_bytes (req_storage r) (storage_bytes c) Storage (n1 @ n2) =
      (if ?sto then Err (unmet_error Storage) else Ok ((n1 @ n2) @ n3)) \<and>
      (\<not> ?sto \<longrightarrow> (n3 = [] \<longleftrightarrow> bytes_met (req_storage r) (storage_bytes c)))"
    using bytes_stage by (rule exE)
  define gpu_unmet where "gpu_unmet = find (proved_unmet r c) [Gpu, GpuCores, GpuMemory]"
  define details where "details \<longleftrightarrow> gpu_met r c \<and> scalar_met (detailed_cores r) (detail gpu_cores c) \<and>
    bytes_met (detailed_memory r) (detail gpu_memory_bytes c)"
  obtain n4 where n4: "evaluate_gpu (req_gpu r) (gpu c) ((n1 @ n2) @ n3) =
      (case gpu_unmet of
         Some res \<Rightarrow> Err (unmet_error res)
       | None \<Rightarrow> Ok (if gpu_granted r c then GpuRequested else NoGpu, ((n1 @ n2) @ n3) @ n4)) \<and>
      (gpu_unmet = None \<longrightarrow> (n4 = [] \<longleftrightarrow> details))"
    unfolding gpu_unmet_def details_def using gpu_stage by (rule exE)
  have f: "find (proved_unmet r c) resource_order =
      (if ?cpu then Some Cpu else if ?mem then Some Memory else if ?sto then Some Storage else gpu_unmet)"
    by (simp add: resource_order_def gpu_unmet_def)
  have "evaluate_host_requirements (Some r) c =
     (case find (proved_unmet r c) resource_order of
        Some res \<Rightarrow> Err (unmet_error res)
      | None \<Rightarrow> Ok \<lparr>warnings = ((n1 @ n2) @ n3) @ n4,
                  gpu_access = if gpu_granted r c then GpuRequested else NoGpu\<rparr>)"
    unfolding f evaluate_host_requirements_def option.case conjunct1 [OF n1]
    using n2 n3 n4 by (cases gpu_unmet) simp_all
  moreover have "find (proved_unmet r c) resource_order = None \<longrightarrow>
      (((n1 @ n2) @ n3) @ n4 = [] \<longleftrightarrow> proved_met r c)"
    unfolding f proved_met_def using n1 n2 n3 n4 by (simp add: details_def)
  ultimately show ?thesis by (intro exI conjI)
qed

definition unit_exponents :: "(string \<times> nat) list" where
  "unit_exponents = [([], 0), (''kb'', 10), (''mb'', 20), (''gb'', 30), (''tb'', 40)]"

lemma takeWhile_digits:
  assumes "\<forall>c \<in> set ds. is_ascii_digit (byte c)" and "u = [] \<or> \<not> is_ascii_digit (byte (hd u))"
  shows "takeWhile (\<lambda>c. is_ascii_digit (byte c)) (ds @ u) = ds"
  using assms by (cases u) (simp_all add: takeWhile_append2)

lemma byte_quantity_eq:
  fixes s :: string
  defines "ds \<equiv> takeWhile (\<lambda>c. is_ascii_digit (byte c)) s"
    and "u \<equiv> dropWhile (\<lambda>c. is_ascii_digit (byte c)) s"
  shows "byte_quantity s = (if ds = [] then None else case map_of unit_exponents u of None \<Rightarrow> None
     | Some k \<Rightarrow> if digits_value ds * 2 ^ k < 2 ^ 64 then Some (of_nat (digits_value ds * 2 ^ k)) else None)"
proof (cases "ds = []")
  case True
  then show ?thesis by (simp add: byte_quantity_def parse_uint_def Let_def ds_def)
next
  case False
  have split: "take (length ds) s = ds" "drop (length ds) s = u"
    unfolding ds_def u_def by (simp_all flip: takeWhile_eq_take dropWhile_eq_drop)
  have "\<forall>c \<in> set ds. is_ascii_digit (byte c)" unfolding ds_def by (auto dest: set_takeWhileD)
  then have p: "parse_uint 64 ds = (if digits_value ds < 2 ^ 64 then Some (digits_value ds) else None)"
    by (rule parse_uint_digits [OF False])
  have m: "(if u = [] then Some 1 else if u = ''kb'' then Some (2 ^ 10) else if u = ''mb'' then Some (2 ^ 20)
      else if u = ''gb'' then Some (2 ^ 30) else if u = ''tb'' then Some (2 ^ 40) else None) =
      map_option (\<lambda>k. 2 ^ k :: nat) (map_of unit_exponents u)"
    by (simp add: unit_exponents_def)
  have small: "digits_value ds < 2 ^ 64" if "digits_value ds * 2 ^ k < 2 ^ 64" for k :: nat
    using that by (rule le_less_trans [rotated]) simp
  have "byte_quantity s = (case parse_uint 64 ds of None \<Rightarrow> None | Some number \<Rightarrow>
      (case map_option (\<lambda>k. 2 ^ k :: nat) (map_of unit_exponents u) of None \<Rightarrow> None
       | Some m \<Rightarrow> if number * m < 2 ^ 64 then Some (of_nat (number * m)) else None))"
    unfolding byte_quantity_def ds_def [symmetric] Let_def split m ..
  then show ?thesis
    unfolding p using False small by (cases "map_of unit_exponents u") (simp_all split: if_split)
qed

section \<open>Properties\<close>

text \<open>C22: the evaluation fails exactly when reliable evidence proves a configured requirement unmet
  (or a byte quantity cannot be represented), naming the first such resource in the order of the
  properties; otherwise it reports no warning exactly when reliable evidence proves every
  configured requirement met, and asks for a GPU exactly when one is required, or is optional
  and reliably present.\<close>

theorem host_requirements_verdict:
  "case evaluate_host_requirements (Some r) c of
     Err e \<Rightarrow> find (proved_unmet r c) [Cpu, Memory, Storage, Gpu, GpuCores, GpuMemory] =
         Some (error_resource e) \<and> error_path e = property_path (error_resource e)
   | Ok ev \<Rightarrow> find (proved_unmet r c) [Cpu, Memory, Storage, Gpu, GpuCores, GpuMemory] = None \<and>
       (is_proved_met ev \<longleftrightarrow> proved_met r c) \<and> (gpu_access ev = GpuRequested \<longleftrightarrow> gpu_granted r c)"
proof -
  obtain ns where v: "evaluate_host_requirements (Some r) c =
     (case find (proved_unmet r c) resource_order of
        Some res \<Rightarrow> Err (unmet_error res)
      | None \<Rightarrow> Ok \<lparr>warnings = ns, gpu_access = if gpu_granted r c then GpuRequested else NoGpu\<rparr>) \<and>
    (find (proved_unmet r c) resource_order = None \<longrightarrow> (ns = [] \<longleftrightarrow> proved_met r c))"
    using verdict by (rule exE)
  then show ?thesis
    unfolding resource_order_def [symmetric]
    by (cases "find (proved_unmet r c) resource_order") (auto simp: unmet_error_def is_proved_met_def)
qed

text \<open>C23: a byte quantity is decimal digits followed by nothing or by one of the units, and its value
  is the exact product; a product that does not fit in 64 bits is refused, never wrapped.\<close>

theorem byte_quantity_exact:
  "byte_quantity s = Some b \<longleftrightarrow>
     (\<exists>ds u k. s = ds @ u \<and> ds \<noteq> [] \<and> list_all (\<lambda>c. is_ascii_digit (byte c)) ds \<and>
        (u, k) \<in> set unit_exponents \<and> digits_value ds * 2 ^ k = unat b)"
proof -
  let ?D = "\<lambda>c. is_ascii_digit (byte c)"
  let ?ds = "takeWhile ?D s" and ?u = "dropWhile ?D s"
  have unit: "map_of unit_exponents u = Some k \<longleftrightarrow> (u, k) \<in> set unit_exponents" for u k
    by (rule map_of_eq_Some_iff) (simp add: unit_exponents_def)
  have b: "n = unat b" if "of_nat n = b" "n < 2 ^ 64" for n
    using that by (auto simp: unat_of_nat)
  show ?thesis
  proof
    assume "byte_quantity s = Some b"
    then obtain k where k: "?ds \<noteq> []" "map_of unit_exponents ?u = Some k"
      "digits_value ?ds * 2 ^ k < 2 ^ 64" "of_nat (digits_value ?ds * 2 ^ k) = b"
      unfolding byte_quantity_eq by (simp split: if_splits option.splits)
    have "list_all ?D ?ds" by (auto simp: list_all_iff dest: set_takeWhileD)
    with k b [OF k(4,3)] show "\<exists>ds u k. s = ds @ u \<and> ds \<noteq> [] \<and> list_all ?D ds \<and>
        (u, k) \<in> set unit_exponents \<and> digits_value ds * 2 ^ k = unat b"
      unfolding unit by (intro exI [of _ ?ds] exI [of _ ?u] exI [of _ k]) simp
  next
    assume "\<exists>ds u k. s = ds @ u \<and> ds \<noteq> [] \<and> list_all ?D ds \<and> (u, k) \<in> set unit_exponents \<and>
        digits_value ds * 2 ^ k = unat b"
    then obtain ds u k where s: "s = ds @ u" "ds \<noteq> []" "list_all ?D ds"
      "(u, k) \<in> set unit_exponents" "digits_value ds * 2 ^ k = unat b" by blast
    have "u = [] \<or> \<not> ?D (hd u)" using s(4) by (auto simp: unit_exponents_def is_ascii_digit_def)
    with s(3) have ds: "?ds = ds" unfolding s(1) by (intro takeWhile_digits) (simp_all add: list_all_iff)
    then have u: "?u = u" using takeWhile_dropWhile_id [of ?D s] unfolding s(1) by simp
    have "unat b < 2 ^ 64" using unsigned_less [of b, where ?'a = nat] by simp
    then show "byte_quantity s = Some b"
      unfolding byte_quantity_eq ds u using s(2,4,5) unit [of u k] by simp
  qed
qed

end
