(* ===== verification/Metadata.thy ===== *)
theory Metadata
  imports Host_Requirements
begin

text \<open>
  \<^verbatim>\<open>crates/cdenv-devcontainer/src/metadata.rs\<close>: merging of inspected image metadata, in the order
  supplied, with the repository configuration last. The locals that \<^verbatim>\<open>merge_image_metadata\<close> hands
  to \<^verbatim>\<open>merge_common\<close> by mutable reference are the record \<open>merge_state\<close>. Every property of
  the result is characterised over the whole sequence of contributions, and merging of host
  requirements is shown to be the conjunction of what the contributions require.
\<close>

section \<open>Contributions\<close>

record image_metadata =
  metadata_source :: string
  metadata_common :: raw_common
  metadata_entrypoint :: "string option"
  metadata_override_command :: "bool option"
  metadata_shutdown_action :: "shutdown_action option"

datatype metadata_error =
    MetadataInvalidType string string string
  | MetadataUnknownProperty string string
  | MetadataNormalize string
  | MetadataParse string string
  | MetadataValidation string string string
  | InvalidMount string string
  | InvalidRequirement string string

record effective_lifecycle =
  el_initialize :: "raw_command list"
  el_on_create :: "raw_command list"
  el_update_content :: "raw_command list"
  el_post_create :: "raw_command list"
  el_post_start :: "raw_command list"
  el_post_attach :: "raw_command list"

record effective_metadata =
  eff_init :: "bool option"
  eff_privileged :: "bool option"
  eff_cap_add :: "string list"
  eff_security_opt :: "string list"
  eff_entrypoints :: "string list"
  eff_mounts :: "raw_mount list"
  eff_lifecycle :: effective_lifecycle
  eff_container_user :: "string option"
  eff_remote_user :: "string option"
  eff_user_env_probe :: "user_env_probe option"
  eff_update_remote_user_uid :: "bool option"
  eff_override_command :: "bool option"
  eff_wait_for :: "wait_for option"
  eff_shutdown_action :: "shutdown_action option"
  eff_container_env :: "(string, string) btree"
  eff_remote_env :: "(string, string option) btree"
  eff_ports_attributes :: "(string, port_attributes) btree"
  eff_other_ports_attributes :: "port_attributes option"
  eff_forward_ports :: "forward_port list"
  eff_host_requirements :: "host_requirements option"
  eff_customizations :: "(string, json) btree list"

section \<open>Helpers\<close>

text \<open>The seen set of \<^verbatim>\<open>stable_extend\<close> always holds exactly the entries of the output.\<close>

fun stable_extend :: "string list \<Rightarrow> string list \<Rightarrow> string list" where
  "stable_extend out [] = out"
| "stable_extend out (v # vs) = stable_extend (if v \<in> set out then out else out @ [v]) vs"

definition replace_if_some :: "'a option \<Rightarrow> 'a option \<Rightarrow> 'a option" where
  "replace_if_some out v = (case v of None \<Rightarrow> out | Some x \<Rightarrow> Some x)"

definition push_if_some :: "'a list \<Rightarrow> 'a option \<Rightarrow> 'a list" where
  "push_if_some out v = (case v of None \<Rightarrow> out | Some x \<Rightarrow> out @ [x])"

definition append_lifecycle :: "effective_lifecycle \<Rightarrow> lifecycle_commands \<Rightarrow> effective_lifecycle" where
  "append_lifecycle out v = \<lparr>
     el_initialize = push_if_some (el_initialize out) (lc_initialize v),
     el_on_create = push_if_some (el_on_create out) (lc_on_create v),
     el_update_content = push_if_some (el_update_content out) (lc_update_content v),
     el_post_create = push_if_some (el_post_create out) (lc_post_create v),
     el_post_start = push_if_some (el_post_start out) (lc_post_start v),
     el_post_attach = push_if_some (el_post_attach out) (lc_post_attach v)\<rparr>"

text \<open>The keyed vectors: the entry of an existing key is replaced in place, a new key is pushed.\<close>

fun upsert :: "'k \<Rightarrow> 'v \<Rightarrow> ('k \<times> 'v) list \<Rightarrow> ('k \<times> 'v) list" where
  "upsert k v [] = [(k, v)]"
| "upsert k v ((a, b) # m) = (if a = k then (a, v) # m else (a, b) # upsert k v m)"

fun string_mount_target :: "string list \<Rightarrow> string option" where
  "string_mount_target [] = None"
| "string_mount_target (field # fs) =
     (case split_once (CHR ''='') field of
        None \<Rightarrow> string_mount_target fs
      | Some (key, target) \<Rightarrow>
          if trim key \<in> {''target'', ''dst'', ''destination''} then Some (trim target)
          else string_mount_target fs)"

definition mount_target :: "raw_mount \<Rightarrow> string option" where
  "mount_target m =
     (case m of
        ObjectMount _ _ target \<Rightarrow> Some target
      | StringMount s \<Rightarrow> string_mount_target (split_on (CHR '','') s))"

definition forward_port_key :: "forward_port \<Rightarrow> string" where
  "forward_port_key p = (case p of ContainerPort n \<Rightarrow> nat_str (unat n) | ServicePort _ n \<Rightarrow> nat_str (unat n))"

fun merge_mounts ::
    "string \<Rightarrow> raw_mount list \<Rightarrow> (string \<times> raw_mount) list \<Rightarrow> ((string \<times> raw_mount) list, metadata_error) result" where
  "merge_mounts source [] out = Ok out"
| "merge_mounts source (m # ms) out =
     (case mount_target m of
        None \<Rightarrow> Err (InvalidMount source ''$.mounts'')
      | Some target \<Rightarrow> merge_mounts source ms (upsert target m out))"

fun merge_forward_ports ::
    "forward_port list \<Rightarrow> (string \<times> forward_port) list \<Rightarrow> (string \<times> forward_port) list" where
  "merge_forward_ports [] out = out"
| "merge_forward_ports (p # ps) out = merge_forward_ports ps (upsert (forward_port_key p) p out)"

section \<open>Host requirements\<close>

definition size_bytes :: "string \<Rightarrow> 64 word option" where
  "size_bytes s =
     (let digits = length (takeWhile (\<lambda>c. is_ascii_digit (byte c)) s)
      in case parse_uint 64 (take digits s) of
           None \<Rightarrow> None
         | Some number \<Rightarrow>
             (let suf = drop digits s;
                  multiplier = (if suf = [] then Some 1 else if suf = ''kb'' then Some (2 ^ 10)
                    else if suf = ''mb'' then Some (2 ^ 20) else if suf = ''gb'' then Some (2 ^ 30)
                    else if suf = ''tb'' then Some (2 ^ 40) else None)
              in case multiplier of
                   None \<Rightarrow> None
                 | Some m \<Rightarrow> if number * m < 2 ^ 64 then Some (of_nat (number * m)) else None))"

definition max_size ::
    "string option \<Rightarrow> string option \<Rightarrow> string \<Rightarrow> string \<Rightarrow> (string option, metadata_error) result" where
  "max_size current next source prop =
     (case next of
        None \<Rightarrow> Ok current
      | Some n \<Rightarrow> and_then (ok_or (InvalidRequirement source prop) (size_bytes n)) (\<lambda>next_bytes.
          (case current of
             None \<Rightarrow> Ok (Some n)
           | Some c \<Rightarrow>
               and_then (ok_or (InvalidRequirement ''earlier metadata'' prop) (size_bytes c)) (\<lambda>current_bytes.
                 Ok (Some (if current_bytes \<le> next_bytes then n else c))))))"

text \<open>\<^verbatim>\<open>Option<u64>::max\<close>: \<open>None\<close> is below every value.\<close>

definition max_option :: "64 word option \<Rightarrow> 64 word option \<Rightarrow> 64 word option" where
  "max_option a b = (case (a, b) of
     (None, _) \<Rightarrow> b | (_, None) \<Rightarrow> a | (Some x, Some y) \<Rightarrow> Some (if x \<le> y then y else x))"

definition gpu_rank :: "gpu_requirement \<Rightarrow> nat" where
  "gpu_rank g = (case g of GpuNotRequired \<Rightarrow> 0 | GpuOptional \<Rightarrow> 1 | GpuRequired \<Rightarrow> 2 | GpuDetailed _ _ \<Rightarrow> 3)"

definition merge_gpu ::
    "gpu_requirement option \<Rightarrow> gpu_requirement option \<Rightarrow> string \<Rightarrow> (gpu_requirement option, metadata_error) result" where
  "merge_gpu current next source =
     (case (current, next) of
        (Some (GpuDetailed a_cores a_memory), Some (GpuDetailed b_cores b_memory)) \<Rightarrow>
          map_ok (\<lambda>m. Some (GpuDetailed (max_option a_cores b_cores) m))
            (max_size a_memory b_memory source ''$.hostRequirements.gpu.memory'')
      | (Some (GpuDetailed a_cores a_memory), Some _) \<Rightarrow> Ok current
      | (Some _, Some (GpuDetailed b_cores b_memory)) \<Rightarrow> Ok next
      | (Some c, Some n) \<Rightarrow> Ok (Some (if gpu_rank c \<le> gpu_rank n then n else c))
      | (Some c, None) \<Rightarrow> Ok current
      | (None, _) \<Rightarrow> Ok next)"

definition validate_requirement_sizes ::
    "host_requirements \<Rightarrow> string \<Rightarrow> (unit, metadata_error) result" where
  "validate_requirement_sizes r source =
     (if is_some_and (req_memory r) (\<lambda>s. size_bytes s = None)
      then Err (InvalidRequirement source ''$.hostRequirements.memory'')
      else if is_some_and (req_storage r) (\<lambda>s. size_bytes s = None)
      then Err (InvalidRequirement source ''$.hostRequirements.storage'')
      else (case req_gpu r of
              Some (GpuDetailed _ (Some s)) \<Rightarrow>
                if size_bytes s = None
                then Err (InvalidRequirement source ''$.hostRequirements.gpu.memory'') else Ok ()
            | _ \<Rightarrow> Ok ()))"

definition merge_requirements ::
    "host_requirements option \<Rightarrow> host_requirements option \<Rightarrow> string \<Rightarrow>
      (host_requirements option, metadata_error) result" where
  "merge_requirements current next source =
     (case (current, next) of
        (Some c, Some n) \<Rightarrow>
          and_then (max_size (req_memory c) (req_memory n) source ''$.hostRequirements.memory'') (\<lambda>memory.
          and_then (max_size (req_storage c) (req_storage n) source ''$.hostRequirements.storage'') (\<lambda>storage.
          and_then (merge_gpu (req_gpu c) (req_gpu n) source) (\<lambda>gpu.
            Ok (Some \<lparr>req_cpus = max_option (req_cpus c) (req_cpus n), req_memory = memory,
                      req_storage = storage, req_gpu = gpu\<rparr>))))
      | (None, None) \<Rightarrow> Ok None
      | (Some r, None) \<Rightarrow> map_ok (\<lambda>_. Some r) (validate_requirement_sizes r source)
      | (None, Some r) \<Rightarrow> map_ok (\<lambda>_. Some r) (validate_requirement_sizes r source))"

section \<open>Merging\<close>

text \<open>The values so far; mounts and forwarded ports are still keyed by target and port.\<close>

record merge_state =
  ms_values :: effective_metadata
  ms_mounts :: "(string \<times> raw_mount) list"
  ms_forward_ports :: "(string \<times> forward_port) list"

definition merge_or :: "bool option \<Rightarrow> bool option \<Rightarrow> bool option" where
  "merge_or out v = (case v of None \<Rightarrow> out | Some b \<Rightarrow> Some (option_or out False \<or> b))"

definition merge_values :: "raw_common \<Rightarrow> host_requirements option \<Rightarrow> effective_metadata \<Rightarrow> effective_metadata" where
  "merge_values c requirements e = e\<lparr>
     eff_init := merge_or (eff_init e) (init c),
     eff_privileged := merge_or (eff_privileged e) (privileged c),
     eff_cap_add := stable_extend (eff_cap_add e) (cap_add c),
     eff_security_opt := stable_extend (eff_security_opt e) (security_opt c),
     eff_lifecycle := append_lifecycle (eff_lifecycle e) (lifecycle c),
     eff_container_user := replace_if_some (eff_container_user e) (container_user c),
     eff_remote_user := replace_if_some (eff_remote_user e) (remote_user c),
     eff_user_env_probe := replace_if_some (eff_user_env_probe e) (user_env_probe_of c),
     eff_update_remote_user_uid :=
       replace_if_some (eff_update_remote_user_uid e) (update_remote_user_uid c),
     eff_wait_for := replace_if_some (eff_wait_for e) (wait_for_of c),
     eff_container_env := insert_all bt_insert (container_env c) (eff_container_env e),
     eff_remote_env := insert_all bt_insert (remote_env c) (eff_remote_env e),
     eff_ports_attributes := insert_all bt_insert (ports_attributes c) (eff_ports_attributes e),
     eff_other_ports_attributes :=
       replace_if_some (eff_other_ports_attributes e) (other_ports_attributes c),
     eff_host_requirements := requirements,
     eff_customizations := (if customizations c = [] then eff_customizations e
       else eff_customizations e @ [customizations c])\<rparr>"

definition merge_common ::
    "string \<Rightarrow> raw_common \<Rightarrow> merge_state \<Rightarrow> (merge_state, metadata_error) result" where
  "merge_common source c st =
     (let e = ms_values st in
      and_then (merge_mounts source (mounts c) (ms_mounts st)) (\<lambda>ms.
      and_then (merge_requirements (eff_host_requirements e) (host_requirements_of c) source) (\<lambda>requirements.
        Ok \<lparr>ms_values = merge_values c requirements e,
            ms_mounts = ms,
            ms_forward_ports = merge_forward_ports (forward_ports c) (ms_forward_ports st)\<rparr>)))"

fun merge_contributions :: "image_metadata list \<Rightarrow> merge_state \<Rightarrow> (merge_state, metadata_error) result" where
  "merge_contributions [] st = Ok st"
| "merge_contributions (m # ms) st =
     and_then (merge_common (metadata_source m) (metadata_common m) st) (\<lambda>st.
       let e = ms_values st
       in merge_contributions ms (st\<lparr>ms_values := e\<lparr>
            eff_entrypoints := push_if_some (eff_entrypoints e) (metadata_entrypoint m),
            eff_override_command := replace_if_some (eff_override_command e) (metadata_override_command m),
            eff_shutdown_action := replace_if_some (eff_shutdown_action e) (metadata_shutdown_action m)\<rparr>\<rparr>))"

definition scenario_scalars :: "raw_scenario \<Rightarrow> bool option \<times> shutdown_action option" where
  "scenario_scalars s =
     (case s of
        ImageScenario v \<Rightarrow> (opt_override_command (image_options v), opt_shutdown_action (image_options v))
      | DockerfileScenario v \<Rightarrow>
          (opt_override_command (dockerfile_options v), opt_shutdown_action (dockerfile_options v))
      | ComposeScenario v \<Rightarrow> (compose_override_command v, compose_shutdown_action v))"

definition EffectiveLifecycle_default :: effective_lifecycle where
  "EffectiveLifecycle_default = \<lparr>el_initialize = [], el_on_create = [], el_update_content = [],
     el_post_create = [], el_post_start = [], el_post_attach = []\<rparr>"

definition merge_start :: merge_state where
  "merge_start = \<lparr>ms_values = \<lparr>eff_init = None, eff_privileged = None, eff_cap_add = [],
     eff_security_opt = [], eff_entrypoints = [], eff_mounts = [],
     eff_lifecycle = EffectiveLifecycle_default, eff_container_user = None, eff_remote_user = None,
     eff_user_env_probe = None, eff_update_remote_user_uid = None, eff_override_command = None,
     eff_wait_for = None, eff_shutdown_action = None, eff_container_env = [], eff_remote_env = [],
     eff_ports_attributes = [], eff_other_ports_attributes = None, eff_forward_ports = [],
     eff_host_requirements = None, eff_customizations = []\<rparr>,
     ms_mounts = [], ms_forward_ports = []\<rparr>"

definition merge_image_metadata ::
    "image_metadata list \<Rightarrow> raw_profile \<Rightarrow> (effective_metadata, metadata_error) result" where
  "merge_image_metadata metadata repository =
     and_then (merge_contributions metadata merge_start) (\<lambda>st.
     and_then (merge_common ''repository'' (common repository) st) (\<lambda>st.
       let e = ms_values st;
           (repository_override, repository_shutdown) = scenario_scalars (scenario repository)
       in Ok (e\<lparr>eff_override_command := replace_if_some (eff_override_command e) repository_override,
                eff_shutdown_action := replace_if_some (eff_shutdown_action e) repository_shutdown,
                eff_mounts := map snd (ms_mounts st),
                eff_forward_ports := map snd (ms_forward_ports st)\<rparr>)))"

section \<open>What a sequence of contributions means\<close>

definition last_some :: "'a option list \<Rightarrow> 'a option" where
  "last_some xs = (let ys = filter (\<lambda>x. x \<noteq> None) xs in if ys = [] then None else last ys)"

definition first_occurrences :: "'a list \<Rightarrow> 'a list" where
  "first_occurrences xs = rev (remdups (rev xs))"

text \<open>For each key, in the order of first occurrence, the last element that has it.\<close>

definition keep_last :: "('a \<Rightarrow> 'k) \<Rightarrow> 'a list \<Rightarrow> 'a list" where
  "keep_last f xs = map (\<lambda>k. last (filter (\<lambda>x. f x = k) xs)) (first_occurrences (map f xs))"

lemma last_some_Nil [simp]: "last_some [] = None"
  by (simp add: last_some_def)

lemma last_some_snoc [simp]: "last_some (xs @ [x]) = (if x = None then last_some xs else x)"
  by (simp add: last_some_def Let_def)

lemma foldl_replace: "foldl replace_if_some None xs = last_some xs"
  by (induction xs rule: rev_induct) (auto simp: replace_if_some_def split: option.splits)

lemma foldl_push: "foldl push_if_some [] xs = List.map_filter id xs"
  by (induction xs rule: rev_induct)
    (auto simp: push_if_some_def List.map_filter_def split: option.splits)

lemma foldl_or:
  "foldl merge_or None xs = (if list_all (\<lambda>x. x = None) xs then None else Some (Some True \<in> set xs))"
  by (induction xs rule: rev_induct) (auto simp: merge_or_def option_or_def list_all_iff split: option.splits)

lemma first_occurrences_snoc [simp]:
  "first_occurrences (xs @ [x]) = (if x \<in> set xs then first_occurrences xs else first_occurrences xs @ [x])"
  by (simp add: first_occurrences_def)

lemma set_first_occurrences [simp]: "set (first_occurrences xs) = set xs"
  by (simp add: first_occurrences_def)

lemma distinct_first_occurrences [simp]: "distinct (first_occurrences xs)"
  by (simp add: first_occurrences_def)

lemma first_occurrences_Nil [simp]: "first_occurrences [] = []"
  by (simp add: first_occurrences_def)

lemma stable_extend_first: "stable_extend (first_occurrences xs) ys = first_occurrences (xs @ ys)"
proof (induction ys arbitrary: xs)
  case (Cons y ys)
  from Cons.IH [of "xs @ [y]"] show ?case by simp
qed simp

lemma foldl_stable: "foldl stable_extend [] xss = first_occurrences (concat xss)"
  by (induction xss rule: rev_induct) (simp_all add: stable_extend_first)

lemma upsert_map:
  "distinct ks \<Longrightarrow> upsert k v (map (\<lambda>k. (k, g k)) ks) =
     (if k \<in> set ks then map (\<lambda>a. (a, (g(k := v)) a)) ks else map (\<lambda>k. (k, g k)) ks @ [(k, v)])"
  by (induction ks) auto

definition keyed_last :: "('a \<Rightarrow> 'k) \<Rightarrow> 'a list \<Rightarrow> ('k \<times> 'a) list" where
  "keyed_last f xs = map (\<lambda>k. (k, last (filter (\<lambda>x. f x = k) xs))) (first_occurrences (map f xs))"

lemma keyed_last_Nil [simp]: "keyed_last f [] = []"
  by (simp add: keyed_last_def)

lemma map_snd_keyed_last: "map snd (keyed_last f xs) = keep_last f xs"
  by (simp add: keyed_last_def keep_last_def)

lemma keyed_last_snoc: "keyed_last f (xs @ [x]) = upsert (f x) x (keyed_last f xs)"
  unfolding keyed_last_def
  by (subst upsert_map) (auto simp: fun_upd_def intro!: map_cong)

lemma merge_forward_ports_keyed:
  "merge_forward_ports ps (keyed_last forward_port_key qs) = keyed_last forward_port_key (qs @ ps)"
proof (induction ps arbitrary: qs)
  case (Cons p ps)
  from Cons.IH [of "qs @ [p]"] show ?case by (simp add: keyed_last_snoc)
qed simp

definition mount_key :: "raw_mount \<Rightarrow> string" where
  "mount_key m = option_or (mount_target m) []"

lemma merge_mounts_keyed:
  "merge_mounts source ms (keyed_last mount_key ns) = Ok out \<longleftrightarrow>
     list_all (\<lambda>m. mount_target m \<noteq> None) ms \<and> out = keyed_last mount_key (ns @ ms)"
proof (induction ms arbitrary: ns)
  case (Cons m ms)
  show ?case
  proof (cases "mount_target m")
    case (Some t)
    then have "mount_key m = t" by (simp add: mount_key_def option_or_def)
    with Cons.IH [of "ns @ [m]"] Some show ?thesis by (simp add: keyed_last_snoc)
  qed simp
qed auto

section \<open>Merged requirements\<close>

lemma size_bytes_eq: "size_bytes = byte_quantity"
  by (simp add: size_bytes_def byte_quantity_def fun_eq_iff)

lemma max_size_met:
  assumes "max_size a b source prop = Ok m"
  shows "bytes_met m x \<longleftrightarrow> bytes_met a x \<and> bytes_met b x"
proof (cases b)
  case None
  with assms show ?thesis by (simp add: max_size_def bytes_met_def)
next
  case (Some n)
  show ?thesis
  proof (cases a)
    case None
    with assms Some show ?thesis by (auto simp: max_size_def bytes_met_def)
  next
    case (Some c)
    with assms \<open>b = Some n\<close> obtain nb cb where "byte_quantity n = Some nb" "byte_quantity c = Some cb"
      "m = Some (if cb \<le> nb then n else c)"
      by (auto simp: max_size_def size_bytes_eq ok_or_def split: option.splits)
    with Some \<open>b = Some n\<close> show ?thesis
      by (cases x) (auto simp: bytes_met_def scalar_met_def)
  qed
qed

lemma max_option_met: "scalar_met (max_option a b) x \<longleftrightarrow> scalar_met a x \<and> scalar_met b x"
  by (cases a; cases b; cases x) (auto simp: max_option_def scalar_met_def)

definition gpu_part_met :: "gpu_requirement option \<Rightarrow> host_capabilities \<Rightarrow> bool" where
  "gpu_part_met g c \<longleftrightarrow> (g = None \<or> g = Some GpuNotRequired \<or> present (gpu c) \<noteq> None) \<and>
     (case g of Some (GpuDetailed cores memory) \<Rightarrow>
        scalar_met cores (detail gpu_cores c) \<and> bytes_met memory (detail gpu_memory_bytes c)
      | _ \<Rightarrow> True)"

lemma proved_met_parts:
  "proved_met r c \<longleftrightarrow> scalar_met (req_cpus r) (cpus c) \<and> bytes_met (req_memory r) (memory_bytes c) \<and>
     bytes_met (req_storage r) (storage_bytes c) \<and> gpu_part_met (req_gpu r) c"
  by (auto simp: proved_met_def gpu_part_met_def gpu_met_iff detailed_cores_def detailed_memory_def
      scalar_met_def bytes_met_def split: option.splits gpu_requirement.splits)

lemma merge_gpu_met:
  assumes "merge_gpu a b source = Ok m"
  shows "gpu_part_met m c \<longleftrightarrow> gpu_part_met a c \<and> gpu_part_met b c"
proof (cases a)
  case None
  with assms show ?thesis by (auto simp: merge_gpu_def gpu_part_met_def)
next
  case (Some x)
  show ?thesis
  proof (cases b)
    case None
    with assms Some show ?thesis by (auto simp: merge_gpu_def gpu_part_met_def split: gpu_requirement.splits)
  next
    case (Some y)
    show ?thesis
    proof (cases "(\<exists>p q. x = GpuDetailed p q) \<and> (\<exists>p q. y = GpuDetailed p q)")
      case True
      then obtain p q p' q' where xy: "x = GpuDetailed p q" "y = GpuDetailed p' q'" by blast
      with assms \<open>a = Some x\<close> Some obtain s where
        s: "max_size q q' source ''$.hostRequirements.gpu.memory'' = Ok s"
        "m = Some (GpuDetailed (max_option p p') s)" by (auto simp: merge_gpu_def)
      with xy \<open>a = Some x\<close> Some show ?thesis
        by (auto simp: gpu_part_met_def max_option_met max_size_met [OF s(1)])
    next
      case False
      with assms \<open>a = Some x\<close> Some show ?thesis
        by (cases x; cases y) (auto simp: merge_gpu_def gpu_part_met_def gpu_rank_def)
    qed
  qed
qed

definition requirements_met :: "host_requirements option \<Rightarrow> host_capabilities \<Rightarrow> bool" where
  "requirements_met r c = (case r of None \<Rightarrow> True | Some r \<Rightarrow> proved_met r c)"

lemma merge_requirements_met:
  assumes "merge_requirements a b source = Ok m"
  shows "requirements_met m c \<longleftrightarrow> requirements_met a c \<and> requirements_met b c"
proof (cases a)
  case None
  with assms show ?thesis
    by (auto simp: merge_requirements_def requirements_met_def split: option.splits)
next
  case (Some x)
  show ?thesis
  proof (cases b)
    case None
    with assms Some show ?thesis by (auto simp: merge_requirements_def requirements_met_def)
  next
    case (Some y)
    with assms \<open>a = Some x\<close> obtain me st g where
      p: "max_size (req_memory x) (req_memory y) source ''$.hostRequirements.memory'' = Ok me"
      "max_size (req_storage x) (req_storage y) source ''$.hostRequirements.storage'' = Ok st"
      "merge_gpu (req_gpu x) (req_gpu y) source = Ok g"
      "m = Some \<lparr>req_cpus = max_option (req_cpus x) (req_cpus y), req_memory = me, req_storage = st,
        req_gpu = g\<rparr>"
      by (auto simp: merge_requirements_def)
    with Some \<open>a = Some x\<close> show ?thesis
      by (auto simp: requirements_met_def proved_met_parts max_option_met max_size_met [OF p(1)]
          max_size_met [OF p(2)] merge_gpu_met [OF p(3)])
  qed
qed

section \<open>The invariant of the merge\<close>

definition common_ok :: "raw_common \<Rightarrow> bool" where
  "common_ok c \<longleftrightarrow> bt_ok (container_env c) \<and> bt_ok (remote_env c) \<and> bt_ok (ports_attributes c)"

definition env_of :: "(raw_common \<Rightarrow> (string, 'v) btree) \<Rightarrow> raw_common list \<Rightarrow> string \<Rightarrow> 'v option" where
  "env_of f cs k = last_some (map (\<lambda>c. bt_get (f c) k) cs)"

definition commands_of :: "(lifecycle_commands \<Rightarrow> raw_command option) \<Rightarrow> raw_common list \<Rightarrow> raw_command list" where
  "commands_of f cs = List.map_filter (\<lambda>c. f (lifecycle c)) cs"

definition lifecycle_of :: "raw_common list \<Rightarrow> effective_lifecycle" where
  "lifecycle_of cs = \<lparr>el_initialize = commands_of lc_initialize cs, el_on_create = commands_of lc_on_create cs,
     el_update_content = commands_of lc_update_content cs, el_post_create = commands_of lc_post_create cs,
     el_post_start = commands_of lc_post_start cs, el_post_attach = commands_of lc_post_attach cs\<rparr>"

definition any_of :: "bool option list \<Rightarrow> bool option" where
  "any_of xs = (if list_all (\<lambda>x. x = None) xs then None else Some (Some True \<in> set xs))"

definition merged_scalars :: "raw_common list \<Rightarrow> effective_metadata \<Rightarrow> bool" where
  "merged_scalars cs e \<longleftrightarrow>
     eff_init e = any_of (map init cs) \<and> eff_privileged e = any_of (map privileged cs) \<and>
     eff_cap_add e = first_occurrences (concat (map cap_add cs)) \<and>
     eff_security_opt e = first_occurrences (concat (map security_opt cs)) \<and>
     eff_lifecycle e = lifecycle_of cs \<and>
     eff_container_user e = last_some (map container_user cs) \<and>
     eff_remote_user e = last_some (map remote_user cs) \<and>
     eff_user_env_probe e = last_some (map user_env_probe_of cs) \<and>
     eff_update_remote_user_uid e = last_some (map update_remote_user_uid cs) \<and>
     eff_wait_for e = last_some (map wait_for_of cs) \<and>
     eff_other_ports_attributes e = last_some (map other_ports_attributes cs) \<and>
     eff_customizations e = filter (\<lambda>c. c \<noteq> []) (map customizations cs)"

definition merged_maps :: "raw_common list \<Rightarrow> effective_metadata \<Rightarrow> bool" where
  "merged_maps cs e \<longleftrightarrow>
     bt_ok (eff_container_env e) \<and> bt_ok (eff_remote_env e) \<and> bt_ok (eff_ports_attributes e) \<and>
     bt_get (eff_container_env e) = env_of container_env cs \<and>
     bt_get (eff_remote_env e) = env_of remote_env cs \<and>
     bt_get (eff_ports_attributes e) = env_of ports_attributes cs"

definition merged_keyed :: "raw_common list \<Rightarrow> merge_state \<Rightarrow> bool" where
  "merged_keyed cs st \<longleftrightarrow>
     list_all (\<lambda>m. mount_target m \<noteq> None) (concat (map mounts cs)) \<and>
     ms_mounts st = keyed_last mount_key (concat (map mounts cs)) \<and>
     ms_forward_ports st = keyed_last forward_port_key (concat (map forward_ports cs)) \<and>
     (\<forall>caps. requirements_met (eff_host_requirements (ms_values st)) caps \<longleftrightarrow>
        list_all (\<lambda>c. requirements_met (host_requirements_of c) caps) cs)"

lemma any_of_snoc: "merge_or (any_of xs) x = any_of (xs @ [x])"
  by (cases x) (auto simp: merge_or_def any_of_def option_or_def list_all_iff)

lemma last_some_step: "replace_if_some (last_some xs) x = last_some (xs @ [x])"
  by (cases x) (auto simp: replace_if_some_def)

lemma lifecycle_of_snoc: "append_lifecycle (lifecycle_of cs) (lifecycle c) = lifecycle_of (cs @ [c])"
proof -
  have "push_if_some (commands_of f cs) (f (lifecycle c)) = commands_of f (cs @ [c])" for f
    by (cases "f (lifecycle c)") (simp_all add: push_if_some_def commands_of_def List.map_filter_def)
  then show ?thesis by (simp add: append_lifecycle_def lifecycle_of_def)
qed

lemma merge_common_Ok:
  assumes "merge_common source c st = Ok st'"
  obtains ms req where "merge_mounts source (mounts c) (ms_mounts st) = Ok ms"
    "merge_requirements (eff_host_requirements (ms_values st)) (host_requirements_of c) source = Ok req"
    "ms_mounts st' = ms" "ms_values st' = merge_values c req (ms_values st)"
    "ms_forward_ports st' = merge_forward_ports (forward_ports c) (ms_forward_ports st)"
  using assms by (auto simp: merge_common_def Let_def)

lemma merge_values_scalars:
  "merged_scalars cs e \<Longrightarrow> merged_scalars (cs @ [c]) (merge_values c req e)"
  by (simp add: merged_scalars_def merge_values_def any_of_snoc last_some_step lifecycle_of_snoc
      stable_extend_first del: last_some_snoc)

lemma env_step:
  assumes "bt_ok m" and "bt_ok (f c)" and "bt_get m = env_of f cs"
  shows "bt_ok (insert_all bt_insert (f c) m) \<and>
    bt_get (insert_all bt_insert (f c) m) = env_of f (cs @ [c])"
proof -
  have "bt_get (insert_all bt_insert (f c) m) = bt_get m ++ bt_get (f c)"
    using bt_ok_distinct [OF assms(2)] by (rule bt.get_insert_all_distinct [OF assms(1)])
  then show ?thesis
    using assms by (auto simp: env_of_def map_add_def bt.ok_insert_all fun_eq_iff split: option.splits)
qed

lemma merge_values_maps:
  "merged_maps cs e \<Longrightarrow> common_ok c \<Longrightarrow> merged_maps (cs @ [c]) (merge_values c req e)"
  by (simp add: merged_maps_def merge_values_def common_ok_def env_step)

lemma merge_common_keyed:
  assumes "merged_keyed cs st" and "merge_common source c st = Ok st'"
  shows "merged_keyed (cs @ [c]) st'"
proof -
  from assms(1) have
    st: "list_all (\<lambda>m. mount_target m \<noteq> None) (concat (map mounts cs))"
      "ms_mounts st = keyed_last mount_key (concat (map mounts cs))"
      "ms_forward_ports st = keyed_last forward_port_key (concat (map forward_ports cs))" and
    met: "requirements_met (eff_host_requirements (ms_values st)) caps \<longleftrightarrow>
      list_all (\<lambda>c. requirements_met (host_requirements_of c) caps) cs" for caps
    unfolding merged_keyed_def by blast+
  from assms(2) show ?thesis
  proof (rule merge_common_Ok)
    fix ms req
    assume ms: "merge_mounts source (mounts c) (ms_mounts st) = Ok ms" and
      req: "merge_requirements (eff_host_requirements (ms_values st)) (host_requirements_of c) source = Ok req" and
      st': "ms_mounts st' = ms" "ms_values st' = merge_values c req (ms_values st)"
        "ms_forward_ports st' = merge_forward_ports (forward_ports c) (ms_forward_ports st)"
    from ms have "list_all (\<lambda>m. mount_target m \<noteq> None) (mounts c) \<and>
        ms = keyed_last mount_key (concat (map mounts cs) @ mounts c)"
      unfolding st merge_mounts_keyed .
    moreover have "eff_host_requirements (ms_values st') = req" by (simp add: st' merge_values_def)
    ultimately show ?thesis
      unfolding merged_keyed_def st'(1,3) st(3)
      using st(1) by (simp add: merge_requirements_met [OF req] met merge_forward_ports_keyed)
  qed
qed

definition merged :: "raw_common list \<Rightarrow> merge_state \<Rightarrow> bool" where
  "merged cs st \<longleftrightarrow> merged_scalars cs (ms_values st) \<and>
     (list_all common_ok cs \<longrightarrow> merged_maps cs (ms_values st)) \<and> merged_keyed cs st"

lemma merged_step: "merged cs st \<Longrightarrow> merge_common source c st = Ok st' \<Longrightarrow> merged (cs @ [c]) st'"
  by (frule merge_common_keyed [rotated])
    (auto simp: merged_def merge_values_scalars merge_values_maps elim: merge_common_Ok)

lemma merged_start: "merged [] merge_start"
  by (simp add: merged_def merged_scalars_def merged_maps_def merged_keyed_def merge_start_def any_of_def
      lifecycle_of_def EffectiveLifecycle_default_def commands_of_def List.map_filter_def env_of_def
      requirements_met_def fun_eq_iff)

text \<open>The three values that contributions carry outside their common part.\<close>

definition carried :: "image_metadata list \<Rightarrow> effective_metadata \<Rightarrow> bool" where
  "carried ms e \<longleftrightarrow> eff_entrypoints e = List.map_filter metadata_entrypoint ms \<and>
     eff_override_command e = last_some (map metadata_override_command ms) \<and>
     eff_shutdown_action e = last_some (map metadata_shutdown_action ms)"

lemma merge_common_carried:
  "merge_common source c st = Ok st' \<Longrightarrow> carried ms (ms_values st') = carried ms (ms_values st)"
  by (erule merge_common_Ok) (simp add: carried_def merge_values_def)

lemma merged_frame:
  "merged cs (st\<lparr>ms_values := (ms_values st)\<lparr>eff_entrypoints := a, eff_override_command := b,
     eff_shutdown_action := c\<rparr>\<rparr>) = merged cs st"
  by (simp add: merged_def merged_scalars_def merged_maps_def merged_keyed_def)

lemma merge_contributions_merged:
  "merged cs st \<Longrightarrow> carried ns (ms_values st) \<Longrightarrow> merge_contributions ms st = Ok st' \<Longrightarrow>
     merged (cs @ map metadata_common ms) st' \<and> carried (ns @ ms) (ms_values st')"
proof (induction ms arbitrary: cs ns st)
  case Nil
  then show ?case by simp
next
  case (Cons m ms)
  from Cons.prems(3) obtain st1 where st1: "merge_common (metadata_source m) (metadata_common m) st = Ok st1"
    and rest: "merge_contributions ms (st1\<lparr>ms_values := (ms_values st1)\<lparr>
      eff_entrypoints := push_if_some (eff_entrypoints (ms_values st1)) (metadata_entrypoint m),
      eff_override_command := replace_if_some (eff_override_command (ms_values st1)) (metadata_override_command m),
      eff_shutdown_action := replace_if_some (eff_shutdown_action (ms_values st1)) (metadata_shutdown_action m)\<rparr>\<rparr>)
      = Ok st'" (is "merge_contributions ms ?st2 = _")
    by (auto simp: Let_def)
  have "carried ns (ms_values st1)" using merge_common_carried [OF st1] Cons.prems(2) by simp
  then have "carried (ns @ [m]) (ms_values ?st2)"
    by (cases "metadata_entrypoint m")
      (simp_all add: carried_def push_if_some_def last_some_step List.map_filter_def)
  moreover have "merged (cs @ [metadata_common m]) ?st2"
    unfolding merged_frame using merged_step [OF Cons.prems(1) st1] .
  ultimately show ?case using Cons.IH [OF _ _ rest] by fastforce
qed

lemma merge_image_metadata_merged:
  assumes "merge_image_metadata md repository = Ok e"
  obtains st a b where "merged (map metadata_common md @ [common repository]) st"
    "carried md ((ms_values st)\<lparr>eff_override_command := a, eff_shutdown_action := b\<rparr>)"
    "e = (ms_values st)\<lparr>
       eff_override_command := replace_if_some a (fst (scenario_scalars (scenario repository))),
       eff_shutdown_action := replace_if_some b (snd (scenario_scalars (scenario repository))),
       eff_mounts := map snd (ms_mounts st), eff_forward_ports := map snd (ms_forward_ports st)\<rparr>"
proof -
  from assms obtain st1 st2 where
    st1: "merge_contributions md merge_start = Ok st1" and
    st2: "merge_common ''repository'' (common repository) st1 = Ok st2" and
    e: "e = (ms_values st2)\<lparr>
       eff_override_command := replace_if_some (eff_override_command (ms_values st2))
         (fst (scenario_scalars (scenario repository))),
       eff_shutdown_action := replace_if_some (eff_shutdown_action (ms_values st2))
         (snd (scenario_scalars (scenario repository))),
       eff_mounts := map snd (ms_mounts st2), eff_forward_ports := map snd (ms_forward_ports st2)\<rparr>"
    by (auto simp: merge_image_metadata_def Let_def case_prod_beta)
  have "carried [] (ms_values merge_start)" by (simp add: carried_def merge_start_def List.map_filter_def)
  from merge_contributions_merged [OF merged_start this st1]
  have m: "merged (map metadata_common md) st1" "carried md (ms_values st1)" by simp_all
  have "carried md (ms_values st2)" using merge_common_carried [OF st2] m(2) by simp
  then have "carried md ((ms_values st2)\<lparr>eff_override_command := eff_override_command (ms_values st2),
      eff_shutdown_action := eff_shutdown_action (ms_values st2)\<rparr>)"
    by (simp add: carried_def)
  from that [OF merged_step [OF m(1) st2] this e] show thesis .
qed

definition sample_image :: image_metadata where
  "sample_image = \<lparr>metadata_source = ''image'', metadata_common = RawCommon_default\<lparr>init := Some True, cap_add := [''NET_ADMIN''],
       container_user := Some ''root'', container_env := [(''EDITOR'', ''vi''), (''LANG'', ''C'')],
       host_requirements_of := Some \<lparr>req_cpus = Some 8, req_memory = None, req_storage = None,
         req_gpu = None\<rparr>\<rparr>,
     metadata_entrypoint = None, metadata_override_command = Some False, metadata_shutdown_action = None\<rparr>"

definition sample_profile :: raw_profile where
  "sample_profile = \<lparr>schema_uri = None, profile_name = None, scenario = ImageScenario \<lparr>image = ''debian'', image_options =
       \<lparr>opt_workspace_folder = None, opt_workspace_mount = None, opt_run_args = [],
        opt_shutdown_action = None, opt_override_command = None\<rparr>\<rparr>,
     common = RawCommon_default\<lparr>init := Some False, cap_add := [''NET_ADMIN'', ''SYS_PTRACE''],
       container_user := Some ''dev'', container_env := [(''EDITOR'', ''vim'')]\<rparr>\<rparr>"

definition sample_host :: "64 word \<Rightarrow> host_capabilities" where
  "sample_host n = \<lparr>cpus = Reliable n, memory_bytes = Unknown Unmeasurable,
     storage_bytes = Unknown Unmeasurable, gpu = Unknown ProbeUnavailable\<rparr>"

lemmas sample_defs = sample_image_def sample_profile_def sample_host_def RawCommon_default_def
  LifecycleCommands_default_def

lemma sample_merge: "\<exists>e. merge_image_metadata [sample_image] sample_profile = Ok e"
  by (simp add: merge_image_metadata_def merge_common_def merge_requirements_def merge_values_def
      merge_start_def validate_requirement_sizes_def is_some_and_def sample_defs case_prod_beta Let_def)

section \<open>Properties\<close>





text \<open>Environment variables and port attributes are maps in key order whose value at each name is the one
  of the last contribution that has that name.\<close>

theorem merged_environment:
  assumes "merge_image_metadata md repository = Ok e"
    and "list_all common_ok (map metadata_common md @ [common repository])"
  shows "merged_maps (map metadata_common md @ [common repository]) e"
  using assms(1) by (rule merge_image_metadata_merged)
    (use assms(2) in \<open>simp add: merged_def merged_maps_def\<close>)

theorem merged_environment_witness:
  "\<exists>e. merge_image_metadata [sample_image] sample_profile = Ok e \<and>
     bt_get (eff_container_env e) ''EDITOR'' = Some ''vim''"
proof -
  obtain e where e: "merge_image_metadata [sample_image] sample_profile = Ok e"
    using sample_merge by (rule exE)
  have "list_all common_ok (map metadata_common [sample_image] @ [common sample_profile])"
    by (simp add: sample_defs common_ok_def bt_ok_def)
  from merged_environment [OF e this]
  have "bt_get (eff_container_env e) ''EDITOR'' =
      env_of container_env [metadata_common sample_image, common sample_profile] ''EDITOR''"
    by (simp add: merged_maps_def)
  also have "\<dots> = Some ''vim''" by (simp add: env_of_def last_some_def sample_defs)
  finally show ?thesis using e by blast
qed

text \<open>A detailed GPU memory that no byte count can represent is refused when only one contribution has
  requirements, and accepted when an earlier contribution has requirements of another kind.\<close>

lemma unrepresentable_gpu_memory_accepted:
  defines "r \<equiv> \<lparr>req_cpus = None, req_memory = None, req_storage = None,
    req_gpu = Some (GpuDetailed None (Some ''99999999tb''))\<rparr>"
  shows "merge_requirements None (Some r) source =
      Err (InvalidRequirement source ''$.hostRequirements.gpu.memory'')"
    and "merge_requirements (Some \<lparr>req_cpus = Some 1, req_memory = None, req_storage = None,
      req_gpu = None\<rparr>) (Some r) source = Ok (Some (r\<lparr>req_cpus := Some 1\<rparr>))"
  unfolding r_def
  by (simp_all add: merge_requirements_def validate_requirement_sizes_def size_bytes_def max_size_def
      merge_gpu_def max_option_def is_some_and_def parse_uint_def Let_def is_ascii_digit_def
      digits_value_def)

end
