(* ===== verification/Lifecycle.thy ===== *)
theory Lifecycle
  imports Metadata Substitution
begin

text \<open>
  \<^verbatim>\<open>crates/cdenv-devcontainer/src/lifecycle.rs\<close>: the stages of a lifecycle, the plan that captures the
  commands of every stage with host variables substituted, and the durable checkpoint of the
  one-time stages. The checkpoint is an instance of the \<open>stateful\<close> contract, and the calls it
  accepts are shown to be exactly the runs of the one-time sequence.
\<close>

section \<open>Stages\<close>

datatype lifecycle_stage = Initialize | OnCreate | UpdateContent | PostCreate | PostStart | PostAttach

text \<open>The derived \<^verbatim>\<open>Ord\<close> is the order of the constructors.\<close>

primrec stage_index :: "lifecycle_stage \<Rightarrow> nat" where
  "stage_index Initialize = 0"
| "stage_index OnCreate = 1"
| "stage_index UpdateContent = 2"
| "stage_index PostCreate = 3"
| "stage_index PostStart = 4"
| "stage_index PostAttach = 5"

lemma stage_index_inj: "stage_index a = stage_index b \<longleftrightarrow> a = b"
  by (cases a; cases b) simp_all

instantiation lifecycle_stage :: linorder
begin

definition less_eq_lifecycle_stage :: "lifecycle_stage \<Rightarrow> lifecycle_stage \<Rightarrow> bool" where
  "less_eq_lifecycle_stage a b \<longleftrightarrow> stage_index a \<le> stage_index b"

definition less_lifecycle_stage :: "lifecycle_stage \<Rightarrow> lifecycle_stage \<Rightarrow> bool" where
  "less_lifecycle_stage a b \<longleftrightarrow> stage_index a < stage_index b"

instance
  by standard (auto simp: less_eq_lifecycle_stage_def less_lifecycle_stage_def stage_index_inj)

end

datatype lifecycle_trigger = BeforeContainerMutation | NewGeneration | SuccessfulStart | NewTransport

definition is_one_time :: "lifecycle_stage \<Rightarrow> bool" where
  "is_one_time s \<longleftrightarrow> s = OnCreate \<or> s = UpdateContent \<or> s = PostCreate"

definition background_eligible :: "lifecycle_stage \<Rightarrow> bool" where
  "background_eligible s \<longleftrightarrow> s = OnCreate \<or> s = UpdateContent \<or> s = PostCreate \<or> s = PostStart"

fun trigger :: "lifecycle_stage \<Rightarrow> lifecycle_trigger" where
  "trigger Initialize = BeforeContainerMutation"
| "trigger PostStart = SuccessfulStart"
| "trigger PostAttach = NewTransport"
| "trigger _ = NewGeneration"

section \<open>The plan\<close>

datatype lifecycle_process = ShellProcess deferred_string | ExecProcess "deferred_string list"

datatype lifecycle_command =
    ProcessCommand lifecycle_process | ParallelProcesses "(string, lifecycle_process) btree"

definition stdin_is_closed :: "lifecycle_command \<Rightarrow> bool" where
  "stdin_is_closed c = (case c of ParallelProcesses _ \<Rightarrow> True | ProcessCommand _ \<Rightarrow> False)"

definition process_requires_container_environment :: "lifecycle_process \<Rightarrow> bool" where
  "process_requires_container_environment p =
     (case p of ShellProcess d \<Rightarrow> requires_container_environment d
      | ExecProcess ds \<Rightarrow> list_ex requires_container_environment ds)"

definition command_requires_container_environment :: "lifecycle_command \<Rightarrow> bool" where
  "command_requires_container_environment c =
     (case c of ProcessCommand p \<Rightarrow> process_requires_container_environment p
      | ParallelProcesses ps \<Rightarrow> list_ex (\<lambda>(k, p). process_requires_container_environment p) ps)"

record lifecycle_stage_plan =
  plan_stage :: lifecycle_stage
  plan_commands :: "lifecycle_command list"

record lifecycle_plan =
  lp_initialize :: lifecycle_stage_plan
  lp_on_create :: lifecycle_stage_plan
  lp_update_content :: lifecycle_stage_plan
  lp_post_create :: lifecycle_stage_plan
  lp_post_start :: lifecycle_stage_plan
  lp_post_attach :: lifecycle_stage_plan
  readiness :: lifecycle_stage

fun LifecyclePlan_stage :: "lifecycle_plan \<Rightarrow> lifecycle_stage \<Rightarrow> lifecycle_stage_plan" where
  "LifecyclePlan_stage p Initialize = lp_initialize p"
| "LifecyclePlan_stage p OnCreate = lp_on_create p"
| "LifecyclePlan_stage p UpdateContent = lp_update_content p"
| "LifecyclePlan_stage p PostCreate = lp_post_create p"
| "LifecyclePlan_stage p PostStart = lp_post_start p"
| "LifecyclePlan_stage p PostAttach = lp_post_attach p"

definition runs_after_readiness :: "lifecycle_plan \<Rightarrow> lifecycle_stage \<Rightarrow> bool" where
  "runs_after_readiness p s \<longleftrightarrow> background_eligible s \<and> readiness p < s"

datatype lifecycle_planning_error =
    RuntimeValueInInitialize | LifecycleSubstitution lifecycle_stage substitution_error

definition readiness_stage :: "wait_for option \<Rightarrow> lifecycle_stage" where
  "readiness_stage w =
     (case option_or w WaitUpdateContent of
        WaitInitialize \<Rightarrow> Initialize | WaitOnCreate \<Rightarrow> OnCreate | WaitUpdateContent \<Rightarrow> UpdateContent
      | WaitPostCreate \<Rightarrow> PostCreate | WaitPostStart \<Rightarrow> PostStart)"

text \<open>The substitution that planning applies to each command string; its host inputs and the two
  parameters of \<^const>\<open>substitute_host\<close> are fixed for a whole plan.\<close>

type_synonym host_substitution = "substitution_property \<Rightarrow> string \<Rightarrow> (deferred_string, substitution_error) result"

definition normalize_value ::
    "host_substitution \<Rightarrow> lifecycle_stage \<Rightarrow> string \<Rightarrow> (deferred_string, lifecycle_planning_error) result" where
  "normalize_value subst stage command =
     and_then (map_err (LifecycleSubstitution stage) (subst LifecycleCommand command)) (\<lambda>v.
       if stage = Initialize \<and> requires_container_environment v then Err RuntimeValueInInitialize
       else Ok v)"

definition normalize_process ::
    "host_substitution \<Rightarrow> lifecycle_stage \<Rightarrow> command_value \<Rightarrow> (lifecycle_process, lifecycle_planning_error) result" where
  "normalize_process subst stage command =
     (case command of
        ShellValue c \<Rightarrow> map_ok ShellProcess (normalize_value subst stage c)
      | ExecValue arguments \<Rightarrow> map_ok ExecProcess (collect_results (normalize_value subst stage) arguments))"

definition normalize_command ::
    "host_substitution \<Rightarrow> lifecycle_stage \<Rightarrow> raw_command \<Rightarrow> (lifecycle_command, lifecycle_planning_error) result" where
  "normalize_command subst stage command =
     (case command of
        ShellCommand c \<Rightarrow> map_ok ProcessCommand (map_ok ShellProcess (normalize_value subst stage c))
      | ExecCommand arguments \<Rightarrow>
          map_ok ProcessCommand (map_ok ExecProcess (collect_results (normalize_value subst stage) arguments))
      | ParallelCommand commands \<Rightarrow>
          map_ok (\<lambda>ps. ParallelProcesses (bt_of ps))
            (collect_results (\<lambda>(key, c). map_ok (Pair key) (normalize_process subst stage c)) commands))"

definition stage_plan ::
    "host_substitution \<Rightarrow> lifecycle_stage \<Rightarrow> raw_command list \<Rightarrow>
      (lifecycle_stage_plan, lifecycle_planning_error) result" where
  "stage_plan subst stage commands =
     map_ok (\<lambda>cs. \<lparr>plan_stage = stage, plan_commands = cs\<rparr>)
       (collect_results (normalize_command subst stage) commands)"

definition plan_lifecycle ::
    "((string, string) btree \<Rightarrow> 8 word list option) \<Rightarrow> (8 word list \<Rightarrow> 8 word list) \<Rightarrow>
      effective_metadata \<Rightarrow> host_substitution_inputs \<Rightarrow> (lifecycle_plan, lifecycle_planning_error) result" where
  "plan_lifecycle to_json sha256 effective ctx =
     (let l = eff_lifecycle effective;
          subst = (\<lambda>p s. substitute_host to_json sha256 p s ctx)
      in and_then (stage_plan subst Initialize (el_initialize l)) (\<lambda>a.
         and_then (stage_plan subst OnCreate (el_on_create l)) (\<lambda>b.
         and_then (stage_plan subst UpdateContent (el_update_content l)) (\<lambda>c.
         and_then (stage_plan subst PostCreate (el_post_create l)) (\<lambda>d.
         and_then (stage_plan subst PostStart (el_post_start l)) (\<lambda>e.
         and_then (stage_plan subst PostAttach (el_post_attach l)) (\<lambda>f.
           Ok \<lparr>lp_initialize = a, lp_on_create = b, lp_update_content = c, lp_post_create = d,
               lp_post_start = e, lp_post_attach = f,
               readiness = readiness_stage (eff_wait_for effective)\<rparr>)))))))"

section \<open>The checkpoint of the one-time stages\<close>

record lifecycle_checkpoint =
  completed_through :: "lifecycle_stage option"
  running :: "lifecycle_stage option"
  failure :: "lifecycle_stage option"
  indeterminate :: bool

definition LifecycleCheckpoint_default :: lifecycle_checkpoint where
  "LifecycleCheckpoint_default =
     \<lparr>completed_through = None, running = None, failure = None, indeterminate = False\<rparr>"

datatype lifecycle_transition_error =
    InvalidStart lifecycle_stage
  | OutOfOrder lifecycle_stage "lifecycle_stage option"
  | NotRunning lifecycle_stage
  | NothingRunning

definition next_stage :: "lifecycle_stage option \<Rightarrow> lifecycle_stage option" where
  "next_stage completed =
     (case completed of
        None \<Rightarrow> Some OnCreate
      | Some OnCreate \<Rightarrow> Some UpdateContent
      | Some UpdateContent \<Rightarrow> Some PostCreate
      | _ \<Rightarrow> None)"

definition LifecycleCheckpoint_start ::
    "lifecycle_stage \<Rightarrow> lifecycle_checkpoint \<Rightarrow>
      lifecycle_checkpoint \<times> (unit, lifecycle_transition_error) result" where
  "LifecycleCheckpoint_start stage c =
     (if \<not> is_one_time stage \<or> running c \<noteq> None \<or> failure c \<noteq> None \<or> indeterminate c
      then (c, Err (InvalidStart stage))
      else let expected = next_stage (completed_through c)
           in if expected \<noteq> Some stage then (c, Err (OutOfOrder stage expected))
              else (c\<lparr>running := Some stage\<rparr>, Ok ()))"

definition LifecycleCheckpoint_succeed ::
    "lifecycle_stage \<Rightarrow> lifecycle_checkpoint \<Rightarrow>
      lifecycle_checkpoint \<times> (unit, lifecycle_transition_error) result" where
  "LifecycleCheckpoint_succeed stage c =
     (if running c \<noteq> Some stage then (c, Err (NotRunning stage))
      else (c\<lparr>running := None, completed_through := Some stage\<rparr>, Ok ()))"

definition LifecycleCheckpoint_fail ::
    "lifecycle_stage \<Rightarrow> lifecycle_checkpoint \<Rightarrow>
      lifecycle_checkpoint \<times> (unit, lifecycle_transition_error) result" where
  "LifecycleCheckpoint_fail stage c =
     (if running c \<noteq> Some stage then (c, Err (NotRunning stage))
      else (c\<lparr>running := None, failure := Some stage\<rparr>, Ok ()))"

definition LifecycleCheckpoint_interrupt ::
    "lifecycle_checkpoint \<Rightarrow> lifecycle_checkpoint \<times> (unit, lifecycle_transition_error) result" where
  "LifecycleCheckpoint_interrupt c =
     (if running c = None then (c, Err NothingRunning)
      else (c\<lparr>running := None, indeterminate := True\<rparr>, Ok ()))"

record active_generation_lifecycle =
  active_plan :: lifecycle_plan
  checkpoint :: lifecycle_checkpoint

definition ActiveGenerationLifecycle_capture :: "lifecycle_plan \<Rightarrow> active_generation_lifecycle" where
  "ActiveGenerationLifecycle_capture desired =
     \<lparr>active_plan = desired, checkpoint = LifecycleCheckpoint_default\<rparr>"

section \<open>Runs of the one-time sequence\<close>

datatype checkpoint_op =
  StartStage lifecycle_stage | SucceedStage lifecycle_stage | FailStage lifecycle_stage | InterruptStage

fun checkpoint_step ::
    "(checkpoint_op, lifecycle_checkpoint, unit, lifecycle_transition_error) operations" where
  "checkpoint_step (StartStage s) = LifecycleCheckpoint_start s"
| "checkpoint_step (SucceedStage s) = LifecycleCheckpoint_succeed s"
| "checkpoint_step (FailStage s) = LifecycleCheckpoint_fail s"
| "checkpoint_step InterruptStage = LifecycleCheckpoint_interrupt"

lemmas checkpoint_defs = LifecycleCheckpoint_start_def LifecycleCheckpoint_succeed_def
  LifecycleCheckpoint_fail_def LifecycleCheckpoint_interrupt_def Let_def

text \<open>The stages still to run after those completed, and the invariant that ties the fields.\<close>

fun remaining :: "lifecycle_stage option \<Rightarrow> lifecycle_stage list" where
  "remaining None = [OnCreate, UpdateContent, PostCreate]"
| "remaining (Some OnCreate) = [UpdateContent, PostCreate]"
| "remaining (Some UpdateContent) = [PostCreate]"
| "remaining (Some _) = []"

definition idle :: "lifecycle_checkpoint \<Rightarrow> bool" where
  "idle c \<longleftrightarrow> running c = None \<and> failure c = None \<and> \<not> indeterminate c"

definition halted :: "lifecycle_checkpoint \<Rightarrow> bool" where
  "halted c \<longleftrightarrow> failure c \<noteq> None \<or> indeterminate c"

definition checkpoint_inv :: "lifecycle_checkpoint \<Rightarrow> bool" where
  "checkpoint_inv c \<longleftrightarrow>
     (case completed_through c of None \<Rightarrow> True | Some s \<Rightarrow> is_one_time s) \<and>
     (running c \<noteq> None \<longrightarrow> running c = next_stage (completed_through c) \<and> \<not> halted c) \<and>
     (failure c \<noteq> None \<longrightarrow> \<not> indeterminate c \<and> failure c = next_stage (completed_through c))"

lemma next_stage_remaining:
  "next_stage done = (case remaining done of [] \<Rightarrow> None | s # ss \<Rightarrow> Some s)"
  by (cases "done" rule: remaining.cases) (simp_all add: next_stage_def)

lemma next_stage_one_time: "next_stage done = Some s \<Longrightarrow> is_one_time s"
  by (cases "done" rule: remaining.cases) (auto simp: next_stage_def is_one_time_def)

lemma remaining_next: "next_stage done = Some s \<Longrightarrow> remaining done = s # remaining (Some s)"
  by (cases "done" rule: remaining.cases) (auto simp: next_stage_def)

interpretation checkpoints: stateful checkpoint_step checkpoint_inv
proof
  fix c x
  assume "checkpoint_inv c"
  then show "checkpoint_inv (fst (checkpoint_step x c))"
    by (cases x) (auto simp: checkpoint_defs checkpoint_inv_def halted_def next_stage_one_time)
next
  fix c x e
  assume "checkpoint_inv c" "snd (checkpoint_step x c) = Err e"
  then show "fst (checkpoint_step x c) = c"
    by (cases x) (auto simp: checkpoint_defs split: if_splits)
qed

lemma checkpoint_inv_default: "checkpoint_inv LifecycleCheckpoint_default" "idle LifecycleCheckpoint_default"
  by (simp_all add: checkpoint_inv_def LifecycleCheckpoint_default_def idle_def)

text \<open>The runs: stages in order, each started and then succeeded; the last one may still be running,
  or have failed or been interrupted, and then nothing follows.\<close>

fun one_time_run :: "lifecycle_stage list \<Rightarrow> checkpoint_op list \<Rightarrow> bool" where
  "one_time_run ss [] \<longleftrightarrow> True"
| "one_time_run (s # ss) [x] \<longleftrightarrow> x = StartStage s"
| "one_time_run (s # ss) (x # y # xs) \<longleftrightarrow> x = StartStage s \<and>
     (case y of SucceedStage t \<Rightarrow> t = s \<and> one_time_run ss xs
      | FailStage t \<Rightarrow> t = s \<and> xs = []
      | InterruptStage \<Rightarrow> xs = []
      | StartStage t \<Rightarrow> False)"
| "one_time_run [] (x # xs) \<longleftrightarrow> False"

lemma accepted_all_iff: "accepted step s (x # xs) = x # xs \<longleftrightarrow>
    is_ok (snd (step x s)) \<and> accepted step (fst (step x s)) xs = xs"
proof -
  have "length (accepted step s' ys) \<le> length ys" for s' ys
    by (induction ys arbitrary: s') (simp_all add: le_SucI)
  then have "accepted step (fst (step x s)) xs \<noteq> x # xs" by (metis length_Cons not_less_eq_eq order_refl)
  then show ?thesis by auto
qed

lemma halted_accepts_nothing:
  "halted c \<Longrightarrow> running c = None \<Longrightarrow> accepted checkpoint_step c xs = xs \<longleftrightarrow> xs = []"
  by (cases xs; cases "hd xs") (auto simp: accepted_all_iff checkpoint_defs halted_def simp del: accepted.simps(2))

lemma idle_start:
  "idle c \<Longrightarrow> is_ok (snd (checkpoint_step x c)) \<longleftrightarrow>
     (\<exists>s. x = StartStage s \<and> next_stage (completed_through c) = Some s)"
  by (cases x) (auto simp: checkpoint_defs idle_def next_stage_one_time)

lemma running_end:
  assumes "running c = Some s" "\<not> halted c"
  shows "accepted checkpoint_step c (y # xs) = y # xs \<longleftrightarrow>
    (case y of SucceedStage t \<Rightarrow> t = s \<and>
        accepted checkpoint_step (c\<lparr>running := None, completed_through := Some s\<rparr>) xs = xs
     | FailStage t \<Rightarrow> t = s \<and> xs = []
     | InterruptStage \<Rightarrow> xs = []
     | StartStage t \<Rightarrow> False)"
proof -
  have "accepted checkpoint_step (c\<lparr>running := None, failure := Some s\<rparr>) xs = xs \<longleftrightarrow> xs = []"
    "accepted checkpoint_step (c\<lparr>running := None, indeterminate := True\<rparr>) xs = xs \<longleftrightarrow> xs = []"
    by (rule halted_accepts_nothing; simp add: halted_def)+
  with assms show ?thesis
    by (cases y) (auto simp: accepted_all_iff checkpoint_defs simp del: accepted.simps(2))
qed

lemma accepted_runs:
  "idle c \<Longrightarrow> accepted checkpoint_step c xs = xs \<longleftrightarrow> one_time_run (remaining (completed_through c)) xs"
proof (induction "remaining (completed_through c)" xs arbitrary: c rule: one_time_run.induct)
  case (1 ss)
  then show ?case by simp
next
  case (2 s ss x)
  then have "next_stage (completed_through c) = Some s" by (simp add: next_stage_remaining flip: 2(1))
  with 2 show ?case
    by (auto simp: accepted_all_iff idle_start simp del: accepted.simps(2) simp flip: 2(1))
next
  case (3 s ss x y xs)
  have n: "next_stage (completed_through c) = Some s" by (simp add: next_stage_remaining flip: 3(2))
  then have ss: "ss = remaining (Some s)" using remaining_next 3(2) by fastforce
  show ?case
  proof (cases "x = StartStage s")
    case True
    let ?c = "c\<lparr>running := Some s\<rparr>"
    have st: "checkpoint_step x c = (?c, Ok ())"
      using True n 3(3) next_stage_one_time [OF n] by (simp add: checkpoint_defs idle_def)
    have r: "running ?c = Some s" "\<not> halted ?c" using 3(3) by (simp_all add: idle_def halted_def)
    have "accepted checkpoint_step (?c\<lparr>running := None, completed_through := Some s\<rparr>) xs = xs
        \<longleftrightarrow> one_time_run ss xs" if "y = SucceedStage s"
      using 3(1) [OF that] 3(3) ss by (simp add: idle_def)
    with True running_end [OF r, of y xs] st show ?thesis
      unfolding accepted_all_iff [of _ _ x] 3(2) [symmetric]
      by (auto split: checkpoint_op.splits)
  next
    case False
    with idle_start [OF 3(3)] n show ?thesis
      unfolding accepted_all_iff [of _ _ x] 3(2) [symmetric] by auto
  qed
next
  case (4 x xs)
  then have "next_stage (completed_through c) = None" by (simp add: next_stage_remaining flip: 4(1))
  with 4 show ?case
    by (auto simp: accepted_all_iff idle_start simp del: accepted.simps(2) simp flip: 4(1))
qed

section \<open>Properties\<close>

text \<open>C26: whatever calls are made on a new generation's checkpoint, the accepted ones are a run of the one-time
  sequence: onCreate, updateContent and postCreate in this order, each started at most once and only after
  the one before succeeded, and nothing after a failure or an interruption; and every such run is accepted.\<close>

theorem checkpoint_runs:
  "one_time_run [OnCreate, UpdateContent, PostCreate]
     (accepted checkpoint_step LifecycleCheckpoint_default xs) \<and>
   (accepted checkpoint_step LifecycleCheckpoint_default xs = xs \<longleftrightarrow>
      one_time_run [OnCreate, UpdateContent, PostCreate] xs)"
proof -
  have "accepted checkpoint_step LifecycleCheckpoint_default ys = ys \<longleftrightarrow>
      one_time_run [OnCreate, UpdateContent, PostCreate] ys" for ys
    using accepted_runs [OF checkpoint_inv_default(2)] by (simp add: LifecycleCheckpoint_default_def)
  then show ?thesis using checkpoints.accepted_all_ok [OF checkpoint_inv_default(1)] by blast
qed

fun finish :: "lifecycle_stage option \<Rightarrow> lifecycle_stage list \<Rightarrow> checkpoint_op list" where
  "finish None ss = concat (map (\<lambda>s. [StartStage s, SucceedStage s]) ss)"
| "finish (Some s) ss = SucceedStage s # concat (map (\<lambda>s. [StartStage s, SucceedStage s]) (tl ss))"

lemma finish_idle:
  "idle c \<Longrightarrow> ss = remaining (completed_through c) \<Longrightarrow> completed_through c = None \<or> is_one_time (the (completed_through c)) \<Longrightarrow>
     accepted checkpoint_step c (finish None ss) = finish None ss \<and>
     completed_through (run_ops checkpoint_step c (finish None ss)) = Some PostCreate"
proof (induction ss arbitrary: c)
  case Nil
  then show ?case by (cases "completed_through c" rule: remaining.cases) (auto simp: is_one_time_def)
next
  case (Cons s ss)
  then have n: "next_stage (completed_through c) = Some s"
    by (simp add: next_stage_remaining flip: Cons.prems(2))
  then have ss: "ss = remaining (Some s)" using remaining_next Cons.prems(2) by fastforce
  let ?c = "c\<lparr>completed_through := Some s\<rparr>"
  have "checkpoint_step (StartStage s) c = (c\<lparr>running := Some s\<rparr>, Ok ())"
    using n Cons.prems(1) next_stage_one_time [OF n] by (simp add: checkpoint_defs idle_def)
  moreover have "c\<lparr>running := None, completed_through := Some s\<rparr> = ?c"
    using Cons.prems(1) by (cases c) (simp add: idle_def)
  then have "checkpoint_step (SucceedStage s) (c\<lparr>running := Some s\<rparr>) = (?c, Ok ())"
    by (simp add: checkpoint_defs)
  moreover have "accepted checkpoint_step ?c (finish None ss) = finish None ss \<and>
      completed_through (run_ops checkpoint_step ?c (finish None ss)) = Some PostCreate"
    using Cons.IH [of ?c] Cons.prems(1) ss next_stage_one_time [OF n] by (simp add: idle_def)
  ultimately show ?case by simp
qed

lemma finish_length:
  "length (finish r (remaining done)) \<le> 6"
  by (cases r; cases "done" rule: remaining.cases) simp_all

lemma finish_all:
  assumes "checkpoint_inv c" and "\<not> halted c"
  shows "accepted checkpoint_step c (finish (running c) (remaining (completed_through c))) =
      finish (running c) (remaining (completed_through c)) \<and>
    completed_through (run_ops checkpoint_step c (finish (running c) (remaining (completed_through c)))) =
      Some PostCreate"
proof (cases "running c")
  case None
  with assms show ?thesis
    using finish_idle [OF _ refl, of c] by (auto simp: idle_def halted_def checkpoint_inv_def split: option.splits)
next
  case (Some s)
  with assms(1) have n: "next_stage (completed_through c) = Some s" by (simp add: checkpoint_inv_def)
  let ?c = "c\<lparr>running := None, completed_through := Some s\<rparr>"
  have "checkpoint_step (SucceedStage s) c = (?c, Ok ())" using Some by (simp add: checkpoint_defs)
  moreover have "idle ?c" using assms(2) by (simp add: idle_def halted_def)
  ultimately show ?thesis
    using finish_idle [of ?c "remaining (Some s)"] next_stage_one_time [OF n] Some
    by (simp add: remaining_next [OF n])
qed

text \<open>C27: a generation is never stuck: after any calls, unless a stage failed or was interrupted, at most
  six more calls complete every one-time stage, all of them accepted.\<close>

theorem checkpoint_progress:
  assumes "c = run_ops checkpoint_step LifecycleCheckpoint_default xs"
    and "failure c = None" and "\<not> indeterminate c"
  shows "\<exists>ys. length ys \<le> 6 \<and> accepted checkpoint_step c ys = ys \<and>
    completed_through (run_ops checkpoint_step c ys) = Some PostCreate"
proof -
  have "checkpoint_inv c" unfolding assms(1)
    by (rule checkpoints.run_inv [OF checkpoint_inv_default(1)])
  with assms(2,3) finish_all [of c] finish_length [of "running c" "completed_through c"] show ?thesis
    unfolding halted_def by blast
qed

theorem checkpoint_progress_witness:
  "\<exists>ys. length ys \<le> 6 \<and>
     completed_through (run_ops checkpoint_step (run_ops checkpoint_step LifecycleCheckpoint_default
       [StartStage OnCreate, SucceedStage OnCreate, StartStage PostCreate, StartStage UpdateContent]) ys) =
     Some PostCreate"
  by (rule exE [OF checkpoint_progress [OF refl, of "[StartStage OnCreate, SucceedStage OnCreate,
      StartStage PostCreate, StartStage UpdateContent]"]])
    (auto simp: checkpoint_defs LifecycleCheckpoint_default_def is_one_time_def next_stage_def)

section \<open>Plans\<close>

text \<open>What planning does to one command: the same shape, every string substituted.\<close>

fun planned_process :: "(string \<Rightarrow> deferred_string \<Rightarrow> bool) \<Rightarrow> command_value \<Rightarrow> lifecycle_process \<Rightarrow> bool" where
  "planned_process V (ShellValue t) (ShellProcess d) \<longleftrightarrow> V t d"
| "planned_process V (ExecValue ts) (ExecProcess ds) \<longleftrightarrow> list_all2 V ts ds"
| "planned_process V _ _ \<longleftrightarrow> False"

fun planned :: "(string \<Rightarrow> deferred_string \<Rightarrow> bool) \<Rightarrow> raw_command \<Rightarrow> lifecycle_command \<Rightarrow> bool" where
  "planned V (ShellCommand t) (ProcessCommand (ShellProcess d)) \<longleftrightarrow> V t d"
| "planned V (ExecCommand ts) (ProcessCommand (ExecProcess ds)) \<longleftrightarrow> list_all2 V ts ds"
| "planned V (ParallelCommand cs) (ParallelProcesses ps) \<longleftrightarrow>
     list_all2 (\<lambda>(k, c) (k', p). k = k' \<and> planned_process V c p) cs ps"
| "planned V _ _ \<longleftrightarrow> False"

definition command_ok :: "raw_command \<Rightarrow> bool" where
  "command_ok c = (case c of ParallelCommand cs \<Rightarrow> bt_ok cs | _ \<Rightarrow> True)"

definition host_value :: "host_substitution \<Rightarrow> lifecycle_stage \<Rightarrow> string \<Rightarrow> deferred_string \<Rightarrow> bool" where
  "host_value subst stage t d \<longleftrightarrow> subst LifecycleCommand t = Ok d \<and>
     \<not> (stage = Initialize \<and> requires_container_environment d)"

lemma normalize_value_Ok: "normalize_value subst stage t = Ok d \<longleftrightarrow> host_value subst stage t d"
  by (cases "subst LifecycleCommand t") (auto simp: normalize_value_def host_value_def)

lemma normalize_process_Ok:
  "normalize_process subst stage c = Ok p \<longleftrightarrow> planned_process (host_value subst stage) c p"
  by (cases c; cases p) (auto simp: normalize_process_def collect_results_Ok normalize_value_Ok)

lemma normalize_command_Ok:
  assumes "normalize_command subst stage c = Ok p" and "command_ok c"
  shows "planned (host_value subst stage) c p"
proof (cases c)
  case (ParallelCommand cs)
  have eq: "(\<lambda>x y. (case x of (key, c) \<Rightarrow> map_ok (Pair key) (normalize_process subst stage c)) = Ok y) =
      (\<lambda>(k, c) (k', p). k = k' \<and> planned_process (host_value subst stage) c p)"
    by (auto simp: fun_eq_iff normalize_process_Ok)
  from assms(1) ParallelCommand obtain ps where p: "p = ParallelProcesses (bt_of ps)" and
    ps: "list_all2 (\<lambda>(k, c) (k', p). k = k' \<and> planned_process (host_value subst stage) c p) cs ps"
    by (auto simp: normalize_command_def collect_results_Ok eq)
  have "map fst ps = map fst cs"
    using ps by (induction rule: list_all2_induct) auto
  with assms(2) ParallelCommand have "bt_ok ps" by (simp add: command_ok_def bt_ok_def)
  with p ps ParallelCommand show ?thesis by (simp add: bt_of_id)
qed (use assms in \<open>auto simp: normalize_command_def collect_results_Ok normalize_value_Ok\<close>)

lemma stage_plan_Ok:
  assumes "stage_plan subst stage cs = Ok p" and "list_all command_ok cs"
  shows "plan_stage p = stage \<and> list_all2 (planned (host_value subst stage)) cs (plan_commands p)"
  using assms
  by (auto simp: stage_plan_def collect_results_Ok list_all2_conv_all_nth list_all_length
      intro: normalize_command_Ok)

fun stage_commands :: "lifecycle_stage \<Rightarrow> lifecycle_commands \<Rightarrow> raw_command option" where
  "stage_commands Initialize = lc_initialize"
| "stage_commands OnCreate = lc_on_create"
| "stage_commands UpdateContent = lc_update_content"
| "stage_commands PostCreate = lc_post_create"
| "stage_commands PostStart = lc_post_start"
| "stage_commands PostAttach = lc_post_attach"

definition commands_ok :: "raw_common \<Rightarrow> bool" where
  "commands_ok c \<longleftrightarrow> (\<forall>stage \<in> {Initialize, OnCreate, UpdateContent, PostCreate, PostStart, PostAttach}.
     case stage_commands stage (lifecycle c) of None \<Rightarrow> True | Some x \<Rightarrow> command_ok x)"

lemma plan_lifecycle_stage:
  assumes "plan_lifecycle to_json sha256 e ctx = Ok p" and "eff_lifecycle e = lifecycle_of cs"
  shows "stage_plan (\<lambda>q s. substitute_host to_json sha256 q s ctx) stage (commands_of (stage_commands stage) cs) =
    Ok (LifecyclePlan_stage p stage)"
  using assms by (cases stage) (auto simp: plan_lifecycle_def lifecycle_of_def Let_def)

lemma commands_of_ok:
  "list_all commands_ok cs \<Longrightarrow> list_all command_ok (commands_of (stage_commands stage) cs)"
  by (cases stage) (auto simp: commands_of_def commands_ok_def list_all_iff List.map_filter_def)


definition sample_lifecycle_profile :: raw_profile where
  "sample_lifecycle_profile = sample_profile\<lparr>common := RawCommon_default\<lparr>lifecycle :=
     LifecycleCommands_default\<lparr>lc_on_create := Some (ExecCommand [''make'', ''setup'']),
       lc_initialize := Some (ShellCommand ''true'')\<rparr>\<rparr>\<rparr>"

lemma sample_literal: "substitute_host to_json sha256 p ''make'' ctx = Ok (DeferredString [Literal ''make''])"
  "substitute_host to_json sha256 p ''setup'' ctx = Ok (DeferredString [Literal ''setup''])"
  "substitute_host to_json sha256 p ''true'' ctx = Ok (DeferredString [Literal ''true''])"
  by (simp_all add: substitute_host_def substitute_loop.simps utf8_width_def)

lemma planned_Exec:
  "planned V (ExecCommand ts) c \<longleftrightarrow> (\<exists>ds. c = ProcessCommand (ExecProcess ds) \<and> list_all2 V ts ds)"
  by (auto elim: planned.elims)

lemma planned_one_Exec:
  assumes "list_all2 (planned V) [ExecCommand [s, t]] cs" and "\<And>x d. V x d \<Longrightarrow> f x = Ok d"
    and "f s = Ok u" and "f t = Ok v"
  shows "cs = [ProcessCommand (ExecProcess [u, v])]"
  using assms by (fastforce simp: list_all2_Cons1 planned_Exec)


fun effective_commands :: "lifecycle_stage \<Rightarrow> effective_lifecycle \<Rightarrow> raw_command list" where
  "effective_commands Initialize = el_initialize"
| "effective_commands OnCreate = el_on_create"
| "effective_commands UpdateContent = el_update_content"
| "effective_commands PostCreate = el_post_create"
| "effective_commands PostStart = el_post_start"
| "effective_commands PostAttach = el_post_attach"

fun value_strings :: "command_value \<Rightarrow> string set" where
  "value_strings (ShellValue t) = {t}"
| "value_strings (ExecValue ts) = set ts"

fun command_strings :: "raw_command \<Rightarrow> string set" where
  "command_strings (ShellCommand t) = {t}"
| "command_strings (ExecCommand ts) = set ts"
| "command_strings (ParallelCommand cs) = (\<Union>(k, v) \<in> set cs. value_strings v)"

definition refused :: "host_substitution \<Rightarrow> lifecycle_stage \<Rightarrow> lifecycle_planning_error \<Rightarrow> string \<Rightarrow> bool" where
  "refused subst stage e t \<longleftrightarrow>
     (case subst LifecycleCommand t of
        Err f \<Rightarrow> e = LifecycleSubstitution stage f
      | Ok d \<Rightarrow> e = RuntimeValueInInitialize \<and> stage = Initialize \<and> requires_container_environment d)"

lemma normalize_value_Err: "normalize_value subst stage t = Err e \<longleftrightarrow> refused subst stage e t"
  by (cases "subst LifecycleCommand t") (auto simp: normalize_value_def refused_def)

lemma normalize_process_Err:
  "normalize_process subst stage c = Err e \<Longrightarrow> \<exists>t \<in> value_strings c. refused subst stage e t"
  by (cases c) (auto simp: normalize_process_def normalize_value_Err dest!: collect_results_Err)

lemma normalize_command_Err:
  "normalize_command subst stage c = Err e \<Longrightarrow> \<exists>t \<in> command_strings c. refused subst stage e t"
  by (cases c) (fastforce simp: normalize_command_def normalize_value_Err dest: collect_results_Err
    dest!: normalize_process_Err)+

lemma stage_plan_Err:
  "stage_plan subst stage cs = Err e \<Longrightarrow> \<exists>c \<in> set cs. \<exists>t \<in> command_strings c. refused subst stage e t"
  by (auto simp: stage_plan_def dest!: collect_results_Err normalize_command_Err)

lemma all_stage:
  "(\<forall>s. Q s) \<longleftrightarrow> Q Initialize \<and> Q OnCreate \<and> Q UpdateContent \<and> Q PostCreate \<and> Q PostStart \<and> Q PostAttach"
  by (rule iffI; (simp; fail)?; intro allI; case_tac s; simp)

lemma ex_stage:
  "(\<exists>s. Q s) \<longleftrightarrow> Q Initialize \<or> Q OnCreate \<or> Q UpdateContent \<or> Q PostCreate \<or> Q PostStart \<or> Q PostAttach"
  using all_stage [of "\<lambda>s. \<not> Q s"] by blast

lemma chain_Err:
  assumes "and_then a (\<lambda>x. and_then b (\<lambda>y. and_then c (\<lambda>z. and_then d (\<lambda>v. and_then e (\<lambda>w. and_then f (\<lambda>u.
    Ok (g x y z v w u))))))) = Err err"
  shows "a = Err err \<or> is_ok a \<and> (b = Err err \<or> is_ok b \<and> (c = Err err \<or> is_ok c \<and> (d = Err err \<or>
    is_ok d \<and> (e = Err err \<or> is_ok e \<and> f = Err err))))"
  using assms by (cases a; cases b; cases c; cases d; cases e; cases f) simp_all

lemma plan_lifecycle_Err:
  assumes "plan_lifecycle to_json sha256 e ctx = Err f"
  defines "subst \<equiv> \<lambda>q s. substitute_host to_json sha256 q s ctx"
  shows "\<exists>stage. stage_plan subst stage (effective_commands stage (eff_lifecycle e)) = Err f \<and>
    (\<forall>s < stage. is_ok (stage_plan subst s (effective_commands s (eff_lifecycle e))))"
proof -
  define P where "P s = stage_plan subst s (effective_commands s (eff_lifecycle e))" for s
  have less: "s < t \<longleftrightarrow> stage_index s < stage_index t" for s t by (simp add: less_lifecycle_stage_def)
  have "P Initialize = Err f \<or> is_ok (P Initialize) \<and> (P OnCreate = Err f \<or> is_ok (P OnCreate) \<and>
      (P UpdateContent = Err f \<or> is_ok (P UpdateContent) \<and> (P PostCreate = Err f \<or> is_ok (P PostCreate) \<and>
      (P PostStart = Err f \<or> is_ok (P PostStart) \<and> P PostAttach = Err f))))"
    unfolding P_def effective_commands.simps
    by (rule chain_Err [OF assms(1) [unfolded plan_lifecycle_def Let_def, folded subst_def]])
  then have "\<exists>stage. P stage = Err f \<and> (\<forall>s < stage. is_ok (P s))"
    unfolding ex_stage all_stage less by auto
  then show ?thesis unfolding P_def .
qed

text \<open>C29: planning fails only for a command string that the substitution refuses, reported with its stage, or for
  a host initialization command that needs the container's environment, and then every command of the
  earlier stages can be planned.\<close>

theorem lifecycle_plan_error:
  assumes "plan_lifecycle to_json sha256 e ctx = Err f"
  shows "\<exists>stage. (\<exists>c \<in> set (effective_commands stage (eff_lifecycle e)). \<exists>t \<in> command_strings c.
      refused (\<lambda>q s. substitute_host to_json sha256 q s ctx) stage f t) \<and>
    (\<forall>s < stage. \<forall>c \<in> set (effective_commands s (eff_lifecycle e)).
      is_ok (normalize_command (\<lambda>q s. substitute_host to_json sha256 q s ctx) s c))"
proof -
  let ?subst = "\<lambda>q s. substitute_host to_json sha256 q s ctx"
  obtain stage where
    st: "stage_plan ?subst stage (effective_commands stage (eff_lifecycle e)) = Err f \<and>
      (\<forall>s < stage. is_ok (stage_plan ?subst s (effective_commands s (eff_lifecycle e))))"
    using plan_lifecycle_Err [OF assms(1)] by (rule exE)
  have "is_ok (normalize_command ?subst s c)"
    if "is_ok (stage_plan ?subst s cs)" "c \<in> set cs" for s c cs
    using that by (auto simp: is_ok_iff stage_plan_def collect_results_Ok list_all2_conv_all_nth
      in_set_conv_nth)
  from this [OF conjunct2 [OF st, rule_format]]
  have "\<forall>s < stage. \<forall>c \<in> set (effective_commands s (eff_lifecycle e)). is_ok (normalize_command ?subst s c)"
    by blast
  with stage_plan_Err [OF conjunct1 [OF st]] show ?thesis by (intro exI [of _ stage] conjI)
qed

theorem lifecycle_plan_error_witness:
  "refused (\<lambda>q s. substitute_host (\<lambda>_. None) (\<lambda>_. []) q s sample_inputs) Initialize
     (LifecycleSubstitution Initialize (MalformedSubstitution LifecycleCommand)) ''${''"
proof -
  define e where "e = (ms_values merge_start)\<lparr>eff_lifecycle :=
    EffectiveLifecycle_default\<lparr>el_initialize := [ShellCommand ''${'']\<rparr>\<rparr>"
  have "substitute_host (\<lambda>_. None) (\<lambda>_. []) LifecycleCommand ''${'' sample_inputs =
      Err (MalformedSubstitution LifecycleCommand)"
    by (simp add: substitute_host_def substitute_loop.simps)
  then have "plan_lifecycle (\<lambda>_. None) (\<lambda>_. []) e sample_inputs =
      Err (LifecycleSubstitution Initialize (MalformedSubstitution LifecycleCommand))"
    by (simp add: plan_lifecycle_def e_def EffectiveLifecycle_default_def stage_plan_def
      normalize_command_def normalize_value_def)
  from lifecycle_plan_error [OF this] show ?thesis
    unfolding ex_stage by (simp add: e_def EffectiveLifecycle_default_def)
qed

end
