(* ===== verification/Feature_Reference.thy ===== *)
theory Feature_Reference
  imports Ordered_Map Net
begin

text \<open>
  \<^verbatim>\<open>crates/cdenv-devcontainer/src/feature/reference.rs\<close>: the supported forms of a Feature reference, their
  normal forms, and content identities. URLs are parsed by the \<^verbatim>\<open>url\<close> crate, which is a parameter.
  Normal forms are shown to be fixed points of the parser, local references to stay below their
  configuration directory, and accepted hosts to be neither private names nor private addresses.
\<close>

section \<open>References\<close>

datatype feature_reference =
    OciReference (ref_text: string) | HttpsReference (ref_text: string) | LocalReference (ref_text: string)

datatype feature_install_identity = OciDigest string | HttpsIntegrity string | LocalIdentity string

datatype feature_value = BooleanValue bool | StringValue string

text \<open>A property path is kept as its segments: a member, a quoted key and an index.\<close>

datatype path_segment = Member string | Key string | Index nat

datatype feature_error =
    UnsupportedReference (rejected: string) (reason: string)
  | InvalidMetadata "path_segment list" string
  | InvalidIdentity string string
  | MissingPackage feature_reference string
  | CatalogMismatch feature_reference feature_reference
  | UnknownOption string string string
  | InvalidOption string string feature_value string
  | ConflictingOptions feature_install_identity string string string
  | InvalidOverride string string
  | DependencyCycle string
  | InvalidLock string
  | StaleLock

abbreviation unsupported :: "string \<Rightarrow> string \<Rightarrow> feature_error" where
  "unsupported \<equiv> UnsupportedReference"

definition render_path :: "feature_reference list \<Rightarrow> string" where
  "render_path path = join '' -> '' (map ref_text path)"

text \<open>The view of a URL that the program takes; \<open>with_host\<close> is \<^verbatim>\<open>set_host\<close> followed by printing.\<close>

record feature_url =
  furl_username :: string
  furl_password :: "string option"
  furl_host_str :: "string option"
  furl_fragment :: "string option"
  furl_with_host :: "string \<Rightarrow> string option"

type_synonym feature_url_parser = "string \<Rightarrow> (feature_url, string) result"

definition NUL :: char where
  "NUL = CHR 0x00"

definition BACKSLASH :: char where
  "BACKSLASH = CHR 0x5C"

fun local_parts :: "string \<Rightarrow> string list \<Rightarrow> (string list, feature_error) result" where
  "local_parts input [] = Ok []"
| "local_parts input (part # ps) =
     (if part = [] \<or> part = ''.'' then local_parts input ps
      else if part = ''..''
      then Err (unsupported input ''local Feature escapes its configuration directory'')
      else if NUL \<in> set part \<or> BACKSLASH \<in> set part
      then Err (unsupported input ''local Feature path contains an unsupported component'')
      else map_ok (Cons part) (local_parts input ps))"

definition normalize_local :: "string \<Rightarrow> (string, feature_error) result" where
  "normalize_local input =
     and_then (local_parts input (split_on (CHR ''/'') (drop 2 input))) (\<lambda>parts.
       if parts = [] then Err (unsupported input ''local Feature path must name a directory'')
       else Ok (''./'' @ join ''/'' parts))"

definition private_name :: "string \<Rightarrow> bool" where
  "private_name h \<longleftrightarrow> h = ''localhost'' \<or> suffix ''.localhost'' h \<or> strip_suffix ''.local'' h \<noteq> None \<or>
     CHR ''.'' \<notin> set h"

definition private_address :: "ip_addr \<Rightarrow> bool" where
  "private_address a = (case a of
     V4 _ _ _ _ \<Rightarrow> is_private a \<or> is_loopback a \<or> is_link_local a
   | V6 _ \<Rightarrow> is_loopback a \<or> is_unique_local a \<or> is_link_local a)"

definition reject_private_host :: "string \<Rightarrow> string \<Rightarrow> (unit, feature_error) result" where
  "reject_private_host reference host =
     (let lowercase = to_ascii_lowercase host
      in if private_name lowercase \<or> is_some_and (parse_ip_addr lowercase) private_address
         then Err (unsupported reference ''private or local Feature endpoints are unsupported'')
         else Ok ())"

definition normalize_https :: "feature_url_parser \<Rightarrow> string \<Rightarrow> (string, feature_error) result" where
  "normalize_https url_parse input =
     and_then (map_err (unsupported input) (url_parse input)) (\<lambda>url.
       if furl_username url \<noteq> [] \<or> furl_password url \<noteq> None
       then Err (unsupported input ''Feature URL credentials are unsupported'')
       else and_then (ok_or (unsupported input ''Feature URL requires a public host'') (furl_host_str url)) (\<lambda>host.
         and_then (reject_private_host input host) (\<lambda>_.
           if furl_fragment url \<noteq> None
           then Err (unsupported input ''Feature URL fragments are unsupported'')
           else ok_or (unsupported input ''Feature URL host is invalid'')
                  (furl_with_host url (to_ascii_lowercase host)))))"

definition is_sha256_hex :: "nat \<Rightarrow> bool" where
  "is_sha256_hex n \<longleftrightarrow> is_ascii_digit n \<or> (97 \<le> n \<and> n \<le> 102)"

definition validate_sha256 :: "string \<Rightarrow> (unit, string) result" where
  "validate_sha256 v =
     (case strip_prefix ''sha256:'' v of
        None \<Rightarrow> Err ''digest must use SHA-256''
      | Some hex \<Rightarrow>
          if length hex \<noteq> 64 \<or> \<not> list_all (\<lambda>c. is_sha256_hex (byte c)) hex
          then Err ''digest must contain 64 lowercase hexadecimal characters'' else Ok ())"

definition repository_byte :: "nat \<Rightarrow> bool" where
  "repository_byte n \<longleftrightarrow> is_ascii_lowercase n \<or> is_ascii_digit n \<or> n = 46 \<or> n = 95 \<or> n = 45"

definition repository_ok :: "string \<Rightarrow> bool" where
  "repository_ok repository \<longleftrightarrow> repository \<noteq> [] \<and>
     \<not> list_ex (\<lambda>part. part = [] \<or> \<not> list_all (\<lambda>c. repository_byte (byte c)) part)
         (split_on (CHR ''/'') repository)"

text \<open>The part of the normalization after the digest is split off and checked.\<close>

definition normalize_oci_name ::
    "string \<Rightarrow> string \<Rightarrow> string option \<Rightarrow> (string, feature_error) result" where
  "normalize_oci_name input name_and_tag digest =
     (case split_once (CHR ''/'') name_and_tag of
        None \<Rightarrow> Err (unsupported input ''OCI Feature reference must be fully qualified'')
      | Some (registry, repository_and_tag) \<Rightarrow>
          and_then (reject_private_host input (hd (split_on (CHR '':'') registry))) (\<lambda>_.
          if \<not> (CHR ''.'' \<in> set registry \<or> CHR '':'' \<in> set registry)
          then Err (unsupported input ''OCI Feature reference must include a registry host'')
          else let lst = last (split_on (CHR ''/'') repository_and_tag);
                   has_tag = CHR '':'' \<in> set lst;
                   repository = (if has_tag then (case rsplit_once (CHR '':'') repository_and_tag of
                       None \<Rightarrow> repository_and_tag | Some (name, _) \<Rightarrow> name) else repository_and_tag)
               in if \<not> repository_ok repository
                  then Err (unsupported input ''OCI repository must be lowercase and fully qualified'')
                  else if has_tag \<and> is_some_and (rsplit_once (CHR '':'') lst) (\<lambda>(_, tag). tag = [])
                  then Err (unsupported input ''OCI Feature tag cannot be empty'')
                  else Ok (to_ascii_lowercase registry @ ''/'' @ repository_and_tag @
                    (if digest = None \<and> \<not> has_tag then '':latest'' else []) @
                    (case digest of None \<Rightarrow> [] | Some d \<Rightarrow> ''@'' @ d))))"

definition normalize_oci :: "string \<Rightarrow> (string, feature_error) result" where
  "normalize_oci input =
     (if input = [] \<or> list_ex is_whitespace (chars input)
      then Err (unsupported input ''OCI Feature reference is empty or contains whitespace'')
      else if CHR ''@'' \<in> set input \<and> \<not> contains_str ''@sha256:'' input
      then Err (unsupported input ''OCI credentials and non-SHA-256 digests are unsupported'')
      else let (name_and_tag, digest) = (case split_once (CHR ''@'') input of
                 None \<Rightarrow> (input, None) | Some (name, digest) \<Rightarrow> (name, Some digest))
           in and_then (case digest of None \<Rightarrow> Ok () | Some d \<Rightarrow> map_err (unsupported input) (validate_sha256 d))
                (\<lambda>_. normalize_oci_name input name_and_tag digest))"

definition FeatureReference_parse ::
    "feature_url_parser \<Rightarrow> string \<Rightarrow> (feature_reference, feature_error) result" where
  "FeatureReference_parse url_parse input =
     (if prefix ''./'' input then map_ok LocalReference (normalize_local input)
      else if prefix ''https://'' input then map_ok HttpsReference (normalize_https url_parse input)
      else if contains_str ''://'' input \<or> prefix ''http:'' input
      then Err (unsupported input ''Feature transport must use verified HTTPS'')
      else map_ok OciReference (normalize_oci input))"

definition oci_resource_name :: "string \<Rightarrow> string" where
  "oci_resource_name v =
     (let without_digest = hd (split_on (CHR ''@'') v);
          slash = (case rsplit_once (CHR ''/'') without_digest of None \<Rightarrow> 0 | Some (a, _) \<Rightarrow> length a)
      in case find_byte (\<lambda>c. c = CHR '':'') (drop (slash + 1) without_digest) of
           None \<Rightarrow> without_digest
         | Some offset \<Rightarrow> take (slash + 1 + offset) without_digest)"

definition resource_name :: "feature_reference \<Rightarrow> string" where
  "resource_name r = (case r of OciReference v \<Rightarrow> oci_resource_name v | HttpsReference v \<Rightarrow> v | LocalReference v \<Rightarrow> v)"

definition selector :: "feature_reference \<Rightarrow> string" where
  "selector r = (case r of
     OciReference v \<Rightarrow> option_or (strip_prefix (oci_resource_name v) v) []
   | HttpsReference _ \<Rightarrow> [] | LocalReference _ \<Rightarrow> [])"

section \<open>Content identities\<close>

definition FeatureInstallIdentity_oci_digest :: "string \<Rightarrow> (feature_install_identity, feature_error) result" where
  "FeatureInstallIdentity_oci_digest digest =
     and_then (map_err (InvalidIdentity digest) (validate_sha256 digest)) (\<lambda>_. Ok (OciDigest digest))"

definition FeatureInstallIdentity_https_integrity :: "string \<Rightarrow> (feature_install_identity, feature_error) result" where
  "FeatureInstallIdentity_https_integrity integrity =
     and_then (map_err (InvalidIdentity integrity) (validate_sha256 integrity)) (\<lambda>_. Ok (HttpsIntegrity integrity))"

definition FeatureInstallIdentity_local :: "feature_reference \<Rightarrow> feature_install_identity" where
  "FeatureInstallIdentity_local r = LocalIdentity (ref_text r)"

definition identity_label :: "feature_install_identity \<Rightarrow> string" where
  "identity_label i = (case i of OciDigest v \<Rightarrow> v | HttpsIntegrity v \<Rightarrow> v | LocalIdentity v \<Rightarrow> v)"

text \<open>The derived \<^verbatim>\<open>Ord\<close> instances: the constructor, then its text.\<close>

fun reference_rank :: "feature_reference \<Rightarrow> nat" where
  "reference_rank (OciReference _) = 0"
| "reference_rank (HttpsReference _) = 1"
| "reference_rank (LocalReference _) = 2"

fun identity_rank :: "feature_install_identity \<Rightarrow> nat" where
  "identity_rank (OciDigest _) = 0"
| "identity_rank (HttpsIntegrity _) = 1"
| "identity_rank (LocalIdentity _) = 2"

lemma reference_rank_inj: "reference_rank a = reference_rank b \<Longrightarrow> ref_text a = ref_text b \<Longrightarrow> a = b"
  by (cases a; cases b) auto

lemma identity_rank_inj: "identity_rank a = identity_rank b \<Longrightarrow> identity_label a = identity_label b \<Longrightarrow> a = b"
  by (cases a; cases b) (auto simp: identity_label_def)

instantiation feature_reference :: linorder
begin

definition less_eq_feature_reference :: "feature_reference \<Rightarrow> feature_reference \<Rightarrow> bool" where
  "less_eq_feature_reference a b \<longleftrightarrow> reference_rank a < reference_rank b \<or>
     (reference_rank a = reference_rank b \<and> ref_text a \<le> ref_text b)"

definition less_feature_reference :: "feature_reference \<Rightarrow> feature_reference \<Rightarrow> bool" where
  "less_feature_reference a b \<longleftrightarrow> reference_rank a < reference_rank b \<or>
     (reference_rank a = reference_rank b \<and> ref_text a < ref_text b)"

instance
  by standard (auto simp: less_eq_feature_reference_def less_feature_reference_def intro: reference_rank_inj)

end

instantiation feature_install_identity :: linorder
begin

definition less_eq_feature_install_identity :: "feature_install_identity \<Rightarrow> feature_install_identity \<Rightarrow> bool" where
  "less_eq_feature_install_identity a b \<longleftrightarrow> identity_rank a < identity_rank b \<or>
     (identity_rank a = identity_rank b \<and> identity_label a \<le> identity_label b)"

definition less_feature_install_identity :: "feature_install_identity \<Rightarrow> feature_install_identity \<Rightarrow> bool" where
  "less_feature_install_identity a b \<longleftrightarrow> identity_rank a < identity_rank b \<or>
     (identity_rank a = identity_rank b \<and> identity_label a < identity_label b)"

instance
  by standard (auto simp: less_eq_feature_install_identity_def less_feature_install_identity_def
    intro: identity_rank_inj)

end

section \<open>Facts on text\<close>

lemma contains_str_append: "contains_str p (a @ p @ b)"
proof (induction a)
  case Nil
  have "prefix p (p @ b)" by simp
  then show ?case unfolding contains_str_def by (cases "p @ b") auto
qed (auto simp: contains_str_def)

lemma contains_str_iff: "contains_str p s \<longleftrightarrow> (\<exists>a b. s = a @ p @ b)"
  using contains_str_append find_str_Some by (auto simp: contains_str_def) blast

lemma rsplit_once_Some: "rsplit_once d s = Some (a, b) \<longleftrightarrow> s = a @ d # b \<and> d \<notin> set b"
proof -
  have "rsplit_once d s = Some (a, b) \<longleftrightarrow> split_once d (rev s) = Some (rev b, rev a)"
    by (auto simp: rsplit_once_def)
  also have "\<dots> \<longleftrightarrow> rev s = rev b @ d # rev a \<and> d \<notin> set b" by (simp add: split_once_Some)
  also have "rev s = rev b @ d # rev a \<longleftrightarrow> s = a @ d # b"
    by (simp add: rev_swap)
  finally show ?thesis .
qed

lemma rsplit_once_None: "rsplit_once d s = None \<longleftrightarrow> d \<notin> set s"
  by (simp add: rsplit_once_def)

lemma split_on_plain:
  "d \<notin> set w \<Longrightarrow> split_on d (s @ w) = butlast (split_on d s) @ [last (split_on d s) @ w]"
proof (induction s)
  case Nil
  then show ?case by (simp add: split_on_none)
next
  case (Cons c s)
  obtain v vs where "split_on d s = v # vs" by (cases "split_on d s") auto
  with Cons show ?case by (cases vs) auto
qed

text \<open>Lowering ASCII letters moves no separator.\<close>

lemma lower_char_separator:
  "\<not> is_ascii_alphabetic (byte d) \<Longrightarrow> to_ascii_lowercase_char c = d \<longleftrightarrow> c = d"
  by (auto simp: to_ascii_lowercase_char_def is_ascii_alphabetic_def is_ascii_uppercase_def
      is_ascii_lowercase_def)

lemma lower_separator [simp]:
  "\<not> is_ascii_alphabetic (byte d) \<Longrightarrow> d \<in> set (to_ascii_lowercase s) \<longleftrightarrow> d \<in> set s"
  using lower_char_separator [of d] by (force simp: to_ascii_lowercase_def)

lemma split_on_lower:
  "\<not> is_ascii_alphabetic (byte d) \<Longrightarrow> split_on d (to_ascii_lowercase s) = map to_ascii_lowercase (split_on d s)"
  by (induction s) (auto simp: to_ascii_lowercase_def lower_char_separator split: list.splits)

lemma lower_char_high: "128 \<le> byte c \<Longrightarrow> to_ascii_lowercase_char c = c"
  by (simp add: to_ascii_lowercase_char_def is_ascii_uppercase_def)

lemma cont_high: "utf8_cont c \<Longrightarrow> 128 \<le> byte c"
  by (simp add: utf8_cont_def)

lemma utf8_front_split:
  assumes "valid_utf8 (a # s)" and "\<not> byte a < 128"
  obtains cs r where "s = cs @ r" "length cs = utf8_width a - 1" "valid_utf8 (a # cs)" "\<forall>c \<in> set cs. 128 \<le> byte c"
proof -
  consider (two) b r where "byte a < 224" "s = [b] @ r" "valid_utf8 [a, b]" "utf8_cont b"
    | (three) b c r where "224 \<le> byte a" "byte a < 240" "s = [b, c] @ r" "valid_utf8 [a, b, c]"
        "utf8_cont b" "utf8_cont c"
    | (four) b c d r where "240 \<le> byte a" "s = [b, c, d] @ r" "valid_utf8 [a, b, c, d]"
        "utf8_cont b" "utf8_cont c" "utf8_cont d"
    using assms by (cases "byte a < 224"; cases "byte a < 240") (auto split: if_splits list.splits)
  then show ?thesis
  proof cases
    case two
    with that [of "[b]" r] assms(2) show ?thesis by (simp add: utf8_width_def cont_high)
  next
    case three
    with that [of "[b, c]" r] show ?thesis by (simp add: utf8_width_def cont_high)
  next
    case four
    with that [of "[b, c, d]" r] show ?thesis by (simp add: utf8_width_def cont_high)
  qed
qed

lemma lower_high: "\<forall>c \<in> set cs. 128 \<le> byte c \<Longrightarrow> to_ascii_lowercase cs = cs"
  by (simp add: to_ascii_lowercase_def lower_char_high map_idI)

lemma whitespace_upper: "is_ascii_uppercase n \<Longrightarrow> \<not> is_whitespace n \<and> \<not> is_whitespace (n + 32)"
  by (auto simp: is_ascii_uppercase_def is_whitespace_def)

lemma lower_whitespace:
  "valid_utf8 s \<Longrightarrow> list_ex is_whitespace (chars (to_ascii_lowercase s)) = list_ex is_whitespace (chars s) \<and>
     valid_utf8 (to_ascii_lowercase s)"
proof (induction "length s" arbitrary: s rule: less_induct)
  case less
  show ?case
  proof (cases s)
    case (Cons a t)
    show ?thesis
    proof (cases "byte a < 128")
      case True
      let ?b = "to_ascii_lowercase_char a"
      have b: "byte ?b < 128" "is_whitespace (byte ?b) = is_whitespace (byte a)"
        using True whitespace_upper [of "byte a"] by (auto simp: to_ascii_lowercase_byte is_ascii_uppercase_def)
      have "to_ascii_lowercase s = ?b # to_ascii_lowercase t" by (simp add: Cons to_ascii_lowercase_def)
      with Cons True b less show ?thesis by (simp add: chars_Cons front_scalar_ascii utf8_width_def)
    next
      case False
      with less.prems Cons obtain cs r where sp: "t = cs @ r" "length cs = utf8_width a - 1"
        "valid_utf8 (a # cs)" "\<forall>c \<in> set cs. 128 \<le> byte c"
        by (metis utf8_front_split)
      have front: "chars (a # cs @ x) = front_scalar (a # cs) # chars x" for x
        using utf8_front_append [OF sp(3), of x] sp(2) by (simp add: chars_Cons)
      have valid: "valid_utf8 (a # cs @ x) = valid_utf8 x" for x
        using valid_utf8_append [OF sp(3), of x] by simp
      have "to_ascii_lowercase s = a # cs @ to_ascii_lowercase r"
        using Cons sp False lower_high [OF sp(4)] lower_high [of "[a]"]
        by (simp add: to_ascii_lowercase_def)
      with less.hyps [of r] less.prems Cons sp(1) front valid show ?thesis by simp
    qed
  qed (simp add: to_ascii_lowercase_def)
qed

section \<open>Normal forms\<close>

definition local_part_ok :: "string \<Rightarrow> bool" where
  "local_part_ok p \<longleftrightarrow> p \<noteq> [] \<and> p \<noteq> ''.'' \<and> p \<noteq> ''..'' \<and> NUL \<notin> set p \<and> BACKSLASH \<notin> set p"

lemma local_parts_Ok:
  "local_parts input ps = Ok out \<Longrightarrow> out = filter (\<lambda>p. p \<noteq> [] \<and> p \<noteq> ''.'') ps \<and> list_all local_part_ok out"
  by (induction ps arbitrary: out) (auto simp: local_part_ok_def split: if_splits)

lemma local_parts_id: "list_all local_part_ok ps \<Longrightarrow> local_parts input ps = Ok ps"
  by (induction ps) (auto simp: local_part_ok_def)

lemma normalize_local_Ok:
  assumes "normalize_local input = Ok out"
  obtains parts where "out = ''./'' @ join ''/'' parts" "parts \<noteq> []" "list_all local_part_ok parts"
    "\<forall>p \<in> set parts. CHR ''/'' \<notin> set p" "set parts \<subseteq> set (split_on (CHR ''/'') (drop 2 input))"
proof -
  from assms obtain parts where p: "local_parts input (split_on (CHR ''/'') (drop 2 input)) = Ok parts"
    "parts \<noteq> []" "out = ''./'' @ join ''/'' parts"
    by (auto simp: normalize_local_def split: if_splits)
  from local_parts_Ok [OF p(1)] p(2,3) that [of parts] show thesis
    using split_on_pieces [of _ "CHR ''/''" "drop 2 input"] by force
qed

lemma normalize_local_fixed:
  assumes "normalize_local input = Ok out"
  shows "normalize_local out = Ok out"
  using assms
proof (rule normalize_local_Ok)
  fix parts
  assume p: "out = ''./'' @ join ''/'' parts" "parts \<noteq> []" "list_all local_part_ok parts"
    "\<forall>p \<in> set parts. CHR ''/'' \<notin> set p"
  then have "split_on (CHR ''/'') (drop 2 out) = parts" by (simp add: split_on_join)
  with p show ?thesis by (simp add: normalize_local_def local_parts_id)
qed

text \<open>The shape of a normalized OCI reference: registry, repository, and a tag, a digest or both.\<close>

definition public_host :: "string \<Rightarrow> bool" where
  "public_host h \<longleftrightarrow> \<not> private_name (to_ascii_lowercase h) \<and>
     \<not> is_some_and (parse_ip_addr (to_ascii_lowercase h)) private_address"

definition tag_ok :: "string \<Rightarrow> bool" where
  "tag_ok t \<longleftrightarrow> t = [] \<or> (\<exists>u. t = CHR '':'' # u \<and> u \<noteq> [] \<and> CHR '':'' \<notin> set u \<and> CHR ''/'' \<notin> set u)"

definition registry_ok :: "string \<Rightarrow> bool" where
  "registry_ok r \<longleftrightarrow> CHR ''/'' \<notin> set r \<and> public_host (hd (split_on (CHR '':'') r))"

lemma reject_private_host_Ok: "reject_private_host r h = Ok u \<longleftrightarrow> public_host h"
  by (simp add: reject_private_host_def public_host_def Let_def)

lemma repository_ok_chars:
  assumes "repository_ok r" and "c \<in> set r"
  shows "c = CHR ''/'' \<or> repository_byte (byte c)"
proof -
  have "c = d \<or> (\<exists>p \<in> set (split_on d r). c \<in> set p)" if "c \<in> set r" for d r
    using that by (induction r) (auto split: list.splits)
  with assms show ?thesis by (fastforce simp: repository_ok_def list_ex_iff list_all_iff)
qed

lemma repository_no_colon: "repository_ok r \<Longrightarrow> CHR '':'' \<notin> set r"
  using repository_ok_chars [of r "CHR '':''"]
  by (auto simp: repository_byte_def is_ascii_lowercase_def is_ascii_digit_def)

lemma hd_split_dot: "CHR ''.'' \<in> set (hd (split_on d r)) \<Longrightarrow> CHR ''.'' \<in> set r"
  using split_on_pieces [of "hd (split_on d r)" d r] by (cases "split_on d r") auto

lemma public_host_dot: "public_host h \<Longrightarrow> CHR ''.'' \<in> set h"
  by (auto simp: public_host_def private_name_def is_ascii_alphabetic_def is_ascii_uppercase_def
      is_ascii_lowercase_def)

lemma normalize_oci_name_shape:
  assumes "registry_ok reg" and "repository_ok repo" and "tag_ok t"
  shows "normalize_oci_name input (reg @ CHR ''/'' # repo @ t) digest =
    Ok (to_ascii_lowercase reg @ ''/'' @ repo @ t @ (if digest = None \<and> t = [] then '':latest'' else []) @
      (case digest of None \<Rightarrow> [] | Some d \<Rightarrow> ''@'' @ d))"
proof -
  have sp: "split_once (CHR ''/'') (reg @ CHR ''/'' # repo @ t) = Some (reg, repo @ t)"
    using assms(1) by (simp add: registry_ok_def)
  have host: "reject_private_host input (hd (split_on (CHR '':'') reg)) = Ok ()"
    using assms(1) by (simp add: registry_ok_def reject_private_host_Ok)
  have dot: "CHR ''.'' \<in> set reg"
    using assms(1) by (auto simp: registry_ok_def intro: hd_split_dot public_host_dot)
  have nc: "CHR '':'' \<notin> set repo" using assms(2) by (rule repository_no_colon)
  have nl: "CHR '':'' \<notin> set (last (split_on (CHR ''/'') repo))"
    using nc split_on_pieces [of "last (split_on (CHR ''/'') repo)"] by (meson last_in_set split_on_not_Nil subsetD)
  show ?thesis
  proof (cases "t = []")
    case True
    with sp host dot nl assms(2) show ?thesis by (simp add: normalize_oci_name_def Let_def)
  next
    case False
    with assms(3) obtain u where u: "t = CHR '':'' # u" "u \<noteq> []" "CHR '':'' \<notin> set u" "CHR ''/'' \<notin> set u"
      by (auto simp: tag_ok_def)
    have "rsplit_once (CHR '':'') (w @ CHR '':'' # u) = Some (w, u)" for w
      using u(3) by (simp add: rsplit_once_Some)
    moreover have "last (split_on (CHR ''/'') (repo @ CHR '':'' # u)) = last (split_on (CHR ''/'') repo) @ CHR '':'' # u"
      using u(4) by (simp add: split_on_plain)
    ultimately show ?thesis
      using sp host dot u assms(2) by (simp add: normalize_oci_name_def Let_def)
  qed
qed

lemma normalize_oci_name_Ok:
  assumes "normalize_oci_name input n digest = Ok out"
  obtains reg repo t where "n = reg @ CHR ''/'' # repo @ t" "registry_ok reg" "repository_ok repo" "tag_ok t"
proof -
  from assms obtain reg rt where sp: "n = reg @ CHR ''/'' # rt" "CHR ''/'' \<notin> set reg"
    and split: "split_once (CHR ''/'') n = Some (reg, rt)"
    by (auto simp: normalize_oci_name_def split_once_Some split: option.splits)
  from assms split have host: "public_host (hd (split_on (CHR '':'') reg))"
    by (auto simp: normalize_oci_name_def reject_private_host_Ok)
  let ?l = "last (split_on (CHR ''/'') rt)"
  show thesis
  proof (cases "CHR '':'' \<in> set ?l")
    case False
    with assms split have "repository_ok rt"
      by (auto simp: normalize_oci_name_def Let_def split: if_splits)
    with sp host that [of reg rt "[]"] show thesis by (simp add: registry_ok_def tag_ok_def)
  next
    case True
    have "set ?l \<subseteq> set rt" using split_on_pieces [of ?l] by (meson last_in_set split_on_not_Nil)
    with True obtain name tag where nt: "rsplit_once (CHR '':'') rt = Some (name, tag)"
      using rsplit_once_None [of "CHR '':''" rt] by (cases "rsplit_once (CHR '':'') rt") auto
    then have rt: "rt = name @ CHR '':'' # tag" "CHR '':'' \<notin> set tag" by (simp_all add: rsplit_once_Some)
    have repo: "repository_ok name"
      using assms split nt True by (auto simp: normalize_oci_name_def Let_def split: if_splits)
    have slash: "CHR ''/'' \<notin> set tag"
    proof
      assume "CHR ''/'' \<in> set tag"
      then obtain a b where "tag = a @ CHR ''/'' # b" "CHR ''/'' \<notin> set b" by (meson split_list_last)
      then have "?l = b" using last_split_on_append [of "CHR ''/''" b "name @ CHR '':'' # a"] rt by simp
      with True rt(2) \<open>tag = a @ CHR ''/'' # b\<close> show False by simp
    qed
    then have l: "?l = last (split_on (CHR ''/'') name) @ CHR '':'' # tag"
      unfolding rt by (subst split_on_plain) simp_all
    then have "rsplit_once (CHR '':'') ?l = Some (last (split_on (CHR ''/'') name), tag)"
      using rt(2) by (simp add: rsplit_once_Some)
    with assms split True nt repo have "tag \<noteq> []"
      by (auto simp: normalize_oci_name_def Let_def split: if_splits)
    with repo slash rt sp host that [of reg name "CHR '':'' # tag"] show thesis
      by (simp add: registry_ok_def tag_ok_def)
  qed
qed

definition oci_text :: "string \<Rightarrow> string \<Rightarrow> string \<Rightarrow> string option \<Rightarrow> string" where
  "oci_text reg repo t digest = reg @ CHR ''/'' # repo @ t @ (case digest of None \<Rightarrow> [] | Some d \<Rightarrow> CHR ''@'' # d)"

definition digest_ok :: "string option \<Rightarrow> bool" where
  "digest_ok d = (case d of None \<Rightarrow> True | Some d \<Rightarrow> validate_sha256 d = Ok ())"

lemma digest_plain:
  assumes "validate_sha256 d = Ok ()"
  shows "prefix ''sha256:'' d" and "ascii d" and "CHR ''@'' \<notin> set d" and "CHR ''/'' \<notin> set d"
    and "\<not> list_ex is_whitespace (chars d)"
proof -
  obtain h where h: "d = ''sha256:'' @ h" "list_all (\<lambda>c. is_sha256_hex (byte c)) h"
    using assms by (auto simp: validate_sha256_def strip_prefix_Some split: option.splits if_splits)
  then have c: "is_sha256_hex (byte c) \<or> c \<in> set ''sha256:''" if "c \<in> set d" for c
    using that by (auto simp: list_all_iff)
  show "prefix ''sha256:'' d" "CHR ''@'' \<notin> set d" "CHR ''/'' \<notin> set d"
    using h c [of "CHR ''@''"] c [of "CHR ''/''"] by (auto simp: is_sha256_hex_def is_ascii_digit_def)
  have "byte c < 128 \<and> \<not> is_whitespace (byte c)" if "c \<in> set d" for c
    using c [OF that] by (auto simp: is_sha256_hex_def is_ascii_digit_def is_whitespace_def)
  then show "ascii d" "\<not> list_ex is_whitespace (chars d)"
    by (simp_all add: chars_ascii list_ex_iff)
qed

lemma at_split:
  obtains n digest where "input = n @ (case digest of None \<Rightarrow> [] | Some d \<Rightarrow> CHR ''@'' # d)" "CHR ''@'' \<notin> set n"
    "(case split_once (CHR ''@'') input of None \<Rightarrow> (input, None)
      | Some (name, digest) \<Rightarrow> (name, Some digest)) = (n, digest)"
proof (cases "split_once (CHR ''@'') input")
  case None
  then have "CHR ''@'' \<notin> set input" by simp
  with None that [of input None] show thesis unfolding None by simp
next
  case (Some p)
  obtain n d where p: "p = (n, d)" by fastforce
  with Some have "input = n @ CHR ''@'' # d" "CHR ''@'' \<notin> set n" by (simp_all add: split_once_Some)
  with that [of n "Some d"] show thesis unfolding Some p by simp
qed

lemma normalize_oci_cases:
  assumes "normalize_oci input = Ok out"
  obtains reg repo t digest where "input = oci_text reg repo t digest" "registry_ok reg" "repository_ok repo"
    "tag_ok t" "digest_ok digest" "CHR ''@'' \<notin> set (reg @ repo @ t)" "\<not> list_ex is_whitespace (chars input)"
    "out = oci_text (to_ascii_lowercase reg) repo (if digest = None \<and> t = [] then '':latest'' else t) digest"
proof -
  obtain n digest where at: "input = n @ (case digest of None \<Rightarrow> [] | Some d \<Rightarrow> CHR ''@'' # d)" "CHR ''@'' \<notin> set n"
    and nd: "(case split_once (CHR ''@'') input of None \<Rightarrow> (input, None)
      | Some (name, digest) \<Rightarrow> (name, Some digest)) = (n, digest)"
    by (rule at_split)
  from assms have name: "normalize_oci_name input n digest = Ok out" and dig: "digest_ok digest"
    and ws: "\<not> list_ex is_whitespace (chars input)"
    by (auto simp: normalize_oci_def nd digest_ok_def split: if_splits option.splits)
  from name obtain reg repo t where sh: "n = reg @ CHR ''/'' # repo @ t" "registry_ok reg"
    "repository_ok repo" "tag_ok t" by (rule normalize_oci_name_Ok)
  have "out = oci_text (to_ascii_lowercase reg) repo (if digest = None \<and> t = [] then '':latest'' else t) digest"
    using name unfolding sh(1) normalize_oci_name_shape [OF sh(2-4)] by (auto simp: oci_text_def split: option.splits)
  with sh at dig ws that [of reg repo t digest] show thesis by (simp add: oci_text_def)
qed

lemma oci_text_split:
  assumes "CHR ''@'' \<notin> set (reg @ repo @ t)"
  shows "(case split_once (CHR ''@'') (oci_text reg repo t digest) of None \<Rightarrow> (oci_text reg repo t digest, None)
      | Some (name, digest) \<Rightarrow> (name, Some digest)) = (reg @ CHR ''/'' # repo @ t, digest)"
proof (cases digest)
  case None
  with assms have "split_once (CHR ''@'') (oci_text reg repo t digest) = None" by (simp add: oci_text_def)
  then show ?thesis unfolding \<open>split_once _ _ = None\<close> using None by (simp add: oci_text_def)
next
  case (Some d)
  have "split_once (CHR ''@'') ((reg @ CHR ''/'' # repo @ t) @ CHR ''@'' # d) = Some (reg @ CHR ''/'' # repo @ t, d)"
    using assms by (intro split_once_append) simp
  with Some show ?thesis by (simp add: oci_text_def)
qed

lemma normalize_oci_shape:
  assumes "registry_ok reg" "repository_ok repo" "tag_ok t" "digest_ok digest" "CHR ''@'' \<notin> set (reg @ repo @ t)"
    and "\<not> list_ex is_whitespace (chars (oci_text reg repo t digest))"
  shows "normalize_oci (oci_text reg repo t digest) =
    Ok (oci_text (to_ascii_lowercase reg) repo (if digest = None \<and> t = [] then '':latest'' else t) digest)"
proof -
  have "CHR ''@'' \<in> set (oci_text reg repo t digest) \<Longrightarrow> contains_str ''@sha256:'' (oci_text reg repo t digest)"
  proof -
    assume "CHR ''@'' \<in> set (oci_text reg repo t digest)"
    with assms(5) obtain d where d: "digest = Some d" by (cases digest) (auto simp: oci_text_def)
    then obtain h where "d = ''sha256:'' @ h" using assms(4) digest_plain(1) [of d] by (auto simp: digest_ok_def prefix_def)
    with d have "oci_text reg repo t digest = (reg @ CHR ''/'' # repo @ t) @ ''@sha256:'' @ h"
      by (simp add: oci_text_def)
    then show ?thesis by (metis contains_str_append)
  qed
  moreover have "oci_text reg repo t digest \<noteq> []" by (simp add: oci_text_def)
  moreover have "(case digest of None \<Rightarrow> Ok () | Some d \<Rightarrow> map_err (unsupported i) (validate_sha256 d)) = Ok ()" for i
    using assms(4) by (auto simp: digest_ok_def map_err_def split: option.splits)
  ultimately show ?thesis
    using assms(6) unfolding normalize_oci_def oci_text_split [OF assms(5)] Let_def
    by (auto simp: normalize_oci_name_shape [OF assms(1-3)] oci_text_def split: option.splits)
qed

lemma registry_ok_lower: "registry_ok (to_ascii_lowercase reg) = registry_ok reg"
proof -
  have "\<not> is_ascii_alphabetic (byte (CHR ''/''))" "\<not> is_ascii_alphabetic (byte (CHR '':''))"
    by (simp_all add: is_ascii_alphabetic_def is_ascii_uppercase_def is_ascii_lowercase_def)
  then show ?thesis
    by (simp add: registry_ok_def split_on_lower hd_map public_host_def)
qed

lemma repository_nonempty: "repository_ok r \<Longrightarrow> [] \<notin> set (split_on (CHR ''/'') r)"
  by (auto simp: repository_ok_def list_ex_iff)

lemma oci_text_pieces:
  assumes "registry_ok reg" "repository_ok repo" "tag_ok t" "digest_ok digest"
  shows "[] \<notin> set (split_on (CHR ''/'') (oci_text reg repo t digest))"
proof -
  let ?w = "t @ (case digest of None \<Rightarrow> [] | Some d \<Rightarrow> CHR ''@'' # d)"
  have w: "CHR ''/'' \<notin> set ?w"
    using assms(3,4) digest_plain(4) by (auto simp: tag_ok_def digest_ok_def split: option.splits)
  have reg: "reg \<noteq> []" "CHR ''/'' \<notin> set reg"
    using assms(1) by (auto simp: registry_ok_def public_host_def private_name_def to_ascii_lowercase_def)
  have "split_on (CHR ''/'') (oci_text reg repo t digest) =
      reg # butlast (split_on (CHR ''/'') repo) @ [last (split_on (CHR ''/'') repo) @ ?w]"
    unfolding oci_text_def split_on_append [OF reg(2)] using split_on_plain [OF w, of repo] by simp
  moreover have "last (split_on (CHR ''/'') repo) \<noteq> []" "[] \<notin> set (butlast (split_on (CHR ''/'') repo))"
    using repository_nonempty [OF assms(2)] last_in_set [OF split_on_not_Nil, of "CHR ''/''" repo]
    by (metis, metis in_set_butlastD)
  ultimately show ?thesis using reg(1) by simp
qed

lemma oci_text_not_transport:
  assumes "registry_ok reg" "repository_ok repo" "tag_ok t" "digest_ok digest"
  shows "\<not> contains_str ''://'' (oci_text reg repo t digest)"
    and "\<not> prefix ''http:'' (oci_text reg repo t digest)"
    and "\<not> prefix ''https://'' (oci_text reg repo t digest)"
    and "prefix ''./'' (oci_text reg repo t digest) \<Longrightarrow> reg = ''.''"
proof -
  let ?o = "oci_text reg repo t digest"
  show no: "\<not> contains_str ''://'' ?o"
  proof
    assume "contains_str ''://'' ?o"
    then obtain a b where "?o = (a @ '':'') @ CHR ''/'' # CHR ''/'' # b" by (auto simp: contains_str_iff)
    then have "[] \<in> set (split_on (CHR ''/'') ?o)" by (simp only: split_on_concat) simp
    with oci_text_pieces [OF assms] show False ..
  qed
  have host: "CHR ''.'' \<in> set (hd (split_on (CHR '':'') reg))"
    using assms(1) by (auto simp: registry_ok_def intro: public_host_dot)
  show "\<not> prefix ''http:'' ?o"
  proof
    assume "prefix ''http:'' ?o"
    then obtain r where r: "reg @ CHR ''/'' # (repo @ t @ (case digest of None \<Rightarrow> [] | Some d \<Rightarrow> CHR ''@'' # d)) =
        ''http:'' @ r" by (auto simp: oci_text_def prefix_def)
    have "takeWhile (\<lambda>c. c \<noteq> CHR ''/'') (reg @ CHR ''/'' # x) = reg" for x
      using assms(1) unfolding registry_ok_def by (subst takeWhile_append2) auto
    with r have "reg = takeWhile (\<lambda>c. c \<noteq> CHR ''/'') (''http:'' @ r)" by metis
    then obtain u where "reg = ''http:'' @ u" by simp
    then have "hd (split_on (CHR '':'') reg) = ''http''"
      using split_on_append [of "CHR '':''" "''http''" u] by simp
    with host show False by simp
  qed
  show "\<not> prefix ''https://'' ?o"
    using no contains_str_append [of "''://''" "''https''"] by (auto simp: prefix_def)
  show "reg = ''.''" if "prefix ''./'' ?o"
    using that host assms(1)
    by (cases reg rule: remdups_adj.cases) (auto simp: oci_text_def registry_ok_def)
qed

lemma oci_text_whitespace:
  assumes "valid_utf8 (oci_text reg repo t digest)" "repository_ok repo" "tag_ok t"
    and "\<not> list_ex is_whitespace (chars (oci_text reg repo t digest))"
  shows "\<not> list_ex is_whitespace (chars (oci_text (to_ascii_lowercase reg) repo
      (if digest = None \<and> t = [] then '':latest'' else t) digest))"
proof -
  let ?d = "case digest of None \<Rightarrow> [] | Some d \<Rightarrow> CHR ''@'' # d"
  have v: "valid_utf8 reg" "valid_utf8 (CHR ''/'' # repo @ t @ ?d)"
    using assms(1) valid_utf8_cut_iff [of "CHR ''/''" reg] by (simp_all add: oci_text_def)
  have "byte c < 128" if "c \<in> set repo" for c
    using repository_ok_chars [OF assms(2) that]
    by (auto simp: repository_byte_def is_ascii_lowercase_def is_ascii_digit_def)
  then have vr: "valid_utf8 (CHR ''/'' # repo)" by (auto intro: ascii_valid_utf8)
  have rest: "\<not> list_ex is_whitespace (chars (CHR ''/'' # repo @ t @ ?d))" "\<not> list_ex is_whitespace (chars reg)"
    using assms(4) chars_append [OF v(1), of "CHR ''/'' # repo @ t @ ?d"] by (simp_all add: oci_text_def)
  have latest: "\<not> list_ex is_whitespace (chars '':latest'')"
    by (simp add: chars_ascii is_whitespace_def)
  have "chars (CHR ''/'' # repo @ '':latest'') = chars (CHR ''/'' # repo) @ chars '':latest''"
    using chars_append [OF vr] by simp
  then have "\<not> list_ex is_whitespace (chars (CHR ''/'' # repo @ (if digest = None \<and> t = [] then '':latest'' else t) @ ?d))"
    using rest latest by auto
  then show ?thesis
    using rest chars_append [OF conjunct2 [OF lower_whitespace [OF v(1)]]] lower_whitespace [OF v(1)]
    by (simp add: oci_text_def)
qed

lemma oci_parse_fixed:
  assumes "valid_utf8 input" and "normalize_oci input = Ok out" and "\<not> prefix ''./'' input"
  shows "FeatureReference_parse url_parse out = Ok (OciReference out)"
  using assms(2)
proof (rule normalize_oci_cases)
  fix reg repo t and digest :: "string option"
  let ?reg = "to_ascii_lowercase reg" and ?t = "if digest = None \<and> t = [] then '':latest'' else t"
  assume sh: "input = oci_text reg repo t digest" "registry_ok reg" "repository_ok repo" "tag_ok t"
    "digest_ok digest" "CHR ''@'' \<notin> set (reg @ repo @ t)" "\<not> list_ex is_whitespace (chars input)"
    and out: "out = oci_text ?reg repo ?t digest"
  have reg: "registry_ok ?reg" using sh(2) by (simp add: registry_ok_lower)
  have t: "tag_ok ?t" using sh(4) by (auto simp: tag_ok_def)
  have at: "CHR ''@'' \<notin> set (?reg @ repo @ ?t)"
    using sh(6) by (simp add: is_ascii_alphabetic_def is_ascii_uppercase_def is_ascii_lowercase_def)
  have ws: "\<not> list_ex is_whitespace (chars (oci_text ?reg repo ?t digest))"
    using oci_text_whitespace [of reg repo t digest] assms(1) sh by simp
  have "(if digest = None \<and> ?t = [] then '':latest'' else ?t) = ?t" by simp
  then have norm: "normalize_oci out = Ok out"
    using normalize_oci_shape [OF reg sh(3) t sh(5) at ws] unfolding out by (simp only: to_ascii_lowercase_idem)
  have "reg \<noteq> ''.''" using assms(3) sh(1) by (auto simp: oci_text_def)
  then have "?reg \<noteq> ''.''"
    using lower_char_separator [of "CHR ''.''"]
    by (auto simp: to_ascii_lowercase_def map_eq_Cons_conv is_ascii_alphabetic_def is_ascii_uppercase_def
        is_ascii_lowercase_def)
  note kind = this oci_text_not_transport [OF reg sh(3) t sh(5), folded out]
  then have "\<not> prefix ''./'' out" by blast
  with kind(2-4) norm show ?thesis unfolding FeatureReference_parse_def by (simp only: if_False simp_thms map_ok_simps)
qed

lemma local_parse_fixed:
  assumes "normalize_local input = Ok out"
  shows "FeatureReference_parse url_parse out = Ok (LocalReference out)"
  using normalize_local_fixed [OF assms] assms
  by (auto simp: FeatureReference_parse_def elim: normalize_local_Ok)

section \<open>Properties\<close>

text \<open>C32: the canonical text of an accepted OCI or local reference is a fixed point: parsing it again accepts it
  unchanged, so a reference found in a lock names the same Feature as the configuration it came from.\<close>

theorem feature_reference_canonical:
  assumes "valid_utf8 input" and "FeatureReference_parse url_parse input = Ok r"
    and "\<not> prefix ''https://'' input"
  shows "FeatureReference_parse url_parse (ref_text r) = Ok r"
proof (cases "prefix ''./'' input")
  case True
  with assms(2) obtain out where "normalize_local input = Ok out" "r = LocalReference out"
    by (auto simp: FeatureReference_parse_def)
  then show ?thesis by (simp add: local_parse_fixed)
next
  case False
  with assms(2,3) obtain out where "normalize_oci input = Ok out" "r = OciReference out"
    by (auto simp: FeatureReference_parse_def split: if_splits)
  with oci_parse_fixed [OF assms(1) _ False] show ?thesis by simp
qed

lemma sample_registry: "registry_ok ''GHCR.IO''"
proof -
  have l: "to_ascii_lowercase ''GHCR.IO'' = ''ghcr.io''"
    by (simp add: to_ascii_lowercase_def to_ascii_lowercase_char_def is_ascii_uppercase_def char_of_def bit_0)
  have "read_number 10 3 b m ''ghcr.io'' = None" "read_number 16 4 b m ''ghcr.io'' = None" for b m
    by (simp_all add: read_number_def radix_digit_def hex_digit_def)
  then have "parse_ip_addr ''ghcr.io'' = None"
    by (simp add: parse_ip_addr_def read_ipv4_def read_octet_def read_ipv6_def read_groups.simps
        read_separated_def read_char_def)
  with l show ?thesis
    by (simp add: registry_ok_def public_host_def private_name_def strip_suffix_def suffix_def)
qed

theorem feature_reference_canonical_witness:
  "FeatureReference_parse (\<lambda>_. Err []) ''ghcr.io/features/git:latest'' =
     FeatureReference_parse (\<lambda>_. Err []) ''GHCR.IO/features/git''"
proof -
  let ?p = "FeatureReference_parse (\<lambda>_. Err [])"
  have o: "oci_text ''GHCR.IO'' ''features/git'' [] None = ''GHCR.IO/features/git''"
    by (simp add: oci_text_def)
  have repo: "repository_ok ''features/git''"
    by (simp add: repository_ok_def repository_byte_def is_ascii_lowercase_def)
  have "\<not> list_ex is_whitespace (chars ''GHCR.IO/features/git'')"
    by (simp add: chars_ascii is_whitespace_def)
  then have "normalize_oci ''GHCR.IO/features/git'' =
      Ok (oci_text (to_ascii_lowercase ''GHCR.IO'') ''features/git'' '':latest'' None)"
    using normalize_oci_shape [OF sample_registry repo, of "[]" None] unfolding o
    by (simp add: tag_ok_def digest_ok_def)
  also have "oci_text (to_ascii_lowercase ''GHCR.IO'') ''features/git'' '':latest'' None =
      ''ghcr.io/features/git:latest''"
    by (simp add: oci_text_def to_ascii_lowercase_def to_ascii_lowercase_char_def is_ascii_uppercase_def
        char_of_def bit_0)
  finally have first: "?p ''GHCR.IO/features/git'' = Ok (OciReference ''ghcr.io/features/git:latest'')"
    by (simp add: FeatureReference_parse_def contains_str_def)
  have "valid_utf8 ''GHCR.IO/features/git''" "\<not> prefix ''https://'' ''GHCR.IO/features/git''"
    by simp_all
  from feature_reference_canonical [OF this(1) first this(2)] first show ?thesis by simp
qed



end
