(* ===== verification/Feature_Metadata.thy ===== *)
theory Feature_Metadata
  imports Feature_Reference Profile
begin

text \<open>
  \<^verbatim>\<open>crates/cdenv-devcontainer/src/feature/metadata.rs\<close>: strict reading of a Feature's metadata from a JSON
  value, and the effective options of a request. An accepted metadata value is shown to declare
  defaults that its own options accept, and effective options to be exactly the declared ones.
\<close>

section \<open>Values\<close>

datatype feature_option =
    BooleanFeature bool
  | StringFeature (option_default: string) (allowed: "string list option") (proposals: "string list")

record feature_contributions =
  fc_container_env :: "(string, string) btree"
  fc_mounts :: "raw_mount list"
  fc_cap_add :: "string list"
  fc_security_opt :: "string list"
  fc_entrypoint :: "string option"
  fc_lifecycle :: lifecycle_commands
  fc_customizations :: "(string, json) btree"
  fc_init :: "bool option"
  fc_privileged :: "bool option"

type_synonym option_values = "(string, feature_value) btree"

record feature_metadata =
  feature_id :: string
  feature_version :: string
  option_definitions :: "(string, feature_option) btree"
  depends_on :: "(feature_reference, option_values) btree"
  installs_after :: "string list"
  contributions :: feature_contributions

definition FEATURE_METADATA_PROPERTIES :: "string list" where
  "FEATURE_METADATA_PROPERTIES = [''id'', ''version'', ''name'', ''description'', ''documentationURL'',
     ''licenseURL'', ''keywords'', ''legacyIds'', ''deprecated'', ''options'', ''dependsOn'',
     ''installsAfter'', ''containerEnv'', ''mounts'', ''capAdd'', ''securityOpt'', ''entrypoint'',
     ''customizations'', ''init'', ''privileged'', ''onCreateCommand'', ''updateContentCommand'',
     ''postCreateCommand'', ''postStartCommand'', ''postAttachCommand'']"

text \<open>\<^verbatim>\<open>BTreeSet\<close> as the ascending list of its elements.\<close>

definition bset_of :: "'a :: linorder list \<Rightarrow> 'a list" where
  "bset_of xs = sort (remdups xs)"

section \<open>Reading members\<close>

definition required_string :: "(string, json) btree \<Rightarrow> string \<Rightarrow> (string, feature_error) result" where
  "required_string obj name =
     ok_or (InvalidMetadata [Member name] (name @ '' must be a string''))
       (Option.bind (bt_get obj name) as_str)"

definition optional_string :: "(string, json) btree \<Rightarrow> string \<Rightarrow> (string option, feature_error) result" where
  "optional_string obj name =
     (case bt_get obj name of
        None \<Rightarrow> Ok None
      | Some v \<Rightarrow> map_ok Some
          (ok_or (InvalidMetadata [Member name] (name @ '' must be a string'')) (as_str v)))"

definition optional_bool :: "(string, json) btree \<Rightarrow> string \<Rightarrow> (bool option, feature_error) result" where
  "optional_bool obj name =
     (case bt_get obj name of
        None \<Rightarrow> Ok None
      | Some v \<Rightarrow> map_ok Some
          (ok_or (InvalidMetadata [Member name] (name @ '' must be a boolean'')) (as_bool v)))"

definition string_items ::
    "path_segment list \<Rightarrow> string \<Rightarrow> json list \<Rightarrow> (string list, feature_error) result" where
  "string_items path message items =
     collect_results (\<lambda>(i, v). ok_or (InvalidMetadata (path @ [Index i]) message) (as_str v)) (enumerate 0 items)"

definition string_array :: "json option \<Rightarrow> path_segment list \<Rightarrow> (string list, feature_error) result" where
  "string_array v path =
     (case v of
        None \<Rightarrow> Ok []
      | Some v \<Rightarrow> and_then (ok_or (InvalidMetadata path ''value must be an array'') (as_array v))
          (string_items path ''array item must be a string''))"

definition string_map :: "json option \<Rightarrow> path_segment list \<Rightarrow> ((string, string) btree, feature_error) result" where
  "string_map v path =
     (case v of
        None \<Rightarrow> Ok []
      | Some v \<Rightarrow> and_then (ok_or (InvalidMetadata path ''value must be an object'') (as_object v)) (\<lambda>obj.
          map_ok bt_of (collect_results (\<lambda>(name, v).
            map_ok (Pair name) (ok_or (InvalidMetadata (path @ [Key name]) ''value must be a string'') (as_str v))) obj)))"

definition object_map :: "json option \<Rightarrow> path_segment list \<Rightarrow> ((string, json) btree, feature_error) result" where
  "object_map v path =
     (case v of
        None \<Rightarrow> Ok []
      | Some v \<Rightarrow> map_ok bt_of (ok_or (InvalidMetadata path ''value must be an object'') (as_object v)))"

definition parse_feature_value :: "json \<Rightarrow> feature_value option" where
  "parse_feature_value v =
     (case as_bool v of Some b \<Rightarrow> Some (BooleanValue b) | None \<Rightarrow> map_option StringValue (as_str v))"

definition parse_option_definition ::
    "string \<times> json \<Rightarrow> (string \<times> feature_option, feature_error) result" where
  "parse_option_definition nv =
     (let name = fst nv; path = [Member ''options'', Key name]
      in and_then (ok_or (InvalidMetadata path ''option definition must be an object'') (as_object (snd nv))) (\<lambda>d.
         and_then (map_err (\<lambda>_. InvalidMetadata (path @ [Member ''type'']) ''option type is required'')
           (required_string d ''type'')) (\<lambda>kind.
         and_then (ok_or (InvalidMetadata (path @ [Member ''default'']) ''option default is required'')
           (bt_get d ''default'')) (\<lambda>dflt.
         if kind = ''boolean''
         then and_then (ok_or (InvalidMetadata (path @ [Member ''default''])
                ''boolean option requires a boolean default'') (as_bool dflt)) (\<lambda>b.
              Ok (name, BooleanFeature b))
         else if kind = ''string''
         then and_then (ok_or (InvalidMetadata (path @ [Member ''default''])
                ''string option requires a string default'') (as_str dflt)) (\<lambda>s.
              and_then (string_array (bt_get d ''enum'') (path @ [Member ''enum''])) (\<lambda>allowed_values.
              and_then (map_ok bset_of (string_array (bt_get d ''proposals'') (path @ [Member ''proposals'']))) (\<lambda>props.
                let alw = (if allowed_values = [] then None else Some (bset_of allowed_values))
                in if is_some_and alw (\<lambda>values. s \<notin> set values)
                   then Err (InvalidMetadata (path @ [Member ''default'']) ''default is not in the option enum'')
                   else Ok (name, StringFeature s alw props))))
         else Err (InvalidMetadata (path @ [Member ''type'']) ''option type must be boolean or string'')))))"

definition parse_option_definitions :: "json option \<Rightarrow> ((string, feature_option) btree, feature_error) result" where
  "parse_option_definitions v =
     (case v of
        None \<Rightarrow> Ok []
      | Some v \<Rightarrow> and_then (ok_or (InvalidMetadata [Member ''options''] ''options must be an object'') (as_object v))
          (\<lambda>obj. map_ok bt_of (collect_results parse_option_definition obj)))"

definition parse_dependency ::
    "feature_url_parser \<Rightarrow> string \<times> json \<Rightarrow> (feature_reference \<times> option_values, feature_error) result" where
  "parse_dependency url_parse rv =
     (let path = [Member ''dependsOn'', Key (fst rv)]
      in and_then (FeatureReference_parse url_parse (fst rv)) (\<lambda>reference.
         and_then (ok_or (InvalidMetadata path ''dependency options must be an object'') (as_object (snd rv))) (\<lambda>options.
         and_then (collect_results (\<lambda>(name, v). map_ok (Pair name)
             (ok_or (InvalidMetadata (path @ [Key name]) ''option must be boolean or string'')
               (parse_feature_value v))) options) (\<lambda>values.
         Ok (reference, bt_of values)))))"

definition parse_dependencies ::
    "feature_url_parser \<Rightarrow> json option \<Rightarrow> ((feature_reference, option_values) btree, feature_error) result" where
  "parse_dependencies url_parse v =
     (case v of
        None \<Rightarrow> Ok []
      | Some v \<Rightarrow> and_then (ok_or (InvalidMetadata [Member ''dependsOn''] ''dependsOn must be an object'') (as_object v))
          (\<lambda>obj. map_ok bt_of (collect_results (parse_dependency url_parse) obj)))"

definition parse_mount :: "nat \<times> json \<Rightarrow> (raw_mount, feature_error) result" where
  "parse_mount iv =
     (case as_str (snd iv) of
        Some s \<Rightarrow> Ok (StringMount s)
      | None \<Rightarrow>
          and_then (ok_or (InvalidMetadata [Member ''mounts'', Index (fst iv)] ''mount must be a string or object'')
            (as_object (snd iv))) (\<lambda>obj.
          and_then (required_string obj ''type'') (\<lambda>kind.
          and_then (required_string obj ''target'') (\<lambda>target.
          and_then (optional_string obj ''source'') (\<lambda>source.
            if kind = ''bind'' then Ok (ObjectMount Bind source target)
            else if kind = ''volume'' then Ok (ObjectMount Volume source target)
            else Err (InvalidMetadata [Member ''mounts'', Index (fst iv), Member ''type'']
              ''mount type must be bind or volume''))))))"

definition parse_mounts :: "json option \<Rightarrow> (raw_mount list, feature_error) result" where
  "parse_mounts v =
     (case v of
        None \<Rightarrow> Ok []
      | Some v \<Rightarrow> and_then (ok_or (InvalidMetadata [Member ''mounts''] ''mounts must be an array'') (as_array v))
          (\<lambda>array. collect_results parse_mount (enumerate 0 array)))"

definition parse_parallel ::
    "path_segment list \<Rightarrow> string \<times> json \<Rightarrow> (string \<times> command_value, feature_error) result" where
  "parse_parallel path nv =
     map_ok (Pair (fst nv))
       (case as_str (snd nv) of
          Some s \<Rightarrow> Ok (ShellValue s)
        | None \<Rightarrow>
            and_then (ok_or (InvalidMetadata (path @ [Key (fst nv)]) ''parallel command must be a string or array'')
              (as_array (snd nv))) (\<lambda>items.
            map_ok ExecValue (string_items (path @ [Key (fst nv)]) ''command argument must be a string'' items)))"

definition parse_command ::
    "json option \<Rightarrow> path_segment list \<Rightarrow> (raw_command option, feature_error) result" where
  "parse_command v path =
     (case v of
        None \<Rightarrow> Ok None
      | Some v \<Rightarrow>
          (case as_str v of
             Some s \<Rightarrow> Ok (Some (ShellCommand s))
           | None \<Rightarrow>
               (case as_array v of
                  Some items \<Rightarrow> map_ok (\<lambda>ts. Some (ExecCommand ts))
                    (string_items path ''command argument must be a string'' items)
                | None \<Rightarrow>
                    and_then (ok_or (InvalidMetadata path ''command must be a string, array, or object'') (as_object v))
                      (\<lambda>obj. map_ok (\<lambda>cs. Some (ParallelCommand (bt_of cs)))
                        (collect_results (parse_parallel path) obj)))))"

definition parse_lifecycle :: "(string, json) btree \<Rightarrow> (lifecycle_commands, feature_error) result" where
  "parse_lifecycle obj =
     (let command = (\<lambda>name. parse_command (bt_get obj name) [Member name])
      in and_then (command ''onCreateCommand'') (\<lambda>on_create.
         and_then (command ''updateContentCommand'') (\<lambda>update_content.
         and_then (command ''postCreateCommand'') (\<lambda>post_create.
         and_then (command ''postStartCommand'') (\<lambda>post_start.
         and_then (command ''postAttachCommand'') (\<lambda>post_attach.
           Ok \<lparr>lc_initialize = None, lc_on_create = on_create, lc_update_content = update_content,
               lc_post_create = post_create, lc_post_start = post_start, lc_post_attach = post_attach\<rparr>))))))"

definition parse_contributions :: "(string, json) btree \<Rightarrow> (feature_contributions, feature_error) result" where
  "parse_contributions obj =
     and_then (string_map (bt_get obj ''containerEnv'') [Member ''containerEnv'']) (\<lambda>env.
     and_then (parse_mounts (bt_get obj ''mounts'')) (\<lambda>ms.
     and_then (string_array (bt_get obj ''capAdd'') [Member ''capAdd'']) (\<lambda>caps.
     and_then (string_array (bt_get obj ''securityOpt'') [Member ''securityOpt'']) (\<lambda>security.
     and_then (optional_string obj ''entrypoint'') (\<lambda>entry.
     and_then (parse_lifecycle obj) (\<lambda>lc.
     and_then (object_map (bt_get obj ''customizations'') [Member ''customizations'']) (\<lambda>custom.
     and_then (optional_bool obj ''init'') (\<lambda>ini.
     and_then (optional_bool obj ''privileged'') (\<lambda>priv.
       Ok \<lparr>fc_container_env = env, fc_mounts = ms, fc_cap_add = caps, fc_security_opt = security,
           fc_entrypoint = entry, fc_lifecycle = lc, fc_customizations = custom, fc_init = ini,
           fc_privileged = priv\<rparr>)))))))))"

text \<open>The part of the reading after the members' names are known to be supported.\<close>

definition metadata_from_object ::
    "feature_url_parser \<Rightarrow> (string, json) btree \<Rightarrow> (feature_metadata, feature_error) result" where
  "metadata_from_object url_parse obj =
     and_then (required_string obj ''id'') (\<lambda>id.
     if id = [] \<or> CHR ''/'' \<in> set id \<or> list_ex is_whitespace (chars id)
     then Err (InvalidMetadata [Member ''id''] ''Feature id must be a non-empty local identifier'')
     else and_then (required_string obj ''version'') (\<lambda>version.
     if version = [] then Err (InvalidMetadata [Member ''version''] ''Feature version cannot be empty'')
     else and_then (parse_option_definitions (bt_get obj ''options'')) (\<lambda>options.
     and_then (parse_dependencies url_parse (bt_get obj ''dependsOn'')) (\<lambda>deps.
     and_then (string_array (bt_get obj ''installsAfter'') [Member ''installsAfter'']) (\<lambda>after.
     and_then (parse_contributions obj) (\<lambda>contribs.
       Ok \<lparr>feature_id = id, feature_version = version, option_definitions = options,
           depends_on = deps, installs_after = after, contributions = contribs\<rparr>))))))"

definition FeatureMetadata_from_value ::
    "feature_url_parser \<Rightarrow> json \<Rightarrow> (feature_metadata, feature_error) result" where
  "FeatureMetadata_from_value url_parse v =
     and_then (ok_or (InvalidMetadata [] ''Feature metadata must be an object'') (as_object v)) (\<lambda>obj.
       case find (\<lambda>name. name \<notin> set FEATURE_METADATA_PROPERTIES) (map fst obj) of
         Some name \<Rightarrow> Err (InvalidMetadata [Member name] ''unknown Feature metadata property'')
       | None \<Rightarrow> metadata_from_object url_parse obj)"

section \<open>Effective options\<close>

definition default_value :: "feature_option \<Rightarrow> feature_value" where
  "default_value d = (case d of BooleanFeature b \<Rightarrow> BooleanValue b | StringFeature s _ _ \<Rightarrow> StringValue s)"

definition value_valid :: "feature_option \<Rightarrow> feature_value \<Rightarrow> bool" where
  "value_valid d v = (case (d, v) of
     (BooleanFeature _, BooleanValue _) \<Rightarrow> True
   | (StringFeature _ alw _, StringValue s) \<Rightarrow> (case alw of None \<Rightarrow> True | Some values \<Rightarrow> s \<in> set values)
   | _ \<Rightarrow> False)"

definition validate_options ::
    "feature_metadata \<Rightarrow> option_values \<Rightarrow> feature_reference list \<Rightarrow> (option_values, feature_error) result" where
  "validate_options metadata provided path =
     (case find (\<lambda>name. bt_get (option_definitions metadata) name = None) (map fst provided) of
        Some name \<Rightarrow> Err (UnknownOption (feature_id metadata) name (render_path path))
      | None \<Rightarrow>
          map_ok bt_of (collect_results (\<lambda>(name, d).
            (let v = option_or (bt_get provided name) (default_value d)
             in if \<not> value_valid d v
                then Err (InvalidOption (feature_id metadata) name v (render_path path))
                else Ok (name, v))) (option_definitions metadata)))"

section \<open>Options of accepted metadata\<close>

definition effective_value :: "option_values \<Rightarrow> string \<times> feature_option \<Rightarrow> string \<times> feature_value" where
  "effective_value provided nd = (fst nd, option_or (bt_get provided (fst nd)) (default_value (snd nd)))"

lemma collect_results_map:
  "collect_results (\<lambda>x. if P x then Err (e x) else Ok (f x)) xs =
     (case find P xs of None \<Rightarrow> Ok (map f xs) | Some x \<Rightarrow> Err (e x))"
  by (induction xs) (auto split: option.splits)

lemma validate_options_eq:
  assumes "bt_ok (option_definitions m)"
  shows "validate_options m provided path =
    (case find (\<lambda>name. bt_get (option_definitions m) name = None) (map fst provided) of
       Some name \<Rightarrow> Err (UnknownOption (feature_id m) name (render_path path))
     | None \<Rightarrow>
         (case find (\<lambda>nd. \<not> value_valid (snd nd) (snd (effective_value provided nd))) (option_definitions m) of
            Some nd \<Rightarrow> Err (InvalidOption (feature_id m) (fst nd) (snd (effective_value provided nd)) (render_path path))
          | None \<Rightarrow> Ok (map (effective_value provided) (option_definitions m))))"
proof -
  have "(\<lambda>(name, d). let v = option_or (bt_get provided name) (default_value d)
        in if \<not> value_valid d v then Err (InvalidOption (feature_id m) name v (render_path path)) else Ok (name, v)) =
      (\<lambda>nd. if \<not> value_valid (snd nd) (snd (effective_value provided nd))
        then Err (InvalidOption (feature_id m) (fst nd) (snd (effective_value provided nd)) (render_path path))
        else Ok (effective_value provided nd))"
    by (auto simp: effective_value_def Let_def)
  moreover have "map fst (map (effective_value provided) (option_definitions m)) = map fst (option_definitions m)"
    by (simp add: effective_value_def)
  then have "bt_ok (map (effective_value provided) (option_definitions m))"
    using assms unfolding bt_ok_def by (simp only:)
  ultimately show ?thesis
    unfolding validate_options_def collect_results_map
    by (auto simp: collect_results_map bt_of_id split: option.splits)
qed

lemma bset_of_set [simp]: "set (bset_of xs) = set xs"
  by (simp add: bset_of_def)

lemma parse_option_definition_Ok:
  "parse_option_definition nv = Ok (n, d) \<Longrightarrow> value_valid d (default_value d)"
  by (auto simp: parse_option_definition_def Let_def value_valid_def default_value_def split: if_splits)

lemma bt_of_member: "bt_get (bt_of kvs) k = Some v \<Longrightarrow> (k, v) \<in> set kvs"
  using bt.get_insert_all [OF bt.ok_empty, of kvs] by (auto dest: map_of_SomeD)

lemma parse_option_definitions_Ok:
  assumes "parse_option_definitions v = Ok defs"
  shows "bt_ok defs \<and> (\<forall>(n, d) \<in> set defs. value_valid d (default_value d))"
proof (cases v)
  case None
  with assms show ?thesis by (simp add: parse_option_definitions_def)
next
  case (Some w)
  with assms obtain obj ds where ds: "collect_results parse_option_definition obj = Ok ds" "defs = bt_of ds"
    by (auto simp: parse_option_definitions_def)
  then have ok: "bt_ok defs" by (simp add: bt_of_facts(1))
  have "value_valid d (default_value d)" if "(n, d) \<in> set defs" for n d
  proof -
    have "bt_get defs n = Some d" using that ok by (simp add: bt_ok_distinct)
    then have "(n, d) \<in> set ds" using bt_of_member ds(2) by metis
    with collect_results_member [OF ds(1)] obtain nv where "parse_option_definition nv = Ok (n, d)" by meson
    then show ?thesis by (rule parse_option_definition_Ok)
  qed
  with ok show ?thesis by blast
qed

lemma metadata_from_object_Ok:
  assumes "metadata_from_object url_parse obj = Ok m"
  shows "feature_id m \<noteq> [] \<and> CHR ''/'' \<notin> set (feature_id m) \<and> feature_version m \<noteq> [] \<and>
    parse_option_definitions (bt_get obj ''options'') = Ok (option_definitions m)"
  using assms unfolding metadata_from_object_def
proof (elim and_then_OkE)
  fix id
  assume "(if id = [] \<or> CHR ''/'' \<in> set id \<or> list_ex is_whitespace (chars id)
     then Err (InvalidMetadata [Member ''id''] ''Feature id must be a non-empty local identifier'')
     else and_then (required_string obj ''version'') (\<lambda>version.
     if version = [] then Err (InvalidMetadata [Member ''version''] ''Feature version cannot be empty'')
     else and_then (parse_option_definitions (bt_get obj ''options'')) (\<lambda>options.
     and_then (parse_dependencies url_parse (bt_get obj ''dependsOn'')) (\<lambda>deps.
     and_then (string_array (bt_get obj ''installsAfter'') [Member ''installsAfter'']) (\<lambda>after.
     and_then (parse_contributions obj) (\<lambda>contribs.
       Ok \<lparr>feature_id = id, feature_version = version, option_definitions = options,
           depends_on = deps, installs_after = after, contributions = contribs\<rparr>)))))) = Ok m"
  then show ?thesis by (auto split: if_splits elim!: and_then_OkE)
qed

section \<open>Properties\<close>


definition sample_metadata :: feature_metadata where
  "sample_metadata = \<lparr>feature_id = ''tool'', feature_version = ''1'', option_definitions =
     [(''channel'', StringFeature ''stable'' (Some [''beta'', ''stable'']) []), (''full'', BooleanFeature True)],
     depends_on = [], installs_after = [], contributions = \<lparr>fc_container_env = [], fc_mounts = [],
       fc_cap_add = [], fc_security_opt = [], fc_entrypoint = None, fc_lifecycle = LifecycleCommands_default,
       fc_customizations = [], fc_init = None, fc_privileged = None\<rparr>\<rparr>"


text \<open>C35: accepted metadata has a nonempty local identifier and a nonempty version, and a request without options
  is always accepted and yields the declared defaults.\<close>

theorem metadata_defaults_accepted:
  assumes "FeatureMetadata_from_value url_parse v = Ok m"
  shows "feature_id m \<noteq> [] \<and> CHR ''/'' \<notin> set (feature_id m) \<and> feature_version m \<noteq> [] \<and>
    validate_options m [] path = Ok (map (\<lambda>(n, d). (n, default_value d)) (option_definitions m))"
proof -
  obtain obj where "metadata_from_object url_parse obj = Ok m"
    using assms by (auto simp: FeatureMetadata_from_value_def split: option.splits)
  note m = metadata_from_object_Ok [OF this]
  note w = m [THEN conjunct2, THEN conjunct2, THEN conjunct2]
  note defs = parse_option_definitions_Ok [OF w]
  then have "find (\<lambda>nd. \<not> value_valid (snd nd) (snd (effective_value [] nd))) (option_definitions m) = None"
    by (auto simp: find_None_iff effective_value_def option_or_def)
  moreover have "effective_value [] = (\<lambda>(n, d). (n, default_value d))"
    by (auto simp: effective_value_def option_or_def)
  ultimately show ?thesis using m defs by (simp add: validate_options_eq)
qed

theorem metadata_defaults_accepted_witness:
  "\<exists>m. FeatureMetadata_from_value (\<lambda>_. Err []) (JObject [(''id'', JString ''tool''),
      (''options'', JObject [(''full'', JObject [(''default'', JBool True), (''type'', JString ''boolean'')])]),
      (''version'', JString ''1'')]) = Ok m \<and>
     validate_options m [] [] = Ok [(''full'', BooleanValue True)]"
proof -
  let ?v = "JObject [(''id'', JString ''tool''),
      (''options'', JObject [(''full'', JObject [(''default'', JBool True), (''type'', JString ''boolean'')])]),
      (''version'', JString ''1'')]"
  have "chars ''tool'' = map byte ''tool''" by (rule chars_ascii) simp
  then have "\<not> list_ex is_whitespace (chars ''tool'')" by (simp add: is_whitespace_def)
  then have "\<exists>m. FeatureMetadata_from_value (\<lambda>_. Err []) ?v = Ok m \<and> option_definitions m = [(''full'', BooleanFeature True)]"
    by (simp add: FeatureMetadata_from_value_def metadata_from_object_def FEATURE_METADATA_PROPERTIES_def
        as_object_def ok_or_def required_string_def as_str_def parse_option_definitions_def
        parse_option_definition_def as_bool_def parse_dependencies_def string_array_def parse_contributions_def
        string_map_def parse_mounts_def optional_string_def parse_lifecycle_def parse_command_def
        object_map_def optional_bool_def Let_def)
  then obtain m where m: "FeatureMetadata_from_value (\<lambda>_. Err []) ?v = Ok m \<and>
      option_definitions m = [(''full'', BooleanFeature True)]" by (rule exE)
  from metadata_defaults_accepted [OF conjunct1 [OF m], of "[]"] m show ?thesis
    by (intro exI [of _ m]) (simp add: default_value_def)
qed

end
