(* ===== verification/Feature_Resolution.thy ===== *)
theory Feature_Resolution
  imports Feature_Metadata "HOL-Library.Product_Lexorder"
begin

text \<open>
  \<^verbatim>\<open>crates/cdenv-devcontainer/src/feature/resolution.rs\<close>, with the package types of \<^verbatim>\<open>feature.rs\<close>: expansion of
  requests over a fetched catalog, soft edges and priorities, and the rounds that order the
  installation. The expansion and the search for a cycle are total functions. Every Feature is shown
  to be installed once and after everything it depends on, and the rounds to fail exactly when the
  retained edges have a cycle, which is then the one reported.
\<close>

section \<open>Packages, requests and nodes\<close>

record feature_package =
  package_reference :: feature_reference
  package_identity :: feature_install_identity
  package_metadata :: feature_metadata
  package_digest :: "string option"
  package_integrity :: "string option"

record feature_request =
  request_reference :: feature_reference
  request_options :: option_values

record resolved_feature =
  resolved_reference :: feature_reference
  resolved_identity :: feature_install_identity
  resolved_metadata :: feature_metadata
  resolved_options :: option_values

record node =
  node_package :: feature_package
  node_options :: option_values
  explicit_options :: option_values
  dependencies :: "feature_install_identity list"
  first_path :: "feature_reference list"
  priority :: nat

record pending =
  pending_reference :: feature_reference
  pending_options :: option_values
  pending_parent :: "feature_install_identity option"
  pending_path :: "feature_reference list"

type_synonym catalog = "(feature_reference, feature_package) btree"
type_synonym graph = "(feature_install_identity, node) btree"

fun value_rank :: "feature_value \<Rightarrow> nat \<times> bool \<times> string" where
  "value_rank (BooleanValue b) = (0, b, [])"
| "value_rank (StringValue s) = (1, False, s)"

lemma value_rank_inj: "value_rank a = value_rank b \<Longrightarrow> a = b"
  by (cases a; cases b) auto

instantiation feature_value :: linorder
begin

definition less_eq_feature_value :: "feature_value \<Rightarrow> feature_value \<Rightarrow> bool" where
  "less_eq_feature_value a b \<longleftrightarrow> value_rank a \<le> value_rank b"

definition less_feature_value :: "feature_value \<Rightarrow> feature_value \<Rightarrow> bool" where
  "less_feature_value a b \<longleftrightarrow> value_rank a < value_rank b"

instance
  by standard (auto simp: less_eq_feature_value_def less_feature_value_def intro: value_rank_inj)

end

section \<open>Expansion\<close>

text \<open>\<^verbatim>\<open>get_mut\<close> on the parent, when there is one, and an insertion into its set.\<close>

definition add_dependency ::
    "feature_install_identity option \<Rightarrow> feature_install_identity \<Rightarrow> graph \<Rightarrow> graph" where
  "add_dependency parent identity nodes =
     (case parent of
        None \<Rightarrow> nodes
      | Some p \<Rightarrow> map (\<lambda>(k, n). (k, if k = p then n\<lparr>dependencies := insort_insert identity (dependencies n)\<rparr> else n)) nodes)"

definition differing_option :: "option_values \<Rightarrow> option_values \<Rightarrow> string" where
  "differing_option first second =
     option_or (find (\<lambda>key. bt_get first key \<noteq> bt_get second key) (map fst first @ map fst second)) ''<options>''"

definition root_pending :: "feature_request \<Rightarrow> pending" where
  "root_pending r = \<lparr>pending_reference = request_reference r, pending_options = request_options r,
     pending_parent = None, pending_path = [request_reference r]\<rparr>"

definition dependency_pending :: "feature_package \<Rightarrow> pending \<Rightarrow> pending list" where
  "dependency_pending package item = map (\<lambda>(reference, options).
     \<lparr>pending_reference = reference, pending_options = options,
      pending_parent = Some (package_identity package), pending_path = pending_path item @ [reference]\<rparr>)
     (depends_on (package_metadata package))"

definition new_node :: "feature_package \<Rightarrow> option_values \<Rightarrow> pending \<Rightarrow> node" where
  "new_node package effective item = \<lparr>node_package = package, node_options = effective,
     explicit_options = pending_options item, dependencies = [], first_path = pending_path item, priority = 0\<rparr>"

definition identities :: "catalog \<Rightarrow> feature_install_identity set" where
  "identities packages = (\<lambda>(r, p). package_identity p) ` set packages"

lemma bt_get_identity: "bt_get packages r = Some p \<Longrightarrow> package_identity p \<in> identities packages"
  by (force simp: identities_def dest: map_of_SomeD)

lemma keys_add_dependency [simp]: "fst ` set (add_dependency parent i nodes) = fst ` set nodes"
  by (force simp: add_dependency_def split: option.splits)

function expand :: "catalog \<Rightarrow> pending list \<Rightarrow> graph \<Rightarrow> (graph, feature_error) result" where
  "expand packages [] nodes = Ok nodes"
| "expand packages (item # pending) nodes =
     (case bt_get packages (pending_reference item) of
        None \<Rightarrow> Err (MissingPackage (pending_reference item) (render_path (pending_path item)))
      | Some package \<Rightarrow>
          if package_reference package \<noteq> pending_reference item
          then Err (CatalogMismatch (pending_reference item) (package_reference package))
          else case validate_options (package_metadata package) (pending_options item) (pending_path item) of
             Err e \<Rightarrow> Err e
           | Ok effective \<Rightarrow>
               let identity = package_identity package
               in case bt_get nodes identity of
                    Some existing \<Rightarrow>
                      if node_options existing \<noteq> effective
                      then Err (ConflictingOptions identity (differing_option (node_options existing) effective)
                             (render_path (first_path existing)) (render_path (pending_path item)))
                      else expand packages pending (add_dependency (pending_parent item) identity nodes)
                  | None \<Rightarrow>
                      expand packages (pending @ dependency_pending package item)
                        (add_dependency (pending_parent item) identity
                          (bt_insert identity (new_node package effective item) nodes)))"
  by pat_completeness auto
termination
proof (relation "measures [\<lambda>(packages, pending, nodes). card (identities packages - fst ` set nodes),
    \<lambda>(packages, pending, nodes). length pending]")
  fix packages :: catalog and item :: pending and pending :: "pending list" and nodes :: graph
    and package :: feature_package and effective identity
  assume p: "bt_get packages (pending_reference item) = Some package" and i: "identity = package_identity package"
    and n: "bt_get nodes identity = None"
  let ?nodes = "add_dependency (pending_parent item) identity (bt_insert identity (new_node package effective item) nodes)"
  have "identity \<notin> fst ` set nodes" using n by (simp add: map_of_eq_None_iff)
  moreover have "identity \<in> identities packages" unfolding i using p by (rule bt_get_identity)
  moreover have "finite (identities packages)" by (simp add: identities_def)
  ultimately have "card (identities packages - fst ` set ?nodes) < card (identities packages - fst ` set nodes)"
    by (intro psubset_card_mono) (auto simp: set_bt_insert_keys)
  then show "((packages, pending @ dependency_pending package item, ?nodes), packages, item # pending, nodes)
    \<in> measures [\<lambda>(packages, pending, nodes). card (identities packages - fst ` set nodes),
      \<lambda>(packages, pending, nodes). length pending]" by simp
qed simp_all

section \<open>Soft edges and priorities\<close>

definition hint_name :: "feature_url_parser \<Rightarrow> string \<Rightarrow> string" where
  "hint_name url_parse hint = to_ascii_lowercase
     (case FeatureReference_parse url_parse hint of Err _ \<Rightarrow> hint | Ok r \<Rightarrow> resource_name r)"

definition soft_targets ::
    "feature_url_parser \<Rightarrow> (string \<times> feature_install_identity) list \<Rightarrow> node \<Rightarrow> string \<Rightarrow> feature_install_identity list" where
  "soft_targets url_parse names n hint =
     map snd (filter (\<lambda>(name, identity). eq_ignore_ascii_case name (hint_name url_parse hint) \<and>
       identity \<noteq> package_identity (node_package n)) names)"

definition apply_soft_edges :: "feature_url_parser \<Rightarrow> graph \<Rightarrow> graph" where
  "apply_soft_edges url_parse nodes =
     (let names = map (\<lambda>(identity, n). (resource_name (package_reference (node_package n)), identity)) nodes
      in map (\<lambda>(k, n). (k, n\<lparr>dependencies :=
           fold insort_insert (concat (map (soft_targets url_parse names n)
             (installs_after (package_metadata (node_package n))))) (dependencies n)\<rparr>)) nodes)"

definition override_matches :: "string \<Rightarrow> node \<Rightarrow> bool" where
  "override_matches v n = eq_ignore_ascii_case (resource_name (package_reference (node_package n))) v"

fun apply_priorities_from :: "nat \<Rightarrow> nat \<Rightarrow> string list \<Rightarrow> graph \<Rightarrow> (graph, feature_error) result" where
  "apply_priorities_from count index [] nodes = Ok nodes"
| "apply_priorities_from count index (v # vs) nodes =
     (if CHR ''@'' \<in> set v \<or> CHR '':'' \<in> set (last (split_on (CHR ''/'') v))
      then Err (InvalidOverride v ''override must omit tags, digests, and options'')
      else if \<not> list_ex (\<lambda>(k, n). override_matches v n) nodes
      then Err (InvalidOverride v ''override does not match a resolved Feature'')
      else apply_priorities_from count (index + 1) vs
        (map (\<lambda>(k, n). (k, if override_matches v n then n\<lparr>priority := count - index\<rparr> else n)) nodes))"

definition apply_priorities :: "graph \<Rightarrow> string list \<Rightarrow> (graph, feature_error) result" where
  "apply_priorities nodes overrides = apply_priorities_from (length overrides) 0 overrides nodes"

section \<open>The search for a cycle\<close>

text \<open>\<open>VisitPanic\<close> is the indexing of an absent node.\<close>

datatype visit_result =
    Cycle "feature_install_identity list" | Finished "feature_install_identity list" | VisitPanic

function visit :: "graph \<Rightarrow> feature_install_identity \<Rightarrow> feature_install_identity list \<Rightarrow>
      feature_install_identity list \<Rightarrow> visit_result"
  and visit_each :: "graph \<Rightarrow> feature_install_identity list \<Rightarrow> feature_install_identity list \<Rightarrow>
      feature_install_identity list \<Rightarrow> visit_result" where
  "visit nodes identity visiting finished =
     (if identity \<in> set visiting then Cycle (dropWhile (\<lambda>x. x \<noteq> identity) visiting @ [identity])
      else if identity \<in> set finished then Finished finished
      else case bt_get nodes identity of
             None \<Rightarrow> VisitPanic
           | Some n \<Rightarrow>
               (case visit_each nodes (filter (\<lambda>d. bt_get nodes d \<noteq> None) (dependencies n))
                       (visiting @ [identity]) finished of
                  Finished finished \<Rightarrow> Finished (insort_insert identity finished)
                | r \<Rightarrow> r))"
| "visit_each nodes [] visiting finished = Finished finished"
| "visit_each nodes (d # ds) visiting finished =
     (case visit nodes d visiting finished of
        Finished finished \<Rightarrow> visit_each nodes ds visiting finished
      | r \<Rightarrow> r)"
  by pat_completeness auto
termination
proof (relation "measures
    [\<lambda>x. case x of Inl (nodes, i, visiting, _) \<Rightarrow> card (fst ` set nodes - set visiting)
      | Inr (nodes, ds, visiting, _) \<Rightarrow> card (fst ` set nodes - set visiting),
     \<lambda>x. case x of Inl _ \<Rightarrow> 0 | Inr (_, ds, _) \<Rightarrow> length ds]")
  fix nodes :: graph and identity visiting and finished :: "feature_install_identity list" and n
  assume i: "identity \<notin> set visiting" "bt_get nodes identity = Some n"
  then have "identity \<in> fst ` set nodes" by (force dest: map_of_SomeD)
  with i(1) have "card (fst ` set nodes - set (visiting @ [identity])) < card (fst ` set nodes - set visiting)"
    by (intro psubset_card_mono) auto
  then show "(Inr (nodes, filter (\<lambda>d. bt_get nodes d \<noteq> None) (dependencies n), visiting @ [identity], finished),
      Inl (nodes, identity, visiting, finished)) \<in> measures
    [\<lambda>x. case x of Inl (nodes, i, visiting, _) \<Rightarrow> card (fst ` set nodes - set visiting)
      | Inr (nodes, ds, visiting, _) \<Rightarrow> card (fst ` set nodes - set visiting),
     \<lambda>x. case x of Inl _ \<Rightarrow> 0 | Inr (_, ds, _) \<Rightarrow> length ds]" by simp
qed simp_all

fun find_cycle_from :: "graph \<Rightarrow> feature_install_identity list \<Rightarrow> feature_install_identity list \<Rightarrow> visit_result" where
  "find_cycle_from nodes [] finished = Finished finished"
| "find_cycle_from nodes (i # is) finished =
     (case visit nodes i [] finished of
        Finished finished \<Rightarrow> find_cycle_from nodes is finished
      | r \<Rightarrow> r)"

definition find_cycle :: "graph \<Rightarrow> visit_result" where
  "find_cycle nodes = find_cycle_from nodes (bt_keys nodes) []"

section \<open>Rounds\<close>

text \<open>\<^verbatim>\<open>compare_nodes\<close> as the key it orders by: more explicit options come first.\<close>

definition node_key :: "node \<Rightarrow> string \<times> string \<times> int \<times> option_values \<times> feature_install_identity" where
  "node_key n = (resource_name (package_reference (node_package n)), selector (package_reference (node_package n)),
     - int (length (explicit_options n)), explicit_options n, package_identity (node_package n))"

definition resolved :: "feature_install_identity \<times> node \<Rightarrow> resolved_feature" where
  "resolved kn = \<lparr>resolved_reference = package_reference (node_package (snd kn)), resolved_identity = fst kn,
     resolved_metadata = package_metadata (node_package (snd kn)), resolved_options = node_options (snd kn)\<rparr>"

text \<open>The Features of a round: those whose dependencies are installed, of the highest priority, in order.\<close>

definition round_ready :: "graph \<Rightarrow> feature_install_identity list \<Rightarrow> graph" where
  "round_ready nodes installed = filter (\<lambda>(k, n). set (dependencies n) \<subseteq> set installed) nodes"

definition round_chosen :: "graph \<Rightarrow> graph" where
  "round_chosen ready =
     (let priorities = map (\<lambda>(k, n). priority n) ready;
          max_priority = (if priorities = [] then 0 else Max (set priorities))
      in sort_key (\<lambda>(k, n). node_key n) (filter (\<lambda>(k, n). priority n = max_priority) ready))"

definition cycle_text :: "graph \<Rightarrow> (string, unit) result" where
  "cycle_text nodes =
     (case find_cycle nodes of
        Cycle c \<Rightarrow> Ok (join '' -> '' (map identity_label c))
      | Finished _ \<Rightarrow> Ok (join '' -> '' (map identity_label (bt_keys nodes)))
      | VisitPanic \<Rightarrow> Err ())"

lemma round_chosen_set: "set (round_chosen ready) \<subseteq> set ready"
  by (auto simp: round_chosen_def Let_def)

lemma round_chosen_nonempty: "ready \<noteq> [] \<Longrightarrow> round_chosen ready \<noteq> []"
proof -
  assume r: "ready \<noteq> []"
  let ?ps = "map (\<lambda>(k, n). priority n) ready"
  have "Max (set ?ps) \<in> set ?ps" using r by (intro Max_in) simp_all
  then obtain k n where "(k, n) \<in> set ready" "priority n = Max (set ?ps)" by auto
  then have "(k, n) \<in> set (round_chosen ready)" using r by (simp add: round_chosen_def Let_def)
  then show ?thesis by auto
qed

text \<open>One round after the other, until no node is left or none is ready.\<close>

function round_loop ::
    "graph \<Rightarrow> feature_install_identity list \<Rightarrow> resolved_feature list \<Rightarrow> (resolved_feature list, feature_error) result option" where
  "round_loop nodes installed out =
     (if nodes = [] then Some (Ok out)
      else let ready = round_ready nodes installed
           in if ready = []
              then (case cycle_text nodes of Ok c \<Rightarrow> Some (Err (DependencyCycle c)) | Err _ \<Rightarrow> None)
              else let chosen = round_chosen ready
                   in round_loop (filter (\<lambda>(k, n). k \<notin> fst ` set chosen) nodes)
                        (fold insort_insert (map fst chosen) installed) (out @ map resolved chosen))"
  by pat_completeness auto
termination
proof (relation "measure (\<lambda>(nodes, installed, out). length nodes)")
  fix nodes :: graph and installed and out :: "resolved_feature list" and ready chosen
  assume a: "ready = round_ready nodes installed" "ready \<noteq> []" "chosen = round_chosen ready"
  then obtain kn where "kn \<in> set chosen" using round_chosen_nonempty by (metis last_in_set)
  moreover have "set chosen \<subseteq> set nodes" using a round_chosen_set [of ready] by (auto simp: round_ready_def)
  ultimately have "length (filter (\<lambda>(k, n). k \<notin> fst ` set chosen) nodes) < length nodes"
    by (intro length_filter_less [of kn]) (auto split: prod.splits intro: rev_image_eqI)
  then show "((filter (\<lambda>(k, n). k \<notin> fst ` set chosen) nodes, fold insort_insert (map fst chosen) installed,
      out @ map resolved chosen), nodes, installed, out) \<in> measure (\<lambda>(nodes, installed, out). length nodes)"
    by simp
qed simp

declare round_loop.simps [simp del]

definition round_sort :: "graph \<Rightarrow> (resolved_feature list, feature_error) result option" where
  "round_sort nodes = round_loop nodes [] []"

text \<open>\<open>None\<close> is the panic of the cycle search; it is shown not to occur.\<close>

definition resolve_features ::
    "feature_url_parser \<Rightarrow> feature_request list \<Rightarrow> catalog \<Rightarrow> string list \<Rightarrow>
      (resolved_feature list, feature_error) result option" where
  "resolve_features url_parse requests packages overrides =
     (case expand packages (map root_pending requests) [] of
        Err e \<Rightarrow> Some (Err e)
      | Ok nodes \<Rightarrow>
          (case apply_priorities (apply_soft_edges url_parse nodes) overrides of
             Err e \<Rightarrow> Some (Err e)
           | Ok nodes \<Rightarrow> round_sort nodes))"

section \<open>The search finds a cycle whenever there is one\<close>

definition edges :: "graph \<Rightarrow> (feature_install_identity \<times> feature_install_identity) set" where
  "edges nodes = {(i, d). \<exists>n. bt_get nodes i = Some n \<and> d \<in> set (dependencies n) \<and> bt_get nodes d \<noteq> None}"

definition is_cycle :: "graph \<Rightarrow> feature_install_identity list \<Rightarrow> bool" where
  "is_cycle nodes c \<longleftrightarrow> (\<exists>x p. c = x # p @ [x]) \<and> successively (\<lambda>a b. (a, b) \<in> edges nodes) c"

text \<open>A set of identities whose edges stay inside and descend some rank.\<close>

definition ranked :: "graph \<Rightarrow> feature_install_identity set \<Rightarrow> bool" where
  "ranked nodes F \<longleftrightarrow> (\<exists>r :: feature_install_identity \<Rightarrow> nat. \<forall>a \<in> F. \<forall>b. (a, b) \<in> edges nodes \<longrightarrow> b \<in> F \<and> r b < r a)"

lemma ranked_empty [simp]: "ranked nodes {}"
  by (simp add: ranked_def)

lemma ranked_insert:
  assumes "ranked nodes F" and "finite F" and "i \<notin> F" and "\<And>d. (i, d) \<in> edges nodes \<Longrightarrow> d \<in> F"
  shows "ranked nodes (insert i F)"
proof -
  from assms(1) obtain r :: "feature_install_identity \<Rightarrow> nat"
    where r: "\<And>a b. a \<in> F \<Longrightarrow> (a, b) \<in> edges nodes \<Longrightarrow> b \<in> F \<and> r b < r a"
    unfolding ranked_def by blast
  define r' where "r' = r(i := Suc (Max (r ` F)))"
  have "b \<in> insert i F \<and> r' b < r' a" if "a \<in> insert i F" "(a, b) \<in> edges nodes" for a b
  proof (cases "a = i")
    case True
    with that assms(4) have "b \<in> F" by blast
    with True assms(2,3) show ?thesis by (auto simp: r'_def le_imp_less_Suc)
  next
    case False
    with that r [of a b] assms(3) show ?thesis by (auto simp: r'_def)
  qed
  then show ?thesis unfolding ranked_def by blast
qed

lemma ranked_no_cycle:
  assumes "ranked nodes F" and "is_cycle nodes c"
  shows "set c \<inter> F = {}"
proof (rule ccontr)
  assume "set c \<inter> F \<noteq> {}"
  from assms(1) obtain r :: "feature_install_identity \<Rightarrow> nat"
    where r: "\<And>a b. a \<in> F \<Longrightarrow> (a, b) \<in> edges nodes \<Longrightarrow> b \<in> F \<and> r b < r a"
    unfolding ranked_def by blast
  have down: "last (a # p) \<in> F \<and> r (last (a # p)) \<le> r a \<and> (p \<noteq> [] \<longrightarrow> r (last (a # p)) < r a) \<and> set p \<subseteq> F"
    if "a \<in> F" "successively (\<lambda>a b. (a, b) \<in> edges nodes) (a # p)" for a p
    using that
  proof (induction p arbitrary: a)
    case (Cons b p)
    then have "b \<in> F" "r b < r a" using r [of a b] by simp_all
    with Cons.IH [of b] Cons.prems show ?case by auto
  qed simp
  from assms(2) obtain x p where c: "c = x # p @ [x]" "successively (\<lambda>a b. (a, b) \<in> edges nodes) (x # p @ [x])"
    unfolding is_cycle_def by blast
  obtain y where y: "y \<in> set c" "y \<in> F" using \<open>set c \<inter> F \<noteq> {}\<close> by blast
  have "x \<in> F"
  proof (cases "y = x")
    case False
    with y(1) c(1) obtain u v where "p @ [x] = u @ y # v" by (auto dest!: split_list)
    with c(2) have "successively (\<lambda>a b. (a, b) \<in> edges nodes) (y # v)"
      using successively_append_iff [of _ "x # u" "y # v"] by simp
    moreover have "last (y # v) = x"
      using arg_cong [OF \<open>p @ [x] = u @ y # v\<close>, of last] by simp
    ultimately show ?thesis using down [OF y(2)] by metis
  qed (use y in simp)
  from down [OF this c(2)] show False by simp
qed

lemma path_cycle:
  assumes "i \<in> set visiting" and "successively (\<lambda>a b. (a, b) \<in> edges nodes) (visiting @ [i])"
  shows "is_cycle nodes (dropWhile (\<lambda>x. x \<noteq> i) visiting @ [i])"
proof -
  obtain a b where v: "visiting = a @ i # b" "i \<notin> set a" using split_list_first [OF assms(1)] by blast
  then have "dropWhile (\<lambda>x. x \<noteq> i) visiting = i # b"
    unfolding v(1) by (subst dropWhile_append2) auto
  moreover have "successively (\<lambda>a b. (a, b) \<in> edges nodes) (i # b @ [i])"
    using assms(2) v successively_append_iff [of _ a "i # b @ [i]"] by simp
  ultimately show ?thesis by (auto simp: is_cycle_def)
qed

definition search_ok ::
    "graph \<Rightarrow> feature_install_identity set \<Rightarrow> feature_install_identity list \<Rightarrow> feature_install_identity list \<Rightarrow>
      visit_result \<Rightarrow> bool" where
  "search_ok nodes targets visiting finished r = (case r of
     Cycle c \<Rightarrow> is_cycle nodes c
   | Finished f \<Rightarrow> ranked nodes (set f) \<and> set finished \<union> targets \<subseteq> set f \<and> set f \<inter> set visiting = {}
   | VisitPanic \<Rightarrow> False)"

lemma visit_ok:
  "bt_get nodes i \<noteq> None \<Longrightarrow> ranked nodes (set finished) \<Longrightarrow> set finished \<inter> set visiting = {} \<Longrightarrow>
    successively (\<lambda>a b. (a, b) \<in> edges nodes) (visiting @ [i]) \<Longrightarrow>
    search_ok nodes {i} visiting finished (visit nodes i visiting finished)"
  "\<forall>d \<in> set ds. bt_get nodes d \<noteq> None \<and> successively (\<lambda>a b. (a, b) \<in> edges nodes) (visiting @ [d]) \<Longrightarrow>
    ranked nodes (set finished) \<Longrightarrow> set finished \<inter> set visiting = {} \<Longrightarrow>
    search_ok nodes (set ds) visiting finished (visit_each nodes ds visiting finished)"
proof (induction nodes i visiting finished and nodes ds visiting finished rule: visit_visit_each.induct)
  case (1 nodes i visiting finished)
  show ?case
  proof (cases "i \<in> set visiting \<or> i \<in> set finished")
    case True
    with 1 show ?thesis
      by (cases "i \<in> set visiting") (auto simp: search_ok_def path_cycle)
  next
    case False
    from 1 obtain n where n: "bt_get nodes i = Some n" by blast
    let ?ds = "filter (\<lambda>d. bt_get nodes d \<noteq> None) (dependencies n)"
    have e: "(i, d) \<in> edges nodes \<longleftrightarrow> d \<in> set ?ds" for d using n by (auto simp: edges_def)
    have "successively (\<lambda>a b. (a, b) \<in> edges nodes) ((visiting @ [i]) @ [d])" if "d \<in> set ?ds" for d
      using 1 that e successively_append_iff [of _ "visiting @ [i]" "[d]"] by simp
    with 1 False n have rec: "search_ok nodes (set ?ds) (visiting @ [i]) finished
        (visit_each nodes ?ds (visiting @ [i]) finished)"
      by (intro "1.IH") auto
    show ?thesis
    proof (cases "visit_each nodes ?ds (visiting @ [i]) finished")
      case (Finished f)
      with rec have f: "ranked nodes (set f)" "set finished \<union> set ?ds \<subseteq> set f" "set f \<inter> set (visiting @ [i]) = {}"
        by (simp_all add: search_ok_def)
      then have "ranked nodes (insert i (set f))" using e by (intro ranked_insert) auto
      with f Finished False n show ?thesis
        by (auto simp: search_ok_def set_insort_insert)
    qed (use rec False n in \<open>simp_all add: search_ok_def\<close>)
  qed
next
  case (2 nodes visiting finished)
  then show ?case by (simp add: search_ok_def)
next
  case (3 nodes d ds visiting finished)
  have "search_ok nodes {d} visiting finished (visit nodes d visiting finished)"
    using 3 by (intro "3.IH") auto
  with 3 show ?case
    by (cases "visit nodes d visiting finished") (fastforce simp: search_ok_def split: visit_result.splits)+
qed

lemma find_cycle_from_ok:
  "\<forall>i \<in> set is. bt_get nodes i \<noteq> None \<Longrightarrow> ranked nodes (set finished) \<Longrightarrow>
    search_ok nodes (set is) [] finished (find_cycle_from nodes is finished)"
proof (induction "is" arbitrary: finished)
  case (Cons i "is")
  have "search_ok nodes {i} [] finished (visit nodes i [] finished)"
    using Cons.prems by (intro visit_ok) auto
  with Cons show ?case
    by (cases "visit nodes i [] finished") (fastforce simp: search_ok_def split: visit_result.splits)+
qed (simp add: search_ok_def)

lemma find_cycle_ok: "search_ok nodes (fst ` set nodes) [] [] (find_cycle nodes)"
proof -
  have "\<forall>i \<in> set (bt_keys nodes). bt_get nodes i \<noteq> None" by (simp add: map_of_eq_None_iff)
  from find_cycle_from_ok [OF this, of "[]"] show ?thesis by (simp add: find_cycle_def)
qed

section \<open>Rounds install every node once, after its dependencies\<close>

definition closed :: "graph \<Rightarrow> bool" where
  "closed nodes \<longleftrightarrow> (\<forall>(k, n) \<in> set nodes. set (dependencies n) \<subseteq> fst ` set nodes)"

text \<open>An installation order of some nodes: once each, everything a node depends on before it.\<close>

definition install_order :: "graph \<Rightarrow> graph \<Rightarrow> bool" where
  "install_order nodes kns \<longleftrightarrow> set kns \<subseteq> set nodes \<and> distinct (map fst kns) \<and>
     (\<forall>i < length kns. set (dependencies (snd (kns ! i))) \<subseteq> fst ` set (take i kns))"

definition round_inv :: "graph \<Rightarrow> graph \<Rightarrow> feature_install_identity list \<Rightarrow> graph \<Rightarrow> bool" where
  "round_inv all nodes installed kns \<longleftrightarrow> install_order all kns \<and>
     nodes = filter (\<lambda>(k, n). k \<notin> fst ` set kns) all \<and> set installed = fst ` set kns"

lemma set_fold_insort_insert: "set (fold insort_insert xs ys) = set xs \<union> set ys"
  by (induction xs arbitrary: ys) (auto simp: set_insort_insert)

lemma round_chosen_distinct:
  "distinct (map fst ready) \<Longrightarrow> distinct (map fst (round_chosen ready))"
proof -
  assume "distinct (map fst ready)"
  then have "distinct (map fst (filter P ready))" for P by (simp add: distinct_map_filter)
  then have "distinct ready'" "inj_on fst (set ready')" if "ready' = filter P ready" for ready' P
    using that by (simp_all add: distinct_map)
  then show ?thesis
    unfolding round_chosen_def Let_def by (simp add: distinct_map)
qed

lemma install_order_append:
  assumes "install_order all kns" and "set chosen \<subseteq> set all" and "distinct (map fst chosen)"
    and "fst ` set chosen \<inter> fst ` set kns = {}"
    and "\<And>k n. (k, n) \<in> set chosen \<Longrightarrow> set (dependencies n) \<subseteq> fst ` set kns"
  shows "install_order all (kns @ chosen)"
proof -
  have "set (dependencies (snd ((kns @ chosen) ! i))) \<subseteq> fst ` set (take i (kns @ chosen))"
    if "i < length (kns @ chosen)" for i
  proof (cases "i < length kns")
    case True
    with assms(1) show ?thesis by (simp add: install_order_def nth_append)
  next
    case False
    with that have "chosen ! (i - length kns) \<in> set chosen" by simp
    then have "set (dependencies (snd (chosen ! (i - length kns)))) \<subseteq> fst ` set kns"
      using assms(5) [of "fst (chosen ! (i - length kns))" "snd (chosen ! (i - length kns))"] by simp
    with False show ?thesis by (auto simp: nth_append)
  qed
  with assms(1-4) show ?thesis by (auto simp: install_order_def image_iff)
qed

lemma round_inv_step:
  assumes "round_inv all nodes installed kns" and "distinct (map fst all)"
  defines "chosen \<equiv> round_chosen (round_ready nodes installed)"
  shows "round_inv all (filter (\<lambda>(k, n). k \<notin> fst ` set chosen) nodes)
    (fold insort_insert (map fst chosen) installed) (kns @ chosen)"
proof -
  from assms(1) have io: "install_order all kns" and nodes: "nodes = filter (\<lambda>(k, n). k \<notin> fst ` set kns) all"
    and inst: "set installed = fst ` set kns" by (simp_all add: round_inv_def)
  have c: "set chosen \<subseteq> set (round_ready nodes installed)" unfolding chosen_def by (rule round_chosen_set)
  have "distinct (map fst (round_ready nodes installed))"
    unfolding round_ready_def nodes using assms(2) by (simp add: distinct_map_filter)
  then have d: "distinct (map fst chosen)" unfolding chosen_def by (rule round_chosen_distinct)
  have "install_order all (kns @ chosen)"
  proof (rule install_order_append [OF io _ d])
    have chosen: "kn \<in> set all \<and> fst kn \<notin> fst ` set kns \<and> set (dependencies (snd kn)) \<subseteq> fst ` set kns"
      if "kn \<in> set chosen" for kn
    proof -
      from c that have "kn \<in> set (round_ready nodes installed)" by blast
      then show ?thesis by (auto simp: round_ready_def nodes inst case_prod_beta)
    qed
    then show "set chosen \<subseteq> set all" "fst ` set chosen \<inter> fst ` set kns = {}" by blast+
    show "set (dependencies n) \<subseteq> fst ` set kns" if "(k, n) \<in> set chosen" for k n
      using chosen [OF that] by simp
  qed
  then show ?thesis
    by (auto simp: round_inv_def nodes inst set_fold_insort_insert intro!: filter_cong)
qed

lemma stuck_cycle:
  assumes "round_inv all nodes installed kns" and "closed all" and "nodes \<noteq> []" and "round_ready nodes installed = []"
  shows "\<exists>c. find_cycle nodes = Cycle c \<and> is_cycle nodes c"
proof -
  from assms(1) have nodes: "nodes = filter (\<lambda>(k, n). k \<notin> fst ` set kns) all"
    and inst: "set installed = fst ` set kns" by (simp_all add: round_inv_def)
  have next_dep: "\<exists>d. (k, d) \<in> edges nodes" if "k \<in> fst ` set nodes" for k
  proof -
    from that have "bt_get nodes k \<noteq> None" by (simp add: map_of_eq_None_iff)
    then obtain n where n: "bt_get nodes k = Some n" by blast
    then have kn: "(k, n) \<in> set nodes" by (rule map_of_SomeD)
    with assms(4) obtain d where d: "d \<in> set (dependencies n)" "d \<notin> set installed"
      by (auto simp: round_ready_def filter_empty_conv)
    from kn assms(2) d(1) have "d \<in> fst ` set all" by (auto simp: nodes closed_def)
    then obtain m where "(d, m) \<in> set all" by auto
    with d(2) inst have "(d, m) \<in> set nodes" by (simp add: nodes)
    then have "d \<in> fst ` set nodes" by force
    then have "bt_get nodes d \<noteq> None" by (simp add: map_of_eq_None_iff)
    with n d(1) show ?thesis by (auto simp: edges_def)
  qed
  have ok: "search_ok nodes (fst ` set nodes) [] [] (find_cycle nodes)" by (rule find_cycle_ok)
  show ?thesis
  proof (cases "find_cycle nodes")
    case (Finished f)
    with ok have "ranked nodes (set f)" and f: "fst ` set nodes \<subseteq> set f" by (simp_all add: search_ok_def)
    then obtain r :: "feature_install_identity \<Rightarrow> nat"
      where r: "\<And>a b. a \<in> set f \<Longrightarrow> (a, b) \<in> edges nodes \<Longrightarrow> r b < r a" unfolding ranked_def by blast
    have "fst (hd nodes) \<in> fst ` set nodes" using assms(3) by simp
    then have "\<exists>k. k \<in> fst ` set nodes \<and> (\<forall>j. j \<in> fst ` set nodes \<longrightarrow> r k \<le> r j)"
      by (rule ex_has_least_nat)
    then obtain k where k: "k \<in> fst ` set nodes" "\<forall>j. j \<in> fst ` set nodes \<longrightarrow> r k \<le> r j" by blast
    from next_dep [OF k(1)] obtain d where d: "(k, d) \<in> edges nodes" by (rule exE)
    then have "bt_get nodes d \<noteq> None" by (auto simp: edges_def)
    then have "d \<in> fst ` set nodes" by (simp add: map_of_eq_None_iff)
    with k(2) have "r k \<le> r d" by blast
    moreover have "r d < r k" using r [OF _ d] f k(1) by blast
    ultimately show ?thesis by simp
  qed (use ok in \<open>simp_all add: search_ok_def\<close>)
qed

lemma map_of_filter_key: "map_of (filter (\<lambda>(k, n). k \<notin> S) m) k = (if k \<in> S then None else map_of m k)"
  by (induction m) auto

lemma is_cycle_filter:
  assumes "is_cycle (filter (\<lambda>(k, n). k \<notin> S) nodes) c"
  shows "is_cycle nodes c"
proof -
  have "edges (filter (\<lambda>(k, n). k \<notin> S) nodes) \<subseteq> edges nodes"
    by (auto simp: edges_def map_of_filter_key split: if_splits)
  with assms show ?thesis unfolding is_cycle_def by (blast intro: successively_mono)
qed

lemma complete_order:
  assumes "install_order all kns" and "distinct (map fst all)" and "filter (\<lambda>(k, n). k \<notin> fst ` set kns) all = []"
  shows "set kns = set all"
proof
  show "set kns \<subseteq> set all" using assms(1) by (simp add: install_order_def)
  show "set all \<subseteq> set kns"
  proof
    fix kn assume kn: "kn \<in> set all"
    with assms(3) obtain n where n: "(fst kn, n) \<in> set kns" by (auto simp: filter_empty_conv case_prod_beta)
    with assms(1) have "(fst kn, n) \<in> set all" by (auto simp: install_order_def)
    with kn assms(2) have "n = snd kn" by (metis eq_key_imp_eq_value prod.collapse)
    with n show "kn \<in> set kns" by simp
  qed
qed

definition rounds_ok :: "graph \<Rightarrow> (resolved_feature list, feature_error) result option \<Rightarrow> bool" where
  "rounds_ok all r = (case r of
     Some (Ok out) \<Rightarrow> \<exists>kns. out = map resolved kns \<and> install_order all kns \<and> set kns = set all
   | Some (Err e) \<Rightarrow> \<exists>c. e = DependencyCycle (join '' -> '' (map identity_label c)) \<and> is_cycle all c
   | None \<Rightarrow> False)"

lemma round_loop_end: "round_loop [] installed out = Some (Ok out)"
  by (subst round_loop.simps) simp

lemma round_loop_stuck:
  "nodes \<noteq> [] \<Longrightarrow> round_ready nodes installed = [] \<Longrightarrow> find_cycle nodes = Cycle c \<Longrightarrow>
    round_loop nodes installed out = Some (Err (DependencyCycle (join '' -> '' (map identity_label c))))"
  by (subst round_loop.simps) (simp add: cycle_text_def)

lemma round_loop_next:
  "nodes \<noteq> [] \<Longrightarrow> round_ready nodes installed \<noteq> [] \<Longrightarrow> chosen = round_chosen (round_ready nodes installed) \<Longrightarrow>
    round_loop nodes installed out = round_loop (filter (\<lambda>(k, n). k \<notin> fst ` set chosen) nodes)
      (fold insort_insert (map fst chosen) installed) (out @ map resolved chosen)"
  by (subst round_loop.simps) (simp only: Let_def if_False)

lemma round_loop_ok:
  "round_inv all nodes installed kns \<Longrightarrow> closed all \<Longrightarrow> distinct (map fst all) \<Longrightarrow> out = map resolved kns \<Longrightarrow>
    rounds_ok all (round_loop nodes installed out)"
proof (induction nodes installed out arbitrary: kns rule: round_loop.induct)
  case (1 nodes installed out)
  then have inv: "install_order all kns" "nodes = filter (\<lambda>(k, n). k \<notin> fst ` set kns) all"
    by (simp_all add: round_inv_def)
  consider (finished) "nodes = []" | (stuck) "nodes \<noteq> []" "round_ready nodes installed = []"
    | (ready) "nodes \<noteq> []" "round_ready nodes installed \<noteq> []" by blast
  then show ?case
  proof cases
    case finished
    with inv(2) have "filter (\<lambda>(k, n). k \<notin> fst ` set kns) all = []" by simp
    with inv(1) 1(4) have "set kns = set all" by (rule complete_order)
    with inv(1) 1(5) show ?thesis
      unfolding finished round_loop_end rounds_ok_def option.case result.case by blast
  next
    case stuck
    from stuck_cycle [OF 1(2,3) stuck] obtain c where c: "find_cycle nodes = Cycle c \<and> is_cycle nodes c"
      by (rule exE)
    then have "is_cycle all c" using is_cycle_filter unfolding inv(2) by blast
    then show ?thesis
      unfolding round_loop_stuck [OF stuck conjunct1 [OF c]] rounds_ok_def option.case result.case by blast
  next
    case ready
    have "out @ map resolved (round_chosen (round_ready nodes installed)) =
        map resolved (kns @ round_chosen (round_ready nodes installed))" by (simp add: 1(5))
    from 1(1) [OF ready(1) refl ready(2) refl round_inv_step [OF 1(2,4)] 1(3,4) this]
    show ?thesis unfolding round_loop_next [OF ready refl] .
  qed
qed

lemma round_sort_ok:
  assumes "closed nodes" and "bt_ok nodes"
  shows "rounds_ok nodes (round_sort nodes)"
  unfolding round_sort_def
  by (rule round_loop_ok [OF _ assms(1) bt_ok_distinct [OF assms(2)], of _ _ "[]"])
    (simp_all add: round_inv_def install_order_def)

lemma install_order_ranked:
  assumes "install_order nodes kns" and "set kns = set nodes" and "distinct (map fst nodes)"
  shows "ranked nodes (fst ` set nodes)"
proof -
  define r where "r k = (LEAST i. i < length kns \<and> fst (kns ! i) = k)" for k
  have r: "r (fst (kns ! i)) = i" if "i < length kns" for i
  proof -
    have "j = i" if "j < length kns" "fst (kns ! j) = fst (kns ! i)" for j
      using assms(1) that \<open>i < length kns\<close> nth_eq_iff_index_eq [of "map fst kns" j i]
      by (simp add: install_order_def)
    with that show ?thesis unfolding r_def by (intro Least_equality) auto
  qed
  have "b \<in> fst ` set nodes \<and> r b < r a" if "(a, b) \<in> edges nodes" for a b
  proof -
    from that obtain n where n: "bt_get nodes a = Some n" "b \<in> set (dependencies n)" "bt_get nodes b \<noteq> None"
      by (auto simp: edges_def)
    then have "(a, n) \<in> set kns" using assms(2) by (auto dest: map_of_SomeD)
    then obtain i where i: "i < length kns" "kns ! i = (a, n)" by (auto simp: in_set_conv_nth)
    with assms(1) n(2) have "b \<in> fst ` set (take i kns)" by (fastforce simp: install_order_def)
    then obtain j where "j < i" "fst (kns ! j) = b" by (force simp: in_set_conv_nth)
    with r [of j] r [of i] i n(3) show ?thesis by (auto simp: map_of_eq_None_iff)
  qed
  then show ?thesis unfolding ranked_def by blast
qed

section \<open>The expansion resolves every request and dependency\<close>

text \<open>The node with an identity answers a request: it is the content the catalog has for the reference, with
  the options the request comes to.\<close>

definition answers :: "catalog \<Rightarrow> graph \<Rightarrow> feature_reference \<Rightarrow> option_values \<Rightarrow> feature_install_identity \<Rightarrow> bool" where
  "answers packages nodes reference options i \<longleftrightarrow>
     (\<exists>p n path. bt_get packages reference = Some p \<and> package_identity p = i \<and> bt_get nodes i = Some n \<and>
       validate_options (package_metadata p) options path = Ok (node_options n))"

definition queued :: "pending list \<Rightarrow> feature_install_identity option \<Rightarrow> feature_reference \<Rightarrow> option_values \<Rightarrow> bool" where
  "queued pending parent reference options \<longleftrightarrow>
     (\<exists>item \<in> set pending. pending_reference item = reference \<and> pending_options item = options \<and>
       pending_parent item = parent)"

definition node_resolved :: "catalog \<Rightarrow> pending list \<Rightarrow> graph \<Rightarrow> feature_install_identity \<Rightarrow> node \<Rightarrow> bool" where
  "node_resolved packages pending nodes k n \<longleftrightarrow>
     package_identity (node_package n) = k \<and> set (dependencies n) \<subseteq> fst ` set nodes \<and>
     (\<forall>(reference, options) \<in> set (depends_on (package_metadata (node_package n))).
        (\<exists>i \<in> set (dependencies n). answers packages nodes reference options i) \<or>
        queued pending (Some k) reference options)"

definition expansion :: "catalog \<Rightarrow> feature_request list \<Rightarrow> pending list \<Rightarrow> graph \<Rightarrow> bool" where
  "expansion packages requests pending nodes \<longleftrightarrow> bt_ok nodes \<and>
     (\<forall>k n. bt_get nodes k = Some n \<longrightarrow> node_resolved packages pending nodes k n) \<and>
     (\<forall>q \<in> set requests. (\<exists>i. answers packages nodes (request_reference q) (request_options q) i) \<or>
        queued pending None (request_reference q) (request_options q))"

lemma get_add_dependency:
  "bt_get (add_dependency parent i nodes) k =
    map_option (\<lambda>n. if parent = Some k then n\<lparr>dependencies := insort_insert i (dependencies n)\<rparr> else n) (bt_get nodes k)"
  unfolding add_dependency_def by (cases parent; induction nodes) auto

lemma bt_ok_add_dependency: "bt_ok nodes \<Longrightarrow> bt_ok (add_dependency parent i nodes)"
proof -
  have "map fst (add_dependency parent i nodes) = map fst nodes"
    by (auto simp: add_dependency_def split: option.splits)
  then show "bt_ok nodes \<Longrightarrow> ?thesis" unfolding bt_ok_def by (simp only:)
qed

lemma answers_grow:
  assumes "answers packages nodes r opts i"
    and "\<And>k n. bt_get nodes k = Some n \<Longrightarrow> \<exists>n'. bt_get nodes' k = Some n' \<and> node_options n' = node_options n"
  shows "answers packages nodes' r opts i"
proof -
  from assms(1) obtain p n path where p: "bt_get packages r = Some p" "package_identity p = i"
    "bt_get nodes i = Some n" "validate_options (package_metadata p) opts path = Ok (node_options n)"
    unfolding answers_def by blast
  from assms(2) [OF p(3)] obtain n' where "bt_get nodes' i = Some n'" "node_options n' = node_options n" by blast
  with p show ?thesis unfolding answers_def by metis
qed

text \<open>One item is taken from the queue: the graph grows to one that answers it, and lists the answer among the
  dependencies of its parent; what the item's own package asks for is queued.\<close>

lemma expansion_step:
  assumes inv: "expansion packages requests (item # pending) nodes"
    and grow: "\<And>k n. bt_get nodes k = Some n \<Longrightarrow> bt_get nodes1 k = Some n"
    and new: "\<And>k n. bt_get nodes1 k = Some n \<Longrightarrow> bt_get nodes k = None \<Longrightarrow>
      package_identity (node_package n) = k \<and> dependencies n = [] \<and>
      (\<forall>(r, opts) \<in> set (depends_on (package_metadata (node_package n))). queued extra (Some k) r opts)"
    and ok: "bt_ok nodes1"
    and answer: "answers packages nodes1 (pending_reference item) (pending_options item) i"
  shows "expansion packages requests (pending @ extra) (add_dependency (pending_parent item) i nodes1)"
proof -
  let ?nodes = "add_dependency (pending_parent item) i nodes1"
  have up: "\<exists>n'. bt_get ?nodes k = Some n' \<and> node_options n' = node_options n" if "bt_get nodes1 k = Some n" for k n
    using that by (simp add: get_add_dependency)
  have ans1: "answers packages nodes1 r opts j" if "answers packages nodes r opts j" for r opts j
    using that grow by (blast intro: answers_grow)
  have ans: "answers packages ?nodes r opts j" if "answers packages nodes1 r opts j" for r opts j
    using that up by (rule answers_grow)
  have "dom (bt_get nodes) \<subseteq> dom (bt_get nodes1)" "i \<in> dom (bt_get nodes1)"
    using grow answer by (blast, auto simp: answers_def)
  then have keys: "fst ` set nodes \<subseteq> fst ` set nodes1" "i \<in> fst ` set nodes1"
    by (simp_all add: dom_map_of_conv_image_fst)
  have queue: "queued (pending @ extra) q r opts \<or> (q = pending_parent item \<and> r = pending_reference item \<and> opts = pending_options item)"
    if "queued (item # pending) q r opts" for q r opts
    using that by (auto simp: queued_def)
  have node: "node_resolved packages (pending @ extra) ?nodes k n" if "bt_get ?nodes k = Some n" for k n
  proof -
    from that obtain n1 where n1: "bt_get nodes1 k = Some n1"
      and n: "n = (if pending_parent item = Some k then n1\<lparr>dependencies := insort_insert i (dependencies n1)\<rparr> else n1)"
      by (auto simp: get_add_dependency)
    have deps: "set (dependencies n) = set (dependencies n1) \<union> (if pending_parent item = Some k then {i} else {})"
      "node_package n = node_package n1" by (simp_all add: n set_insort_insert)
    show ?thesis
    proof (cases "bt_get nodes k")
      case None
      with new [OF n1] deps keys(2) show ?thesis by (fastforce simp: node_resolved_def queued_def)
    next
      case (Some m)
      with grow n1 have "m = n1" by fastforce
      with inv Some have res: "node_resolved packages (item # pending) nodes k n1" by (auto simp: expansion_def)
      have want: "(\<exists>j \<in> set (dependencies n). answers packages ?nodes r opts j) \<or> queued (pending @ extra) (Some k) r opts"
        if "(r, opts) \<in> set (depends_on (package_metadata (node_package n1)))" for r opts
        using res that queue [of "Some k" r opts] ans1 ans answer unfolding node_resolved_def deps(1) by fastforce
      have "\<forall>(r, opts) \<in> set (depends_on (package_metadata (node_package n))).
          (\<exists>j \<in> set (dependencies n). answers packages ?nodes r opts j) \<or> queued (pending @ extra) (Some k) r opts"
        unfolding deps(2) by (intro ballI) (clarify, drule want, blast)
      moreover have "set (dependencies n) \<subseteq> fst ` set ?nodes" "package_identity (node_package n) = k"
        using res keys deps by (auto simp: node_resolved_def)
      ultimately show ?thesis by (simp add: node_resolved_def)
    qed
  qed
  have "(\<exists>j. answers packages ?nodes (request_reference q) (request_options q) j) \<or>
      queued (pending @ extra) None (request_reference q) (request_options q)" if "q \<in> set requests" for q
  proof -
    from inv that consider j where "answers packages nodes (request_reference q) (request_options q) j"
      | "queued (item # pending) None (request_reference q) (request_options q)" unfolding expansion_def by blast
    then show ?thesis
    proof cases
      case 1
      then show ?thesis using ans1 ans by blast
    next
      case 2
      with queue [OF 2] ans [OF answer] show ?thesis by auto
    qed
  qed
  with node bt_ok_add_dependency [OF ok] show ?thesis unfolding expansion_def by blast
qed

lemma expand_expansion:
  "expansion packages requests pending nodes \<Longrightarrow> expand packages pending nodes = Ok nodes' \<Longrightarrow>
    expansion packages requests [] nodes'"
proof (induction packages pending nodes rule: expand.induct)
  case (1 packages nodes)
  then show ?case by simp
next
  case (2 packages item pending nodes)
  from "2.prems"(2) obtain p where p: "bt_get packages (pending_reference item) = Some p"
    "package_reference p = pending_reference item" by (auto split: option.splits if_splits)
  with "2.prems"(2) obtain eff where
    eff: "validate_options (package_metadata p) (pending_options item) (pending_path item) = Ok eff"
    by (auto split: result.splits)
  let ?i = "package_identity p"
  show ?case
  proof (cases "bt_get nodes ?i")
    case (Some n)
    with "2.prems"(2) p eff have n: "node_options n = eff"
      and rec: "expand packages pending (add_dependency (pending_parent item) ?i nodes) = Ok nodes'"
      by (auto simp: Let_def split: if_splits)
    have "answers packages nodes (pending_reference item) (pending_options item) ?i"
      using p(1) eff Some n unfolding answers_def by blast
    with expansion_step [OF "2.prems"(1), of nodes "[]" ?i] "2.prems"(1)
    have "expansion packages requests pending (add_dependency (pending_parent item) ?i nodes)"
      by (simp add: expansion_def)
    with "2.IH"(2) [OF p(1) _ eff refl Some] rec p(2) n show ?thesis by simp
  next
    case None
    let ?n = "new_node p eff item"
    from "2.prems"(2) p eff None have rec: "expand packages (pending @ dependency_pending p item)
        (add_dependency (pending_parent item) ?i (bt_insert ?i ?n nodes)) = Ok nodes'"
      by (auto simp: Let_def)
    have "node_options ?n = eff" "node_package ?n = p" "dependencies ?n = []" by (simp_all add: new_node_def)
    then have ans: "answers packages (bt_insert ?i ?n nodes) (pending_reference item) (pending_options item) ?i"
      using p(1) eff unfolding answers_def by (metis bt_get_insert fun_upd_same)
    have q: "queued (dependency_pending p item) (Some ?i) r opts" if "(r, opts) \<in> set (depends_on (package_metadata p))" for r opts
      using that by (force simp: queued_def dependency_pending_def)
    have "expansion packages requests (pending @ dependency_pending p item)
        (add_dependency (pending_parent item) ?i (bt_insert ?i ?n nodes))"
    proof (rule expansion_step [OF "2.prems"(1) _ _ _ ans])
      show "bt_ok (bt_insert ?i ?n nodes)" using "2.prems"(1) by (simp add: expansion_def)
      show "bt_get (bt_insert ?i ?n nodes) k = Some m" if "bt_get nodes k = Some m" for k m
        using that None by auto
      show "package_identity (node_package m) = k \<and> dependencies m = [] \<and>
          (\<forall>(r, opts) \<in> set (depends_on (package_metadata (node_package m))). queued (dependency_pending p item) (Some k) r opts)"
        if "bt_get (bt_insert ?i ?n nodes) k = Some m" "bt_get nodes k = None" for k m
        using that q by (auto simp: new_node_def split: if_splits)
    qed
    with "2.IH"(1) [OF p(1) _ eff refl None] rec p(2) show ?thesis by simp
  qed
qed

lemma expand_ok:
  assumes "expand packages (map root_pending requests) [] = Ok nodes"
  shows "expansion packages requests [] nodes"
proof (rule expand_expansion [OF _ assms])
  show "expansion packages requests (map root_pending requests) []"
    by (auto simp: expansion_def queued_def root_pending_def)
qed

section \<open>Soft edges and priorities keep what was resolved\<close>

text \<open>A later graph with the same nodes, whose dependencies may have grown within it.\<close>

definition refined :: "graph \<Rightarrow> graph \<Rightarrow> bool" where
  "refined nodes nodes' \<longleftrightarrow> map fst nodes' = map fst nodes \<and>
     (\<forall>k n'. bt_get nodes' k = Some n' \<longrightarrow> (\<exists>n. bt_get nodes k = Some n \<and> node_package n' = node_package n \<and>
        node_options n' = node_options n \<and> set (dependencies n) \<subseteq> set (dependencies n') \<and>
        set (dependencies n') \<subseteq> set (dependencies n) \<union> fst ` set nodes))"

lemma refined_map:
  assumes "\<And>k n. (k, n) \<in> set nodes \<Longrightarrow> node_package (f k n) = node_package n \<and> node_options (f k n) = node_options n \<and>
    set (dependencies n) \<subseteq> set (dependencies (f k n)) \<and>
    set (dependencies (f k n)) \<subseteq> set (dependencies n) \<union> fst ` set nodes"
  shows "refined nodes (map (\<lambda>(k, n). (k, f k n)) nodes)"
proof -
  have "bt_get (map (\<lambda>(k, n). (k, f k n)) nodes) k = map_option (f k) (bt_get nodes k)" for k
    by (induction nodes) auto
  then show ?thesis using assms by (fastforce simp: refined_def comp_def case_prod_beta dest: map_of_SomeD)
qed

lemma refinedD:
  assumes "refined nodes nodes'" and "bt_get nodes' k = Some n'"
  obtains n where "bt_get nodes k = Some n" "node_package n' = node_package n" "node_options n' = node_options n"
    "set (dependencies n) \<subseteq> set (dependencies n')" "set (dependencies n') \<subseteq> set (dependencies n) \<union> fst ` set nodes"
  using assms unfolding refined_def by blast

lemma refined_keys: "refined nodes nodes' \<Longrightarrow> fst ` set nodes' = fst ` set nodes"
  unfolding refined_def by (metis set_map)

lemma refined_trans:
  assumes "refined a b" and "refined b c"
  shows "refined a c"
proof -
  have "\<exists>n. bt_get a k = Some n \<and> node_package n'' = node_package n \<and> node_options n'' = node_options n \<and>
      set (dependencies n) \<subseteq> set (dependencies n'') \<and> set (dependencies n'') \<subseteq> set (dependencies n) \<union> fst ` set a"
    if k: "bt_get c k = Some n''" for k n''
    using assms(2) k
  proof (rule refinedD)
    fix n'
    assume n': "bt_get b k = Some n'" "node_package n'' = node_package n'" "node_options n'' = node_options n'"
      "set (dependencies n') \<subseteq> set (dependencies n'')" "set (dependencies n'') \<subseteq> set (dependencies n') \<union> fst ` set b"
    from assms(1) n'(1) show ?thesis
      by (rule refinedD) (use n' refined_keys [OF assms(1)] in \<open>auto 0 4\<close>)
  qed
  moreover have "map fst c = map fst a" using assms by (simp add: refined_def)
  ultimately show ?thesis unfolding refined_def by blast
qed

lemma refined_soft_edges: "refined nodes (apply_soft_edges url_parse nodes)"
  unfolding apply_soft_edges_def Let_def
  by (rule refined_map) (force simp: set_fold_insort_insert soft_targets_def)

lemma refined_priorities:
  "apply_priorities_from count index vs nodes = Ok nodes' \<Longrightarrow> refined nodes nodes'"
proof (induction count index vs nodes rule: apply_priorities_from.induct)
  case (1 count index nodes)
  then show ?case using refined_map [of nodes "\<lambda>k n. n"] by simp
next
  case (2 count index v vs nodes)
  let ?f = "\<lambda>k n. if override_matches v n then n\<lparr>priority := count - index\<rparr> else n"
  have "refined nodes (map (\<lambda>(k, n). (k, ?f k n)) nodes)" by (rule refined_map) auto
  with 2 show ?case by (auto split: if_splits intro: refined_trans)
qed

lemma resolve_graph:
  assumes "expand packages (map root_pending requests) [] = Ok nodes"
    and "apply_priorities (apply_soft_edges url_parse nodes) overrides = Ok nodes'"
  shows "expansion packages requests [] nodes" and "refined nodes nodes'" and "bt_ok nodes'" and "closed nodes'"
proof -
  show e: "expansion packages requests [] nodes" using assms(1) by (rule expand_ok)
  show r: "refined nodes nodes'"
    by (rule refined_trans [OF refined_soft_edges refined_priorities [OF assms(2) [unfolded apply_priorities_def]]])
  from e have "bt_ok nodes" unfolding expansion_def by blast
  moreover from r have "map fst nodes' = map fst nodes" unfolding refined_def by blast
  ultimately show ok: "bt_ok nodes'" by (simp add: bt_ok_def)
  have "set (dependencies n') \<subseteq> fst ` set nodes'" if "(k, n') \<in> set nodes'" for k n'
  proof -
    have "bt_get nodes' k = Some n'" by (rule map_of_is_SomeI [OF bt_ok_distinct [OF ok] that])
    from r this show ?thesis
    proof (rule refinedD)
      fix n assume "bt_get nodes k = Some n" and sub: "set (dependencies n') \<subseteq> set (dependencies n) \<union> fst ` set nodes"
      with e have "node_resolved packages [] nodes k n" unfolding expansion_def by blast
      then have "set (dependencies n) \<subseteq> fst ` set nodes" unfolding node_resolved_def by blast
      then show ?thesis unfolding refined_keys [OF r] using sub by auto
    qed
  qed
  then show "closed nodes'" by (auto simp: closed_def)
qed

lemma cycle_keys: "is_cycle nodes c \<Longrightarrow> set c \<inter> fst ` set nodes \<noteq> {}"
proof -
  assume "is_cycle nodes c"
  then obtain x p where c: "c = x # p @ [x]" "successively (\<lambda>a b. (a, b) \<in> edges nodes) (x # p @ [x])"
    unfolding is_cycle_def by blast
  then obtain y where "(x, y) \<in> edges nodes" by (cases p) auto
  then have "bt_get nodes x \<noteq> None" by (auto simp: edges_def)
  then have "x \<in> fst ` set nodes" by (simp add: map_of_eq_None_iff)
  with c show ?thesis by auto
qed

section \<open>Properties\<close>

definition feature_answers :: "catalog \<Rightarrow> feature_reference \<Rightarrow> option_values \<Rightarrow> resolved_feature \<Rightarrow> bool" where
  "feature_answers packages reference options f \<longleftrightarrow>
     (\<exists>p path. bt_get packages reference = Some p \<and> package_identity p = resolved_identity f \<and>
       validate_options (package_metadata p) options path = Ok (resolved_options f))"

text \<open>C7: a successful resolution installs each content identity once, contains the answer to every request, and
  puts before each Feature the answers to all of its hard dependencies: the content that the catalog has
  for the reference, with exactly the options the dependency asks for.\<close>

theorem resolution_installs:
  assumes "resolve_features url_parse requests packages overrides = Some (Ok out)"
  shows "distinct (map resolved_identity out) \<and>
    (\<forall>q \<in> set requests. \<exists>f \<in> set out. feature_answers packages (request_reference q) (request_options q) f) \<and>
    (\<forall>k < length out. \<forall>(r, opts) \<in> set (depends_on (resolved_metadata (out ! k))).
       \<exists>j < k. feature_answers packages r opts (out ! j))"
proof -
  from assms obtain nodes nodes' where ex: "expand packages (map root_pending requests) [] = Ok nodes"
    and pr: "apply_priorities (apply_soft_edges url_parse nodes) overrides = Ok nodes'"
    and rs: "round_sort nodes' = Some (Ok out)"
    by (auto simp: resolve_features_def split: result.splits)
  note g = resolve_graph [OF ex pr]
  have "rounds_ok nodes' (round_sort nodes')" using g(4,3) by (rule round_sort_ok)
  with rs obtain kns where kns: "out = map resolved kns" "install_order nodes' kns" "set kns = set nodes'"
    by (auto simp: rounds_ok_def)
  have node: "\<exists>n. bt_get nodes (fst kn) = Some n \<and> node_package (snd kn) = node_package n \<and>
      node_options (snd kn) = node_options n \<and> set (dependencies n) \<subseteq> set (dependencies (snd kn))"
    if "kn \<in> set kns" for kn
  proof -
    have "bt_get nodes' (fst kn) = Some (snd kn)"
      using that kns(3) by (intro map_of_is_SomeI [OF bt_ok_distinct [OF g(3)]]) simp
    from g(2) this show ?thesis by (rule refinedD) blast
  qed
  have ans: "feature_answers packages r opts (resolved kn)"
    if "kn \<in> set kns" "answers packages nodes r opts (fst kn)" for kn r opts
    using node [OF that(1)] that(2) by (auto simp: feature_answers_def answers_def resolved_def)
  have key: "\<exists>kn \<in> set kns. fst kn = i" if "answers packages nodes r opts i" for r opts i
  proof -
    from that have "bt_get nodes i \<noteq> None" by (auto simp: answers_def)
    then have "i \<in> fst ` set nodes" by (simp add: map_of_eq_None_iff)
    then have "i \<in> fst ` set kns" using refined_keys [OF g(2)] by (simp add: kns(3))
    then show ?thesis by blast
  qed
  have "map resolved_identity out = map fst kns" by (simp add: kns(1) resolved_def)
  then have "distinct (map resolved_identity out)" using kns(2) by (simp add: install_order_def)
  moreover have "\<exists>f \<in> set out. feature_answers packages (request_reference q) (request_options q) f"
    if "q \<in> set requests" for q
  proof -
    from g(1) that obtain i where i: "answers packages nodes (request_reference q) (request_options q) i"
      by (auto simp: expansion_def queued_def)
    from key [OF i] ans i show ?thesis unfolding kns(1) by fastforce
  qed
  moreover have "\<exists>j < k. feature_answers packages r opts (out ! j)"
    if k: "k < length out" and d: "(r, opts) \<in> set (depends_on (resolved_metadata (out ! k)))" for k r opts
  proof -
    have kn: "kns ! k \<in> set kns" "k < length kns" using k by (simp_all add: kns(1))
    from node [OF kn(1)] obtain n where n: "bt_get nodes (fst (kns ! k)) = Some n" "node_package (snd (kns ! k)) = node_package n"
      "set (dependencies n) \<subseteq> set (dependencies (snd (kns ! k)))" by blast
    have "(r, opts) \<in> set (depends_on (package_metadata (node_package n)))"
      using d kn by (simp add: kns(1) resolved_def n(2))
    with g(1) n(1) obtain i where i: "i \<in> set (dependencies n)" "answers packages nodes r opts i"
      by (fastforce simp: expansion_def node_resolved_def queued_def)
    with n(3) kns(2) kn(2) have "i \<in> fst ` set (take k kns)" unfolding install_order_def by blast
    then obtain j where j: "j < k" "fst (kns ! j) = i" using kn(2) by (force simp: in_set_conv_nth)
    then show ?thesis using ans [of "kns ! j" r opts] i(2) kn(2) by (auto simp: kns(1) intro!: exI [of _ j])
  qed
  ultimately show ?thesis by blast
qed

definition sample_package :: "string \<Rightarrow> (feature_reference, option_values) btree \<Rightarrow> feature_package" where
  "sample_package name deps = \<lparr>package_reference = LocalReference name, package_identity = LocalIdentity name,
     package_metadata = sample_metadata\<lparr>option_definitions := [], depends_on := deps\<rparr>,
     package_digest = None, package_integrity = None\<rparr>"

definition sample_catalog :: catalog where
  "sample_catalog = [(LocalReference ''./a'', sample_package ''./a'' [(LocalReference ''./b'', [])]),
     (LocalReference ''./b'', sample_package ''./b'' [])]"

definition sample_request :: feature_request where
  "sample_request = \<lparr>request_reference = LocalReference ''./a'', request_options = []\<rparr>"

definition sample_node :: "string \<Rightarrow> (feature_reference, option_values) btree \<Rightarrow> feature_install_identity list \<Rightarrow>
    feature_reference list \<Rightarrow> node" where
  "sample_node name deps ds path = \<lparr>node_package = sample_package name deps, node_options = [],
     explicit_options = [], dependencies = ds, first_path = path, priority = 0\<rparr>"

definition sample_graph :: graph where
  "sample_graph = [(LocalIdentity ''./a'', sample_node ''./a'' [(LocalReference ''./b'', [])] [LocalIdentity ''./b''] [LocalReference ''./a'']),
     (LocalIdentity ''./b'', sample_node ''./b'' [] [] [LocalReference ''./a'', LocalReference ''./b''])]"

lemma sample_expand: "expand sample_catalog [root_pending sample_request] [] = Ok sample_graph"
  by (simp add: sample_catalog_def root_pending_def sample_request_def sample_package_def sample_graph_def
      sample_node_def validate_options_def sample_metadata_def new_node_def dependency_pending_def
      add_dependency_def insort_insert_key_def less_feature_install_identity_def identity_label_def Let_def)

lemma sample_soft: "apply_soft_edges url_parse sample_graph = sample_graph"
  by (simp add: apply_soft_edges_def sample_graph_def sample_node_def sample_package_def sample_metadata_def Let_def)

lemma sample_graph_ok: "closed sample_graph" "bt_ok sample_graph"
  by (simp_all add: sample_graph_def sample_node_def closed_def bt_ok_def less_feature_install_identity_def
      identity_label_def)

lemma sample_acyclic: "\<not> is_cycle sample_graph c"
proof -
  let ?r = "\<lambda>i. if i = LocalIdentity ''./a'' then 1 else 0 :: nat"
  have keys: "fst ` set sample_graph = {LocalIdentity ''./a'', LocalIdentity ''./b''}"
    by (simp add: sample_graph_def)
  have edge: "x = LocalIdentity ''./a'' \<and> y = LocalIdentity ''./b''" if "(x, y) \<in> edges sample_graph" for x y
  proof -
    from that obtain n where n: "bt_get sample_graph x = Some n" "y \<in> set (dependencies n)"
      unfolding edges_def by blast
    from n(1) have "(x, n) \<in> set sample_graph" by (rule map_of_SomeD)
    then show ?thesis using n(2) unfolding sample_graph_def sample_node_def by fastforce
  qed
  have "ranked sample_graph (fst ` set sample_graph)"
    unfolding ranked_def keys by (intro exI [of _ ?r] ballI allI impI) (drule edge, simp)
  from ranked_no_cycle [OF this] cycle_keys show ?thesis by metis
qed

lemma sample_sorted:
  obtains out where "round_sort sample_graph = Some (Ok out)"
proof -
  have ok: "rounds_ok sample_graph (round_sort sample_graph)" by (rule round_sort_ok [OF sample_graph_ok])
  show thesis
  proof (cases "round_sort sample_graph")
    case None
    with ok show thesis by (simp add: rounds_ok_def)
  next
    case (Some r)
    with ok that sample_acyclic show thesis by (cases r) (simp_all add: rounds_ok_def)
  qed
qed

theorem resolution_installs_witness:
  "\<exists>out. resolve_features (\<lambda>_. Err []) [sample_request] sample_catalog [] = Some (Ok out) \<and>
     (\<exists>f \<in> set out. feature_answers sample_catalog (LocalReference ''./a'') [] f)"
proof -
  have "resolve_features (\<lambda>_. Err []) [sample_request] sample_catalog [] = round_sort sample_graph"
    by (simp add: resolve_features_def sample_expand sample_soft apply_priorities_def del: expand.simps)
  moreover obtain out where "round_sort sample_graph = Some (Ok out)" by (rule sample_sorted)
  ultimately have out: "resolve_features (\<lambda>_. Err []) [sample_request] sample_catalog [] = Some (Ok out)" by simp
  from conjunct1 [OF conjunct2 [OF resolution_installs [OF out]]]
  have "\<exists>f \<in> set out. feature_answers sample_catalog (LocalReference ''./a'') [] f"
    by (simp add: sample_request_def)
  with out show ?thesis by blast
qed

text \<open>C30: the rounds decide exactly whether the edges have a cycle: they order every node when there is none, and
  otherwise report a closed path of the graph; the search for it never runs out of the graph.\<close>

theorem rounds_decide_cycles:
  assumes "closed nodes" and "bt_ok nodes"
  shows "case round_sort nodes of
      Some (Ok out) \<Rightarrow> (\<nexists>c. is_cycle nodes c) \<and> set (map resolved_identity out) = fst ` set nodes
    | Some (Err e) \<Rightarrow> (\<exists>c. is_cycle nodes c \<and> e = DependencyCycle (join '' -> '' (map identity_label c)))
    | None \<Rightarrow> False"
proof -
  note ok = round_sort_ok [OF assms]
  show ?thesis
  proof (cases "round_sort nodes")
    case (Some r)
    show ?thesis
    proof (cases r)
      case (Ok out)
      with ok Some obtain kns where kns: "out = map resolved kns" "install_order nodes kns" "set kns = set nodes"
        by (auto simp: rounds_ok_def)
      have "\<nexists>c. is_cycle nodes c"
        using ranked_no_cycle [OF install_order_ranked [OF kns(2,3) bt_ok_distinct [OF assms(2)]]] cycle_keys by blast
      then show ?thesis using Some Ok kns by (simp add: resolved_def image_image)
    next
      case (Err e)
      with ok Some show ?thesis by (auto simp: rounds_ok_def)
    qed
  qed (use ok in \<open>simp add: rounds_ok_def\<close>)
qed

theorem rounds_decide_cycles_witness:
  "\<exists>out. round_sort sample_graph = Some (Ok out) \<and> (\<nexists>c. is_cycle sample_graph c) \<and>
     set (map resolved_identity out) = {LocalIdentity ''./a'', LocalIdentity ''./b''}"
proof -
  obtain out where out: "round_sort sample_graph = Some (Ok out)" by (rule sample_sorted)
  have "(\<nexists>c. is_cycle sample_graph c) \<and> set (map resolved_identity out) = fst ` set sample_graph"
    using rounds_decide_cycles [OF sample_graph_ok] unfolding out option.case result.case .
  moreover have "fst ` set sample_graph = {LocalIdentity ''./a'', LocalIdentity ''./b''}"
    by (simp add: sample_graph_def)
  ultimately show ?thesis using out by (intro exI [of _ out]) (simp only: simp_thms)
qed

text \<open>C31: resolution always returns: whatever the requests, the catalog and the overrides, the expansion ends even
  when dependencies are circular, and no step panics.\<close>

theorem resolution_total:
  "resolve_features url_parse requests packages overrides \<noteq> None"
proof -
  have "round_sort nodes' \<noteq> None" if "expand packages (map root_pending requests) [] = Ok nodes"
    "apply_priorities (apply_soft_edges url_parse nodes) overrides = Ok nodes'" for nodes nodes'
    using round_sort_ok [OF resolve_graph(4,3) [OF that]] by (auto simp: rounds_ok_def split: option.splits)
  then show ?thesis by (auto simp: resolve_features_def split: result.splits)
qed

end
