(* ===== verification/Feature_Lock.thy ===== *)
theory Feature_Lock
  imports Feature_Resolution
begin

text \<open>
  \<^verbatim>\<open>crates/cdenv-devcontainer/src/feature/lock.rs\<close>: the frozen record of a resolution. The strict JSON
  reader and the pretty printer of \<^verbatim>\<open>serde_json\<close> are parameters.
\<close>

section \<open>Locks\<close>

definition FEATURE_LOCK_VERSION :: "32 word" where
  "FEATURE_LOCK_VERSION = 1"

record locked_feature =
  locked_version :: string
  locked_resolved :: string
  locked_integrity :: string
  locked_options :: option_values
  locked_depends_on :: "(string, option_values) btree"

record feature_lock =
  lock_version :: "32 word"
  lock_requested :: "(string, option_values) btree"
  lock_features :: "(string, locked_feature) btree"

definition FeatureLock_default :: feature_lock where
  "FeatureLock_default = \<lparr>lock_version = FEATURE_LOCK_VERSION, lock_requested = [], lock_features = []\<rparr>"

definition LockedFeature_new ::
    "string \<Rightarrow> string \<Rightarrow> string \<Rightarrow> option_values \<Rightarrow> (string, option_values) btree \<Rightarrow>
      (locked_feature, feature_error) result" where
  "LockedFeature_new v r integrity opts deps =
     (if v = [] \<or> r = [] then Err (InvalidLock ''lock version and resolution cannot be empty'')
      else and_then (map_err InvalidLock (validate_sha256 integrity)) (\<lambda>_.
        Ok \<lparr>locked_version = v, locked_resolved = r, locked_integrity = integrity, locked_options = opts,
          locked_depends_on = deps\<rparr>))"

definition requested_map :: "feature_request list \<Rightarrow> (string, option_values) btree" where
  "requested_map requests = bt_of (map (\<lambda>q. (ref_text (request_reference q), request_options q)) requests)"

definition pinned_reference :: "feature_package \<Rightarrow> string" where
  "pinned_reference p =
     (case package_digest p of
        None \<Rightarrow> ref_text (package_reference p)
      | Some digest \<Rightarrow> oci_resource_name (ref_text (package_reference p)) @ ''@'' @ digest)"

definition lock_entry :: "catalog \<Rightarrow> resolved_feature \<Rightarrow> (string \<times> locked_feature, feature_error) result" where
  "lock_entry packages f =
     and_then (ok_or (InvalidLock ''resolved Feature is absent from its package catalog'')
       (bt_get packages (resolved_reference f))) (\<lambda>p.
     and_then (ok_or (InvalidLock ''resolved Feature has no content integrity'') (package_integrity p)) (\<lambda>integrity.
     and_then (map_err InvalidLock (validate_sha256 integrity)) (\<lambda>_.
     map_ok (Pair (ref_text (resolved_reference f)))
       (LockedFeature_new (feature_version (resolved_metadata f)) (pinned_reference p) integrity
         (resolved_options f)
         (bt_of (map (\<lambda>(r, opts). (ref_text r, opts)) (depends_on (package_metadata p))))))))"

definition FeatureLock_from_resolution ::
    "feature_request list \<Rightarrow> resolved_feature list \<Rightarrow> catalog \<Rightarrow> (feature_lock, feature_error) result" where
  "FeatureLock_from_resolution requests resolution packages =
     map_ok (\<lambda>entries. \<lparr>lock_version = FEATURE_LOCK_VERSION, lock_requested = requested_map requests,
         lock_features = bt_of entries\<rparr>)
       (collect_results (lock_entry packages) resolution)"

definition validate_record :: "locked_feature \<Rightarrow> (unit, feature_error) result" where
  "validate_record r =
     (if locked_version r = [] \<or> locked_resolved r = []
      then Err (InvalidLock ''lock record has an empty version or resolution'')
      else map_err InvalidLock (validate_sha256 (locked_integrity r)))"

definition validate_structure :: "feature_lock \<Rightarrow> (unit, feature_error) result" where
  "validate_structure lock =
     (if lock_version lock \<noteq> FEATURE_LOCK_VERSION then Err (InvalidLock ''unsupported lockfile version'')
      else map_ok (\<lambda>_. ()) (collect_results (\<lambda>(_, r). validate_record r) (lock_features lock)))"

definition FeatureLock_parse ::
    "(string \<Rightarrow> feature_lock option) \<Rightarrow> string \<Rightarrow> (feature_lock, feature_error) result" where
  "FeatureLock_parse from_slice bytes =
     and_then (ok_or (InvalidLock ''lockfile is not valid strict JSON'') (from_slice bytes)) (\<lambda>lock.
     map_ok (\<lambda>_. lock) (validate_structure lock))"

definition to_json_bytes ::
    "(feature_lock \<Rightarrow> string option) \<Rightarrow> feature_lock \<Rightarrow> (string, feature_error) result" where
  "to_json_bytes to_vec_pretty lock =
     and_then (validate_structure lock) (\<lambda>_.
     map_ok (\<lambda>bytes. bytes @ [CHR 0x0A])
       (ok_or (InvalidLock ''lockfile cannot be serialized'') (to_vec_pretty lock)))"

definition validate_frozen ::
    "feature_lock \<Rightarrow> feature_request list \<Rightarrow> resolved_feature list \<Rightarrow> catalog \<Rightarrow> (unit, feature_error) result" where
  "validate_frozen lock requests resolution packages =
     and_then (FeatureLock_from_resolution requests resolution packages) (\<lambda>current.
     if lock = current then Ok () else Err StaleLock)"

definition validate_requested :: "feature_lock \<Rightarrow> feature_request list \<Rightarrow> (unit, feature_error) result" where
  "validate_requested lock requests =
     (if requested_map requests = lock_requested lock then Ok () else Err StaleLock)"

section \<open>Records of a lock\<close>

definition record_ok :: "locked_feature \<Rightarrow> bool" where
  "record_ok r \<longleftrightarrow> locked_version r \<noteq> [] \<and> locked_resolved r \<noteq> [] \<and> validate_sha256 (locked_integrity r) = Ok ()"

lemma validate_record_Ok [simp]: "validate_record r = Ok u \<longleftrightarrow> record_ok r"
  by (auto simp: validate_record_def record_ok_def split: if_splits)

lemma validate_structure_Ok:
  "validate_structure lock = Ok () \<longleftrightarrow> lock_version lock = FEATURE_LOCK_VERSION \<and>
    (\<forall>(k, r) \<in> set (lock_features lock). record_ok r)"
proof -
  have "(\<exists>us. collect_results (\<lambda>(_, r). validate_record r) kvs = Ok us) \<longleftrightarrow> (\<forall>(k, r) \<in> set kvs. record_ok r)"
    for kvs :: "(string, locked_feature) btree"
    by (induction kvs) auto
  then show ?thesis by (simp add: validate_structure_def)
qed

lemma lock_entry_Ok:
  assumes "lock_entry packages f = Ok (k, r)"
  obtains p integrity where "bt_get packages (resolved_reference f) = Some p" "package_integrity p = Some integrity"
    "k = ref_text (resolved_reference f)" "record_ok r" "locked_version r = feature_version (resolved_metadata f)"
    "locked_resolved r = pinned_reference p" "locked_integrity r = integrity" "locked_options r = resolved_options f"
  using assms unfolding lock_entry_def LockedFeature_new_def record_ok_def
  by (auto elim!: and_then_OkE split: if_splits)

lemma from_resolution_ok:
  assumes "FeatureLock_from_resolution requests resolution packages = Ok lock"
  shows "validate_structure lock = Ok ()" and "lock_requested lock = requested_map requests"
proof -
  from assms obtain entries where e: "collect_results (lock_entry packages) resolution = Ok entries"
    and l: "lock = \<lparr>lock_version = FEATURE_LOCK_VERSION, lock_requested = requested_map requests,
         lock_features = bt_of entries\<rparr>"
    by (auto simp: FeatureLock_from_resolution_def)
  have "record_ok r" if "(k, r) \<in> set entries" for k r
    using collect_results_member [OF e that] by (auto elim: lock_entry_Ok)
  then show "validate_structure lock = Ok ()"
    by (auto simp: l validate_structure_Ok dest!: set_bt_of [THEN subsetD])
  show "lock_requested lock = requested_map requests" by (simp add: l)
qed

section \<open>A resolution can always be locked\<close>

definition in_catalog :: "catalog \<Rightarrow> graph \<Rightarrow> bool" where
  "in_catalog packages nodes \<longleftrightarrow>
     (\<forall>(k, n) \<in> set nodes. bt_get packages (package_reference (node_package n)) = Some (node_package n))"

lemma in_catalog_add [simp]: "in_catalog packages (add_dependency parent i nodes) \<longleftrightarrow> in_catalog packages nodes"
  by (cases parent) (auto simp: in_catalog_def add_dependency_def split_beta split: if_splits)

lemma expand_catalog:
  "in_catalog packages nodes \<Longrightarrow> expand packages pending nodes = Ok nodes' \<Longrightarrow> in_catalog packages nodes'"
proof (induction packages pending nodes rule: expand.induct)
  case (2 packages item pending nodes)
  from "2.prems"(2) obtain p where p: "bt_get packages (pending_reference item) = Some p"
    "package_reference p = pending_reference item" by (auto split: option.splits if_splits)
  with "2.prems"(2) obtain eff where
    eff: "validate_options (package_metadata p) (pending_options item) (pending_path item) = Ok eff"
    by (auto split: result.splits)
  let ?i = "package_identity p"
  show ?case
  proof (cases "bt_get nodes ?i")
    case (Some n)
    with "2.prems"(2) p eff have n: "node_options n = eff"
      and rec: "expand packages pending (add_dependency (pending_parent item) ?i nodes) = Ok nodes'"
      by (auto simp: Let_def split: if_splits)
    with "2.IH"(2) [OF p(1) _ eff refl Some] p(2) "2.prems"(1) show ?thesis by simp
  next
    case None
    from "2.prems"(2) p eff None have rec: "expand packages (pending @ dependency_pending p item)
        (add_dependency (pending_parent item) ?i (bt_insert ?i (new_node p eff item) nodes)) = Ok nodes'"
      by (auto simp: Let_def)
    have "in_catalog packages (bt_insert ?i (new_node p eff item) nodes)"
      using "2.prems"(1) p set_bt_insert [of ?i "new_node p eff item" nodes]
      by (fastforce simp: in_catalog_def new_node_def)
    with "2.IH"(1) [OF p(1) _ eff refl None] rec p(2) show ?thesis by simp
  qed
qed simp

lemma resolution_in_catalog:
  assumes "resolve_features url_parse requests packages overrides = Some (Ok out)" and "f \<in> set out"
  shows "\<exists>p. bt_get packages (resolved_reference f) = Some p \<and> package_reference p = resolved_reference f \<and>
    package_metadata p = resolved_metadata f"
proof -
  from assms(1) obtain nodes nodes' where ex: "expand packages (map root_pending requests) [] = Ok nodes"
    and pr: "apply_priorities (apply_soft_edges url_parse nodes) overrides = Ok nodes'"
    and rs: "round_sort nodes' = Some (Ok out)"
    by (auto simp: resolve_features_def split: result.splits)
  note g = resolve_graph [OF ex pr]
  have "rounds_ok nodes' (round_sort nodes')" using g(4,3) by (rule round_sort_ok)
  with rs assms(2) obtain kn where kn: "kn \<in> set nodes'" "f = resolved kn" by (auto simp: rounds_ok_def)
  have "bt_get nodes' (fst kn) = Some (snd kn)"
    using kn(1) by (intro map_of_is_SomeI [OF bt_ok_distinct [OF g(3)]]) simp
  with g(2) obtain n where n: "bt_get nodes (fst kn) = Some n" "node_package (snd kn) = node_package n"
    by (rule refinedD)
  have "in_catalog packages nodes" using ex by (rule expand_catalog [rotated]) (simp add: in_catalog_def)
  with map_of_SomeD [OF n(1)] have "bt_get packages (package_reference (node_package n)) = Some (node_package n)"
    by (auto simp: in_catalog_def)
  then show ?thesis by (simp add: kn(2) resolved_def split_beta n(2))
qed

definition lockable :: "feature_package \<Rightarrow> bool" where
  "lockable p \<longleftrightarrow> (\<exists>i. package_integrity p = Some i \<and> validate_sha256 i = Ok ()) \<and>
     feature_version (package_metadata p) \<noteq> [] \<and> ref_text (package_reference p) \<noteq> []"

lemma lock_entry_total:
  assumes "bt_get packages (resolved_reference f) = Some p" "package_reference p = resolved_reference f"
    "package_metadata p = resolved_metadata f" "lockable p"
  shows "\<exists>r. lock_entry packages f = Ok (ref_text (resolved_reference f), r)"
  using assms
  by (auto simp: lock_entry_def lockable_def LockedFeature_new_def pinned_reference_def split: option.splits)

lemma collect_results_total: "\<forall>x \<in> set xs. \<exists>y. f x = Ok y \<Longrightarrow> \<exists>ys. collect_results f xs = Ok ys"
  by (induction xs) auto

lemma lock_entries_keys:
  "collect_results (lock_entry packages) out = Ok entries \<Longrightarrow>
    map fst entries = map (\<lambda>f. ref_text (resolved_reference f)) out"
proof (induction out arbitrary: entries)
  case (Cons f out)
  then obtain k r rest where "lock_entry packages f = Ok (k, r)" "collect_results (lock_entry packages) out = Ok rest"
    "entries = (k, r) # rest" by auto
  moreover from this(1) have "k = ref_text (resolved_reference f)" by (rule lock_entry_Ok)
  ultimately show ?case using Cons.IH by simp
qed simp

lemma bt_keys_insert: "map fst m = map fst n \<Longrightarrow> map fst (bt_insert k v m) = map fst (bt_insert k w n)"
proof (induction m arbitrary: n)
  case (Cons kv m)
  then show ?case by (cases n; cases kv) auto
qed simp

lemma bt_keys_bt_of: "map fst kvs = map fst lvs \<Longrightarrow> bt_keys (bt_of kvs) = bt_keys (bt_of lvs)"
proof -
  have "map fst (insert_all bt_insert kvs m) = map fst (insert_all bt_insert lvs n)"
    if "map fst kvs = map fst lvs" "map fst m = map fst n" for m :: "('a, 'b) btree" and n :: "('a, 'c) btree"
    using that
  proof (induction kvs arbitrary: lvs m n)
    case (Cons kv kvs)
    then obtain k v w lvs' where "kv = (k, v)" "lvs = (k, w) # lvs'" by (cases kv; cases lvs) auto
    with Cons show ?case by (auto intro!: Cons.IH bt_keys_insert)
  qed simp
  from this [of "[]" "[]"] show "map fst kvs = map fst lvs \<Longrightarrow> bt_keys (bt_of kvs) = bt_keys (bt_of lvs)" by simp
qed

text \<open>C36: a resolution over a catalog of verified packages can always be locked. The lock survives writing and
  reading, is the only one that the frozen check accepts for this resolution, and matches its
  root requests.\<close>

theorem feature_lock_freezes:
  assumes "resolve_features url_parse requests packages overrides = Some (Ok out)"
    and "\<forall>(r, p) \<in> set packages. lockable p"
    and "\<forall>l. FeatureLock_from_resolution requests out packages = Ok l \<longrightarrow>
      (\<exists>bytes. to_vec_pretty l = Some bytes \<and> from_slice (bytes @ [CHR 0x0A]) = Some l)"
  shows "\<exists>lock bytes. FeatureLock_from_resolution requests out packages = Ok lock \<and>
    bt_keys (lock_features lock) = bt_keys (bt_of (map (\<lambda>f. (ref_text (resolved_reference f), ())) out)) \<and>
    to_json_bytes to_vec_pretty lock = Ok bytes \<and> FeatureLock_parse from_slice bytes = Ok lock \<and>
    validate_requested lock requests = Ok () \<and>
    (\<forall>l. validate_frozen l requests out packages = Ok () \<longleftrightarrow> l = lock)"
proof -
  have "\<exists>r. lock_entry packages f = Ok (ref_text (resolved_reference f), r)" if f: "f \<in> set out" for f
  proof -
    from resolution_in_catalog [OF assms(1) f] obtain p where p: "bt_get packages (resolved_reference f) = Some p"
      "package_reference p = resolved_reference f" "package_metadata p = resolved_metadata f" by blast
    moreover have "lockable p" using assms(2) map_of_SomeD [OF p(1)] by blast
    ultimately show ?thesis by (rule lock_entry_total)
  qed
  then obtain entries where e: "collect_results (lock_entry packages) out = Ok entries"
    using collect_results_total [of out "lock_entry packages"] by blast
  then obtain lock where lock: "FeatureLock_from_resolution requests out packages = Ok lock"
    "lock_features lock = bt_of entries" by (auto simp: FeatureLock_from_resolution_def)
  note ok = from_resolution_ok [OF lock(1)]
  obtain bytes where bytes: "to_vec_pretty lock = Some bytes" "from_slice (bytes @ [CHR 0x0A]) = Some lock"
    using assms(3) lock(1) by blast
  have "map fst entries = map (\<lambda>f. ref_text (resolved_reference f)) out"
    using e by (rule lock_entries_keys)
  then have "bt_keys (bt_of entries) = bt_keys (bt_of (map (\<lambda>f. (ref_text (resolved_reference f), ())) out))"
    by (intro bt_keys_bt_of) simp
  with lock ok bytes show ?thesis
    by (intro exI [of _ lock] exI [of _ "bytes @ [CHR 0x0A]"])
      (auto simp: to_json_bytes_def FeatureLock_parse_def validate_requested_def validate_frozen_def)
qed

definition verified_package :: feature_package where
  "verified_package = (sample_package ''./a'' [])\<lparr>package_integrity := Some (''sha256:'' @ replicate 64 (CHR ''a''))\<rparr>"

definition verified_node :: node where
  "verified_node = \<lparr>node_package = verified_package, node_options = [], explicit_options = [], dependencies = [],
     first_path = [LocalReference ''./a''], priority = 0\<rparr>"

definition verified_lock :: feature_lock where
  "verified_lock = \<lparr>lock_version = 1, lock_requested = [(''./a'', [])], lock_features = [(''./a'',
     \<lparr>locked_version = feature_version sample_metadata, locked_resolved = ''./a'',
       locked_integrity = ''sha256:'' @ replicate 64 (CHR ''a''), locked_options = [], locked_depends_on = []\<rparr>)]\<rparr>"

lemma verified_resolution:
  "resolve_features (\<lambda>_. Err []) [sample_request] [(LocalReference ''./a'', verified_package)] [] =
    Some (Ok [resolved (LocalIdentity ''./a'', verified_node)])"
proof -
  let ?graph = "[(LocalIdentity ''./a'', verified_node)]"
  have "expand [(LocalReference ''./a'', verified_package)] [root_pending sample_request] [] = Ok ?graph"
    by (simp add: root_pending_def sample_request_def verified_package_def sample_package_def verified_node_def
      validate_options_def sample_metadata_def new_node_def dependency_pending_def add_dependency_def)
  moreover have "apply_soft_edges (\<lambda>_. Err []) ?graph = ?graph"
    by (simp add: apply_soft_edges_def verified_node_def verified_package_def sample_package_def sample_metadata_def)
  moreover have "round_sort ?graph = Some (Ok [resolved (LocalIdentity ''./a'', verified_node)])"
  proof -
    have ready: "round_ready ?graph [] = ?graph" by (simp add: round_ready_def verified_node_def)
    have chosen: "round_chosen ?graph = ?graph" by (simp add: round_chosen_def)
    have "round_loop ?graph [] [] = round_loop [] [LocalIdentity ''./a''] [resolved (LocalIdentity ''./a'', verified_node)]"
      using round_loop_next [of ?graph "[]" ?graph "[]"] unfolding ready chosen
      by (simp add: insort_insert_key_def)
    then show ?thesis by (simp add: round_sort_def round_loop_end)
  qed
  ultimately show ?thesis
    by (simp add: resolve_features_def apply_priorities_def del: expand.simps)
qed

lemma verified_sha256: "validate_sha256 (''sha256:'' @ replicate 64 (CHR ''a'')) = Ok ()"
  by (simp add: validate_sha256_def strip_prefix_def list_all_iff is_sha256_hex_def)

lemma verified_entry:
  "FeatureLock_from_resolution [sample_request] [resolved (LocalIdentity ''./a'', verified_node)]
    [(LocalReference ''./a'', verified_package)] = Ok verified_lock"
  using verified_sha256
  by (simp add: FeatureLock_from_resolution_def lock_entry_def resolved_def verified_node_def verified_package_def
    sample_package_def LockedFeature_new_def sample_metadata_def requested_map_def sample_request_def
    verified_lock_def FEATURE_LOCK_VERSION_def pinned_reference_def)

theorem feature_lock_freezes_witness:
  "FeatureLock_parse (\<lambda>_. Some verified_lock) [CHR 0x0A] = Ok verified_lock \<and>
   validate_frozen verified_lock [sample_request] [resolved (LocalIdentity ''./a'', verified_node)]
     [(LocalReference ''./a'', verified_package)] = Ok ()"
proof -
  have verified: "\<forall>(r, p) \<in> set [(LocalReference ''./a'', verified_package)]. lockable p"
    using verified_sha256 by (simp add: lockable_def verified_package_def sample_package_def sample_metadata_def)
  have codec: "\<forall>l. FeatureLock_from_resolution [sample_request] [resolved (LocalIdentity ''./a'', verified_node)]
      [(LocalReference ''./a'', verified_package)] = Ok l \<longrightarrow>
      (\<exists>bytes. Some [] = Some bytes \<and> Some verified_lock = Some l)"
    unfolding verified_entry by simp
  obtain lock bytes where lock: "FeatureLock_from_resolution [sample_request]
      [resolved (LocalIdentity ''./a'', verified_node)] [(LocalReference ''./a'', verified_package)] = Ok lock"
    "to_json_bytes (\<lambda>_. Some []) lock = Ok bytes" "FeatureLock_parse (\<lambda>_. Some verified_lock) bytes = Ok lock"
    "\<forall>l. validate_frozen l [sample_request] [resolved (LocalIdentity ''./a'', verified_node)]
      [(LocalReference ''./a'', verified_package)] = Ok () \<longleftrightarrow> l = lock"
    using feature_lock_freezes [OF verified_resolution verified codec] by (elim exE conjE) (rule that)
  from lock(1) have "lock = verified_lock" unfolding verified_entry by simp
  moreover from lock(2) have "bytes = [CHR 0x0A]" by (auto simp: to_json_bytes_def)
  ultimately show ?thesis using lock(3,4) by blast
qed

end
