(* ===== verification/Container_Paths.thy ===== *)
theory Container_Paths
  imports Prelude
begin

text \<open>
  The absolute paths of \<^verbatim>\<open>crates/cdenv-devcontainer/src/planning.rs\<close>: their normalization and the textual
  containment test. A normalized path is \<open>abs_path\<close> of its list of components, on which
  containment is the prefix order.
\<close>

section \<open>Paths\<close>

datatype path_validation_error = NotAbsolute | Traversal | PathControlCharacter | RootTarget

datatype container_path = ContainerPath (container_path_text: string)

datatype host_mount_source = HostMountSource (host_path_text: string)

fun absolute_components :: "string list \<Rightarrow> (string list, path_validation_error) result" where
  "absolute_components [] = Ok []"
| "absolute_components (c # cs) =
     (if c = [] \<or> c = ''.'' then absolute_components cs
      else if c = ''..'' then Err Traversal
      else map_ok (\<lambda>ds. c # ds) (absolute_components cs))"

definition normalize_absolute :: "string \<Rightarrow> bool \<Rightarrow> (string, path_validation_error) result" where
  "normalize_absolute v allow_root =
     (if \<not> prefix ''/'' v then Err NotAbsolute
      else if list_ex is_control (chars v) then Err PathControlCharacter
      else and_then (absolute_components (split_on (CHR ''/'') v)) (\<lambda>cs.
        if cs = [] \<and> \<not> allow_root then Err RootTarget else Ok (''/'' @ join ''/'' cs)))"

definition ContainerPath_parse :: "string \<Rightarrow> (container_path, path_validation_error) result" where
  "ContainerPath_parse v = map_ok ContainerPath (normalize_absolute v False)"

definition HostMountSource_parse :: "string \<Rightarrow> (host_mount_source, path_validation_error) result" where
  "HostMountSource_parse v = map_ok HostMountSource (normalize_absolute v True)"

definition path_contains :: "string \<Rightarrow> string \<Rightarrow> bool" where
  "path_contains parent child \<longleftrightarrow> parent = child \<or>
     prefix parent child \<and>
       (parent = ''/'' \<or> length parent < length child \<and> child ! length parent = CHR ''/'')"

definition ContainerPath_overlaps :: "container_path \<Rightarrow> container_path \<Rightarrow> bool" where
  "ContainerPath_overlaps p q \<longleftrightarrow>
     path_contains (container_path_text p) (container_path_text q) \<or>
     path_contains (container_path_text q) (container_path_text p)"

section \<open>Paths as component lists\<close>

definition plain_part :: "string \<Rightarrow> bool" where
  "plain_part c \<longleftrightarrow> c \<noteq> [] \<and> c \<noteq> ''.'' \<and> c \<noteq> ''..'' \<and> CHR ''/'' \<notin> set c"

definition abs_path :: "string list \<Rightarrow> string" where
  "abs_path cs = ''/'' @ join ''/'' cs"

lemma absolute_components_Ok:
  "absolute_components cs = Ok ds \<Longrightarrow> \<forall>c \<in> set cs. CHR ''/'' \<notin> set c \<Longrightarrow> list_all plain_part ds"
  by (induction cs arbitrary: ds) (auto simp: plain_part_def split: if_splits)

lemma absolute_components_id: "list_all plain_part cs \<Longrightarrow> absolute_components cs = Ok cs"
  by (induction cs) (auto simp: plain_part_def)

lemma normalize_absolute_Ok:
  assumes "normalize_absolute v allow_root = Ok t"
  obtains cs where "t = abs_path cs" "list_all plain_part cs" "cs = [] \<Longrightarrow> allow_root"
proof -
  from assms obtain cs where cs: "absolute_components (split_on (CHR ''/'') v) = Ok cs"
    "t = abs_path cs" "cs = [] \<Longrightarrow> allow_root"
    by (auto simp: normalize_absolute_def abs_path_def split: if_splits elim!: and_then_OkE)
  with absolute_components_Ok [OF cs(1)] split_on_pieces show ?thesis by (intro that) blast+
qed

lemma split_abs_path:
  assumes "list_all plain_part cs"
  shows "split_on (CHR ''/'') (abs_path cs) = [] # (if cs = [] then [[]] else cs)"
proof -
  have "split_on (CHR ''/'') (join ''/'' cs) = cs" if "cs \<noteq> []"
    using assms that by (intro split_on_join) (auto simp: plain_part_def list_all_iff)
  then show ?thesis by (simp add: abs_path_def)
qed

lemma normalize_absolute_fixed:
  assumes "list_all plain_part cs" and "normalize_absolute (abs_path cs) allow_root = Ok t"
  shows "t = abs_path cs"
proof -
  have "absolute_components (split_on (CHR ''/'') (abs_path cs)) = Ok cs"
    using assms(1) by (simp add: split_abs_path absolute_components_id)
  with assms(2) show ?thesis
    by (auto simp: normalize_absolute_def abs_path_def split: if_splits elim!: and_then_OkE)
qed

lemma join_append:
  "xs \<noteq> [] \<Longrightarrow> ys \<noteq> [] \<Longrightarrow> join sep (xs @ ys) = join sep xs @ sep @ join sep ys"
proof (induction sep xs rule: join.induct)
  case (2 sep w)
  then show ?case by (cases ys) simp_all
qed simp_all

text \<open>The textual containment test decides the order of component lists.\<close>

lemma abs_path_inj:
  assumes "list_all plain_part ps" "list_all plain_part cs" and "abs_path ps = abs_path cs"
  shows "ps = cs"
proof -
  have "[] # (if ps = [] then [[]] else ps) = [] # (if cs = [] then [[]] else cs)"
    using assms(3) split_abs_path [OF assms(1)] split_abs_path [OF assms(2)] by simp
  then show ?thesis using assms(1,2) by (cases "ps = []"; cases "cs = []") (auto simp: plain_part_def)
qed

lemma abs_path_append:
  "ps \<noteq> [] \<Longrightarrow> ds \<noteq> [] \<Longrightarrow> abs_path (ps @ ds) = abs_path ps @ CHR ''/'' # join ''/'' ds"
  by (simp add: abs_path_def join_append)

lemma abs_path_root: "list_all plain_part ps \<Longrightarrow> abs_path ps = ''/'' \<longleftrightarrow> ps = []"
  using abs_path_inj [of ps "[]"] by (auto simp: abs_path_def)

lemma abs_path_below:
  assumes "list_all plain_part ps" "list_all plain_part cs" "ps \<noteq> []"
    and "abs_path cs = abs_path ps @ CHR ''/'' # q"
  shows "prefix ps cs"
proof -
  have "[] # (if cs = [] then [[]] else cs) = [] # ps @ split_on (CHR ''/'') q"
    using arg_cong [OF assms(4), of "split_on (CHR ''/'')"] assms(3)
    by (simp add: split_on_concat split_abs_path assms(1,2))
  moreover have "[] \<notin> set ps" using assms(1) by (auto simp: plain_part_def list_all_iff)
  ultimately show ?thesis using assms(3) by (cases "cs = []"; cases ps) (auto simp: prefix_def)
qed

lemma path_contains_prefix:
  assumes "list_all plain_part ps" "list_all plain_part cs"
  shows "path_contains (abs_path ps) (abs_path cs) \<longleftrightarrow> prefix ps cs"
proof
  assume "prefix ps cs"
  then obtain ds where ds: "cs = ps @ ds" by (auto simp: prefix_def)
  show "path_contains (abs_path ps) (abs_path cs)"
  proof (cases "ps = [] \<or> ds = []")
    case True
    then show ?thesis using ds by (elim disjE) (simp_all add: path_contains_def abs_path_def)
  next
    case False
    then show ?thesis by (simp add: path_contains_def ds abs_path_append)
  qed
next
  assume contains: "path_contains (abs_path ps) (abs_path cs)"
  show "prefix ps cs"
  proof (cases "ps = [] \<or> abs_path ps = abs_path cs")
    case True
    then show ?thesis using abs_path_inj [OF assms] by auto
  next
    case False
    then obtain r where r: "abs_path cs = abs_path ps @ r" "r \<noteq> []" "(abs_path ps @ r) ! length (abs_path ps) = CHR ''/''"
      using contains abs_path_root [OF assms(1)] by (auto simp: path_contains_def prefix_def)
    then obtain q where "abs_path cs = abs_path ps @ CHR ''/'' # q" by (cases r) simp_all
    then show ?thesis using abs_path_below [OF assms] False by blast
  qed
qed

text \<open>The components of a path text, and the texts that are normalized.\<close>

definition path_parts :: "string \<Rightarrow> string list" where
  "path_parts t = filter (\<lambda>c. c \<noteq> []) (split_on (CHR ''/'') t)"

definition wf_path :: "string \<Rightarrow> bool" where
  "wf_path t \<longleftrightarrow> list_all plain_part (path_parts t) \<and> t = abs_path (path_parts t)"

lemma path_parts_abs [simp]:
  assumes "list_all plain_part cs"
  shows "path_parts (abs_path cs) = cs"
proof -
  have "filter (\<lambda>c. c \<noteq> []) cs = cs" using assms by (auto simp: filter_id_conv list_all_iff plain_part_def)
  then show ?thesis by (simp add: path_parts_def split_abs_path [OF assms])
qed

lemma wf_path_abs: "list_all plain_part cs \<Longrightarrow> wf_path (abs_path cs)"
  by (simp add: wf_path_def)

lemma wf_path_contains: "wf_path p \<Longrightarrow> wf_path c \<Longrightarrow> path_contains p c \<longleftrightarrow> prefix (path_parts p) (path_parts c)"
  using path_contains_prefix [of "path_parts p" "path_parts c"] by (simp add: wf_path_def)

lemma ContainerPath_parse_Ok:
  assumes "ContainerPath_parse v = Ok p"
  shows "wf_path (container_path_text p) \<and> path_parts (container_path_text p) \<noteq> []"
  using assms by (auto simp: ContainerPath_parse_def wf_path_abs elim!: normalize_absolute_Ok)

lemma HostMountSource_parse_Ok:
  assumes "HostMountSource_parse v = Ok p"
  shows "wf_path (host_path_text p)"
  using assms by (auto simp: HostMountSource_parse_def wf_path_abs elim!: normalize_absolute_Ok)

lemma HostMountSource_parse_fixed:
  assumes "wf_path v" and "HostMountSource_parse v = Ok p"
  shows "host_path_text p = v"
  using assms normalize_absolute_fixed [of "path_parts v" True]
  by (auto simp: HostMountSource_parse_def wf_path_def)

lemma overlaps_parts:
  assumes "wf_path (container_path_text p)" "wf_path (container_path_text q)"
  shows "ContainerPath_overlaps p q \<longleftrightarrow>
    prefix (path_parts (container_path_text p)) (path_parts (container_path_text q)) \<or>
    prefix (path_parts (container_path_text q)) (path_parts (container_path_text p))"
  using assms by (simp add: ContainerPath_overlaps_def wf_path_contains)

end
