(* ===== verification/Planning.thy ===== *)
theory Planning
  imports Container_Paths Metadata Substitution
begin

text \<open>
  \<^verbatim>\<open>crates/cdenv-devcontainer/src/planning.rs\<close>: the plan of the workspace, the mounts, the users and the
  environment of a container, from the repository profile and the merged metadata. Paths are
  compared as text by the code and as lists of components by the lemmas. SHA-256 and the JSON
  form of the identity labels are the parameters of the substitution.
\<close>

section \<open>Users\<close>

record host_user_identity =
  host_uid :: "32 word"
  host_gid :: "32 word"

datatype container_identity = ContainerIdentity (user_text: string)

definition ContainerUser_parse :: "string \<Rightarrow> container_identity option" where
  "ContainerUser_parse v =
     (if v = [] \<or> list_ex (\<lambda>c. is_control c \<or> is_whitespace c \<or> c = 44) (chars v) \<or>
         [] \<in> set (split_on (CHR '':'') v) \<or> 1 < count_list v (CHR '':'')
      then None else Some (ContainerIdentity v))"

definition user_account :: "container_identity \<Rightarrow> string" where
  "user_account u = hd (split_on (CHR '':'') (user_text u))"

definition is_root :: "container_identity \<Rightarrow> bool" where
  "is_root u \<longleftrightarrow> user_account u = ''root'' \<or> user_account u = ''0''"

definition is_numeric :: "container_identity \<Rightarrow> bool" where
  "is_numeric u \<longleftrightarrow> all_bytes is_ascii_digit (user_account u)"

datatype uid_update_skip_reason = Disabled | HostIdentityUnknown | RootUser | NumericUser

datatype uid_update_intent =
    NoUidUpdate uid_update_skip_reason
  | UpdateNamedUser container_identity host_user_identity

definition uid_update_intent_of ::
    "bool \<Rightarrow> container_identity \<Rightarrow> host_user_identity option \<Rightarrow> uid_update_intent" where
  "uid_update_intent_of enabled u host =
     (if \<not> enabled then NoUidUpdate Disabled
      else if is_root u then NoUidUpdate RootUser
      else if is_numeric u then NoUidUpdate NumericUser
      else (case host of Some h \<Rightarrow> UpdateNamedUser u h | None \<Rightarrow> NoUidUpdate HostIdentityUnknown))"

section \<open>Errors and inputs\<close>

datatype planning_error_kind =
    InvalidPath | InvalidMount | MountConflict | WorkspaceContainment | OwnedTargetConflict
  | InvalidUser | InvalidEnvironmentName | SubstitutionFailure | InvalidRuntimeSetting

record planning_error =
  plan_error_path :: string
  plan_error_kind :: planning_error_kind
  plan_error_message :: string

definition plan_error :: "string \<Rightarrow> planning_error_kind \<Rightarrow> string \<Rightarrow> planning_error" where
  "plan_error p k m = \<lparr>plan_error_path = p, plan_error_kind = k, plan_error_message = m\<rparr>"

record mount_option =
  mount_option_name :: string
  mount_option_value :: "string option"

record planned_mount =
  planned_kind :: mount_kind
  planned_source :: "string option"
  planned_target :: container_path
  planned_options :: "mount_option list"

record workspace_plan =
  workspace_folder_path :: container_path
  workspace_mount :: planned_mount

record environment_plan =
  plan_container_env :: "(string, string) btree"
  plan_remote_env :: "(string, deferred_string option) btree"

record runtime_planning_inputs =
  input_local_folder :: string
  input_local_env :: "(string, string) btree"
  input_labels :: stable_identity_labels
  scenario_container_user :: "string option"
  cdenv_owned_targets :: "container_path list"
  input_host_user :: "host_user_identity option"

record runtime_plan =
  plan_workspace :: workspace_plan
  plan_mounts :: "planned_mount list"
  plan_container_user :: container_identity
  plan_remote_user :: container_identity
  plan_uid_update :: uid_update_intent
  plan_environment :: environment_plan
  plan_user_env_probe :: user_env_probe
  plan_override_command :: bool
  plan_init :: bool
  plan_privileged :: bool
  plan_cap_add :: "string list"
  plan_security_opt :: "string list"

type_synonym labels_json = "(string, string) btree \<Rightarrow> 8 word list option"
type_synonym digest = "8 word list \<Rightarrow> 8 word list"

definition substitution_failed :: "string \<Rightarrow> planning_error" where
  "substitution_failed p = plan_error p SubstitutionFailure ''unsupported or malformed substitution''"

definition immediate_substitution ::
    "labels_json \<Rightarrow> digest \<Rightarrow> string \<Rightarrow> substitution_property \<Rightarrow> string \<Rightarrow> host_substitution_inputs \<Rightarrow>
      (string, planning_error) result" where
  "immediate_substitution to_json sha256 path p v ctx =
     map_err (\<lambda>_. substitution_failed path)
       (map_ok (\<lambda>d. DeferredString_resolve d []) (substitute_host to_json sha256 p v ctx))"

section \<open>Mounts\<close>

definition volume_name_ok :: "string \<Rightarrow> bool" where
  "volume_name_ok v \<longleftrightarrow> v \<noteq> [] \<and> is_ascii_alphanumeric (byte (hd v)) \<and>
     list_all (\<lambda>c. is_ascii_alphanumeric (byte c) \<or> c \<in> {CHR ''_'', CHR ''.'', CHR ''-''}) v"

definition normalize_source :: "mount_kind \<Rightarrow> string option \<Rightarrow> string \<Rightarrow> (string option, planning_error) result" where
  "normalize_source kind source path =
     (if kind = Bind then
        (case source of
           None \<Rightarrow> Err (plan_error path InvalidMount ''bind mount requires a source'')
         | Some v \<Rightarrow>
             (case HostMountSource_parse v of
                Err _ \<Rightarrow> Err (plan_error path InvalidPath
                  ''bind source must be an absolute traversal-free host path'')
              | Ok h \<Rightarrow> Ok (Some (host_path_text h))))
      else if is_some_and source (\<lambda>v. \<not> volume_name_ok v) then
        Err (plan_error path InvalidMount ''volume source must be a safe Docker volume name'')
      else Ok source)"

definition normalize_mount ::
    "mount_kind \<Rightarrow> string option \<Rightarrow> string \<Rightarrow> mount_option list \<Rightarrow> string \<Rightarrow>
      (planned_mount, planning_error) result" where
  "normalize_mount kind source target options path =
     and_then (normalize_source kind source path) (\<lambda>s.
     (case ContainerPath_parse target of
        Err _ \<Rightarrow> Err (plan_error path InvalidPath
          ''mount target must be an absolute traversal-free container path'')
      | Ok t \<Rightarrow> Ok \<lparr>planned_kind = kind, planned_source = s, planned_target = t,
          planned_options = options\<rparr>))"

text \<open>The variables of the loop over the fields of a mount.\<close>

record mount_fields =
  field_kind :: "mount_kind option"
  field_source :: "string option"
  field_target :: "string option"
  field_options :: "mount_option list"

definition set_once ::
    "string option \<Rightarrow> string option \<Rightarrow> string \<Rightarrow> string \<Rightarrow> (string option, planning_error) result" where
  "set_once out v path message =
     (case v of
        None \<Rightarrow> Err (plan_error path InvalidMount ''mount field requires a value'')
      | Some t \<Rightarrow> if out \<noteq> None then Err (plan_error path InvalidMount message) else Ok (Some t))"

definition mount_field :: "string \<Rightarrow> string \<Rightarrow> mount_fields \<Rightarrow> (mount_fields, planning_error) result" where
  "mount_field path field st =
     (let (name, v) = (case split_once (CHR ''='') field of
            None \<Rightarrow> (field, None) | Some (n, t) \<Rightarrow> (n, Some t));
          name = trim name; v = map_option trim v
      in if name = [] \<or> v = Some [] then
           Err (plan_error path InvalidMount ''mount contains an empty option'')
         else if name = ''type'' then
           (if field_kind st \<noteq> None then Err (plan_error path InvalidMount ''mount type is duplicated'')
            else if v = Some ''bind'' then Ok (st\<lparr>field_kind := Some Bind\<rparr>)
            else if v = Some ''volume'' then Ok (st\<lparr>field_kind := Some Volume\<rparr>)
            else Err (plan_error path InvalidMount ''mount type must be bind or volume''))
         else if name \<in> {''source'', ''src''} then
           map_ok (\<lambda>s. st\<lparr>field_source := s\<rparr>)
             (set_once (field_source st) v path ''mount source is duplicated'')
         else if name \<in> {''target'', ''dst'', ''destination''} then
           map_ok (\<lambda>s. st\<lparr>field_target := s\<rparr>)
             (set_once (field_target st) v path ''mount target is duplicated'')
         else Ok (st\<lparr>field_options := field_options st @
           [\<lparr>mount_option_name = name, mount_option_value = v\<rparr>]\<rparr>))"

fun mount_field_loop ::
    "string \<Rightarrow> string list \<Rightarrow> mount_fields \<Rightarrow> (mount_fields, planning_error) result" where
  "mount_field_loop path [] st = Ok st"
| "mount_field_loop path (f # fs) st = and_then (mount_field path f st) (mount_field_loop path fs)"

definition parse_string_mount ::
    "labels_json \<Rightarrow> digest \<Rightarrow> string \<Rightarrow> string \<Rightarrow> substitution_property \<Rightarrow> host_substitution_inputs \<Rightarrow>
      (planned_mount, planning_error) result" where
  "parse_string_mount to_json sha256 v path p ctx =
     and_then (immediate_substitution to_json sha256 path p v ctx) (\<lambda>t.
     and_then (mount_field_loop path (split_on (CHR '','') t)
        \<lparr>field_kind = None, field_source = None, field_target = None, field_options = []\<rparr>) (\<lambda>st.
     and_then (ok_or (plan_error path InvalidMount ''mount type is required'') (field_kind st)) (\<lambda>kind.
     and_then (ok_or (plan_error path InvalidMount ''mount target is required'') (field_target st)) (\<lambda>target.
       normalize_mount kind (field_source st) target (field_options st) path))))"

definition plan_mount ::
    "labels_json \<Rightarrow> digest \<Rightarrow> raw_mount \<Rightarrow> string \<Rightarrow> host_substitution_inputs \<Rightarrow>
      (planned_mount, planning_error) result" where
  "plan_mount to_json sha256 m path ctx =
     (case m of
        StringMount v \<Rightarrow> parse_string_mount to_json sha256 v path MountProperty ctx
      | ObjectMount kind source target \<Rightarrow>
          and_then (case source of
              None \<Rightarrow> Ok None
            | Some v \<Rightarrow> map_ok Some (immediate_substitution to_json sha256 path MountProperty v ctx))
          (\<lambda>s. and_then (immediate_substitution to_json sha256 path MountProperty target ctx)
          (\<lambda>t. normalize_mount kind s t [] path)))"

definition reject_owned_target ::
    "container_path \<Rightarrow> container_path list \<Rightarrow> string \<Rightarrow> (unit, planning_error) result" where
  "reject_owned_target target owned path =
     (if list_ex (ContainerPath_overlaps target) owned then
        Err (plan_error path OwnedTargetConflict
          ''mount target overlaps a cdenv-owned container target'')
      else Ok ())"

definition validate_workspace_mount ::
    "planned_mount \<Rightarrow> container_path \<Rightarrow> host_mount_source \<Rightarrow> (unit, planning_error) result" where
  "validate_workspace_mount m folder local_workspace =
     (if \<not> path_contains (container_path_text (planned_target m)) (container_path_text folder) then
        Err (plan_error ''$.workspaceFolder'' WorkspaceContainment
          ''workspace folder must be the workspace mount target or a child of it'')
      else if planned_kind m = Bind then
        and_then (ok_or (plan_error ''$.workspaceMount'' InvalidMount
          ''workspace bind mount requires a source'') (planned_source m)) (\<lambda>v.
        and_then (map_err (\<lambda>_. plan_error ''$.workspaceMount'' InvalidPath
          ''workspace bind source must be an absolute traversal-free host path'')
            (HostMountSource_parse v)) (\<lambda>source.
        if \<not> path_contains (host_path_text local_workspace) (host_path_text source) then
          Err (plan_error ''$.workspaceMount'' WorkspaceContainment
            ''workspace bind source must remain within the canonical local workspace'')
        else Ok ()))
      else Ok ())"

text \<open>The loop over the additional mounts; the set of seen targets holds those of the mounts so far.\<close>

fun plan_mounts_loop ::
    "labels_json \<Rightarrow> digest \<Rightarrow> host_substitution_inputs \<Rightarrow> container_path \<Rightarrow> container_path list \<Rightarrow>
      nat \<Rightarrow> raw_mount list \<Rightarrow> planned_mount list \<Rightarrow> (planned_mount list, planning_error) result" where
  "plan_mounts_loop to_json sha256 ctx workspace owned index [] planned = Ok planned"
| "plan_mounts_loop to_json sha256 ctx workspace owned index (raw # raws) planned =
     (let path = ''$.mounts['' @ nat_str index @ '']'' in
      and_then (plan_mount to_json sha256 raw path ctx) (\<lambda>m.
      if planned_target m = workspace then
        Err (plan_error path MountConflict
          ''additional mount conflicts with the authoritative workspace target'')
      else and_then (reject_owned_target (planned_target m) owned path) (\<lambda>_.
      if planned_target m \<in> planned_target ` set planned then
        Err (plan_error path MountConflict ''additional mount target is duplicated'')
      else plan_mounts_loop to_json sha256 ctx workspace owned (Suc index) raws (planned @ [m]))))"

section \<open>Environment and settings\<close>

definition environment_name_ok :: "string \<Rightarrow> bool" where
  "environment_name_ok name \<longleftrightarrow>
     list_all (\<lambda>(i, c). c = CHR ''_'' \<or> is_ascii_alphabetic (byte c) \<or> 0 < i \<and> is_ascii_digit (byte c))
       (enumerate 0 name)"

definition validate_environment_name :: "string \<Rightarrow> string \<Rightarrow> (unit, planning_error) result" where
  "validate_environment_name name path =
     (if environment_name_ok name \<and> name \<noteq> [] then Ok ()
      else Err (plan_error path InvalidEnvironmentName
        ''environment name must match [A-Za-z_][A-Za-z0-9_]*''))"

definition plan_container_entry ::
    "labels_json \<Rightarrow> digest \<Rightarrow> host_substitution_inputs \<Rightarrow> string \<times> string \<Rightarrow>
      (string \<times> string, planning_error) result" where
  "plan_container_entry to_json sha256 ctx = (\<lambda>(name, v).
     let path = ''$.containerEnv[\"'' @ name @ ''\"]'' in
     and_then (validate_environment_name name path) (\<lambda>_.
     map_ok (Pair name) (immediate_substitution to_json sha256 path ContainerEnvProperty v ctx)))"

definition plan_remote_entry ::
    "labels_json \<Rightarrow> digest \<Rightarrow> host_substitution_inputs \<Rightarrow> string \<times> string option \<Rightarrow>
      (string \<times> deferred_string option, planning_error) result" where
  "plan_remote_entry to_json sha256 ctx = (\<lambda>(name, v).
     let path = ''$.remoteEnv[\"'' @ name @ ''\"]'' in
     and_then (validate_environment_name name path) (\<lambda>_.
     case v of
       None \<Rightarrow> Ok (name, None)
     | Some t \<Rightarrow> map_err (\<lambda>_. substitution_failed path)
         (map_ok (\<lambda>d. (name, Some d)) (substitute_host to_json sha256 RemoteEnv t ctx))))"

definition plan_environment_of ::
    "labels_json \<Rightarrow> digest \<Rightarrow> effective_metadata \<Rightarrow> host_substitution_inputs \<Rightarrow>
      (environment_plan, planning_error) result" where
  "plan_environment_of to_json sha256 eff ctx =
     and_then (collect_results (plan_container_entry to_json sha256 ctx) (eff_container_env eff)) (\<lambda>cs.
     and_then (collect_results (plan_remote_entry to_json sha256 ctx) (eff_remote_env eff)) (\<lambda>rs.
     Ok \<lparr>plan_container_env = bt_of cs, plan_remote_env = bt_of rs\<rparr>))"

fun runtime_strings_from :: "nat \<Rightarrow> string list \<Rightarrow> string \<Rightarrow> (unit, planning_error) result" where
  "runtime_strings_from index [] parent = Ok ()"
| "runtime_strings_from index (v # vs) parent =
     (if v = [] \<or> list_ex is_control (chars v) then
        Err (plan_error (parent @ ''['' @ nat_str index @ '']'') InvalidRuntimeSetting
          ''runtime setting must not be empty or contain control characters'')
      else runtime_strings_from (Suc index) vs parent)"

definition validate_runtime_strings :: "string list \<Rightarrow> string \<Rightarrow> (unit, planning_error) result" where
  "validate_runtime_strings vs parent = runtime_strings_from 0 vs parent"

section \<open>The plan\<close>

definition default_folder :: "string \<Rightarrow> (string, planning_error) result" where
  "default_folder folder =
     (let name = last (split_on (CHR ''/'') (trim_end_matches (CHR ''/'') folder))
      in if name = [] then Err (plan_error ''$.workspaceFolder'' InvalidPath
           ''workspace basename must not be empty'')
         else Ok (''/workspaces/'' @ name))"

definition raw_folder :: "raw_scenario \<Rightarrow> string \<Rightarrow> string" where
  "raw_folder s dflt =
     (case s of
        ImageScenario v \<Rightarrow> option_or (opt_workspace_folder (image_options v)) dflt
      | DockerfileScenario v \<Rightarrow> option_or (opt_workspace_folder (dockerfile_options v)) dflt
      | ComposeScenario v \<Rightarrow> compose_workspace_folder v)"

definition raw_workspace_mount :: "raw_scenario \<Rightarrow> string option" where
  "raw_workspace_mount s =
     (case s of
        ImageScenario v \<Rightarrow> opt_workspace_mount (image_options v)
      | DockerfileScenario v \<Rightarrow> opt_workspace_mount (dockerfile_options v)
      | ComposeScenario _ \<Rightarrow> None)"

definition planning_context :: "runtime_planning_inputs \<Rightarrow> host_mount_source \<Rightarrow> string \<Rightarrow> host_substitution_inputs" where
  "planning_context inputs source folder = \<lparr>local_workspace_folder = host_path_text source,
     container_workspace_folder = folder, local_env = input_local_env inputs,
     identity_labels = input_labels inputs\<rparr>"

text \<open>Everything up to the substitution context: the local source and the workspace folder.\<close>

definition plan_folder ::
    "labels_json \<Rightarrow> digest \<Rightarrow> raw_profile \<Rightarrow> runtime_planning_inputs \<Rightarrow>
      (host_mount_source \<times> container_path, planning_error) result" where
  "plan_folder to_json sha256 profile inputs =
     and_then (map_err (\<lambda>_. plan_error ''$'' InvalidPath
         ''local workspace path must be absolute and traversal-free'')
       (HostMountSource_parse (input_local_folder inputs))) (\<lambda>source.
     and_then (default_folder (input_local_folder inputs)) (\<lambda>dflt.
     and_then (immediate_substitution to_json sha256 ''$.workspaceFolder'' WorkspaceFolder
         (raw_folder (scenario profile) dflt) (planning_context inputs source dflt)) (\<lambda>v.
     and_then (map_err (\<lambda>_. plan_error ''$.workspaceFolder'' InvalidPath
         ''workspace folder must be an absolute traversal-free container path'')
       (ContainerPath_parse v)) (\<lambda>folder. Ok (source, folder)))))"

definition plan_workspace_mount ::
    "labels_json \<Rightarrow> digest \<Rightarrow> raw_profile \<Rightarrow> runtime_planning_inputs \<Rightarrow> host_substitution_inputs \<Rightarrow>
      host_mount_source \<Rightarrow> container_path \<Rightarrow> (planned_mount, planning_error) result" where
  "plan_workspace_mount to_json sha256 profile inputs ctx source folder =
     and_then (case raw_workspace_mount (scenario profile) of
         Some v \<Rightarrow> parse_string_mount to_json sha256 v ''$.workspaceMount'' WorkspaceMount ctx
       | None \<Rightarrow> Ok \<lparr>planned_kind = Bind, planned_source = Some (host_path_text source),
           planned_target = folder, planned_options = []\<rparr>) (\<lambda>m.
     and_then (validate_workspace_mount m folder source) (\<lambda>_.
     and_then (reject_owned_target (planned_target m) (cdenv_owned_targets inputs) ''$.workspaceMount'') (\<lambda>_.
     Ok m)))"

definition plan_user ::
    "labels_json \<Rightarrow> digest \<Rightarrow> string \<Rightarrow> substitution_property \<Rightarrow> string \<Rightarrow> string \<Rightarrow> host_substitution_inputs \<Rightarrow>
      (container_identity, planning_error) result" where
  "plan_user to_json sha256 path p message raw ctx =
     and_then (immediate_substitution to_json sha256 path p raw ctx) (\<lambda>v.
     ok_or (plan_error path InvalidUser message) (ContainerUser_parse v))"

definition raw_container_user :: "effective_metadata \<Rightarrow> runtime_planning_inputs \<Rightarrow> string" where
  "raw_container_user eff inputs =
     (let u = (case eff_container_user eff of Some u \<Rightarrow> Some u | None \<Rightarrow> scenario_container_user inputs)
      in if u = None \<or> u = Some [] then ''root'' else the u)"

definition is_compose :: "raw_scenario \<Rightarrow> bool" where
  "is_compose s \<longleftrightarrow> (case s of ComposeScenario _ \<Rightarrow> True | _ \<Rightarrow> False)"

definition plan_runtime ::
    "labels_json \<Rightarrow> digest \<Rightarrow> raw_profile \<Rightarrow> effective_metadata \<Rightarrow> runtime_planning_inputs \<Rightarrow>
      (runtime_plan, planning_error) result" where
  "plan_runtime to_json sha256 profile eff inputs =
     and_then (plan_folder to_json sha256 profile inputs) (\<lambda>(source, folder).
     let ctx = planning_context inputs source (container_path_text folder) in
     and_then (plan_workspace_mount to_json sha256 profile inputs ctx source folder) (\<lambda>wm.
     and_then (plan_mounts_loop to_json sha256 ctx (planned_target wm) (cdenv_owned_targets inputs) 0
       (eff_mounts eff) []) (\<lambda>ms.
     and_then (plan_user to_json sha256 ''$.containerUser'' ContainerUser ''invalid effective container user''
       (raw_container_user eff inputs) ctx) (\<lambda>cu.
     and_then (plan_user to_json sha256 ''$.remoteUser'' RemoteUser ''invalid effective remote user''
       (option_or (eff_remote_user eff) (user_text cu)) ctx) (\<lambda>ru.
     and_then (plan_environment_of to_json sha256 eff ctx) (\<lambda>env.
     and_then (validate_runtime_strings (eff_cap_add eff) ''$.capAdd'') (\<lambda>_.
     and_then (validate_runtime_strings (eff_security_opt eff) ''$.securityOpt'') (\<lambda>_.
     Ok \<lparr>plan_workspace = \<lparr>workspace_folder_path = folder, workspace_mount = wm\<rparr>,
       plan_mounts = ms, plan_container_user = cu, plan_remote_user = ru,
       plan_uid_update = uid_update_intent_of (option_or (eff_update_remote_user_uid eff) True) ru
         (input_host_user inputs),
       plan_environment = env,
       plan_user_env_probe = option_or (eff_user_env_probe eff) LoginInteractiveShell,
       plan_override_command = option_or (eff_override_command eff) (\<not> is_compose (scenario profile)),
       plan_init = option_or (eff_init eff) False,
       plan_privileged = option_or (eff_privileged eff) False,
       plan_cap_add = eff_cap_add eff, plan_security_opt = eff_security_opt eff\<rparr>))))))))"

section \<open>What a plan guarantees\<close>

abbreviation target_parts :: "planned_mount \<Rightarrow> string list" where
  "target_parts m \<equiv> path_parts (container_path_text (planned_target m))"

definition mount_wf :: "planned_mount \<Rightarrow> bool" where
  "mount_wf m \<longleftrightarrow> wf_path (container_path_text (planned_target m)) \<and> target_parts m \<noteq> [] \<and>
     (planned_kind m = Bind \<longrightarrow> (\<exists>v. planned_source m = Some v \<and> wf_path v))"

lemma normalize_mount_wf:
  assumes "normalize_mount kind source target options path = Ok m"
  shows "mount_wf m"
proof -
  from assms obtain s t where st: "normalize_source kind source path = Ok s" "ContainerPath_parse target = Ok t"
    "m = \<lparr>planned_kind = kind, planned_source = s, planned_target = t, planned_options = options\<rparr>"
    by (cases "ContainerPath_parse target") (auto simp: normalize_mount_def elim!: and_then_OkE)
  moreover from st(1) have "\<exists>v. s = Some v \<and> wf_path v" if "kind = Bind"
    using that HostMountSource_parse_Ok by (auto simp: normalize_source_def split: option.splits result.splits)
  ultimately show ?thesis using ContainerPath_parse_Ok [OF st(2)] by (simp add: mount_wf_def)
qed

lemma parse_string_mount_wf: "parse_string_mount to_json sha256 v path p ctx = Ok m \<Longrightarrow> mount_wf m"
  unfolding parse_string_mount_def by (elim and_then_OkE) (rule normalize_mount_wf)

lemma plan_mount_wf: "plan_mount to_json sha256 raw path ctx = Ok m \<Longrightarrow> mount_wf m"
  by (cases raw) (auto simp: plan_mount_def elim!: and_then_OkE intro: parse_string_mount_wf normalize_mount_wf)

definition mount_free :: "container_path list \<Rightarrow> planned_mount \<Rightarrow> bool" where
  "mount_free owned m \<longleftrightarrow> mount_wf m \<and> list_all (\<lambda>w. \<not> ContainerPath_overlaps (planned_target m) w) owned"

lemma reject_owned_target_Ok [simp]:
  "reject_owned_target t owned path = Ok u \<longleftrightarrow> list_all (\<lambda>w. \<not> ContainerPath_overlaps t w) owned"
  by (auto simp: reject_owned_target_def list_all_iff list_ex_iff)

lemma plan_mounts_loop_Ok:
  "plan_mounts_loop to_json sha256 ctx ws owned index raws planned = Ok ms \<Longrightarrow>
    list_all (mount_free owned) planned \<Longrightarrow> distinct (ws # map planned_target planned) \<Longrightarrow>
    list_all (mount_free owned) ms \<and> distinct (ws # map planned_target ms) \<and>
      length ms = length planned + length raws"
proof (induction raws arbitrary: index planned)
  case Nil
  then show ?case by simp
next
  case (Cons raw raws)
  from Cons.prems(1) obtain m where m: "plan_mount to_json sha256 raw (''$.mounts['' @ nat_str index @ '']'') ctx = Ok m"
    "planned_target m \<noteq> ws" "list_all (\<lambda>w. \<not> ContainerPath_overlaps (planned_target m) w) owned"
    "planned_target m \<notin> planned_target ` set planned"
    "plan_mounts_loop to_json sha256 ctx ws owned (Suc index) raws (planned @ [m]) = Ok ms"
    by (auto simp: Let_def elim!: and_then_OkE split: if_splits)
  then have "mount_free owned m" using plan_mount_wf by (auto simp: mount_free_def)
  with Cons.IH [OF m(5)] Cons.prems(2,3) m(2,4) show ?case by auto
qed

lemma plan_workspace_mount_Ok:
  assumes "plan_workspace_mount to_json sha256 profile inputs ctx source folder = Ok m"
    and "wf_path (container_path_text folder)" "path_parts (container_path_text folder) \<noteq> []"
    and "wf_path (host_path_text source)"
  shows "mount_free (cdenv_owned_targets inputs) m"
    and "prefix (target_parts m) (path_parts (container_path_text folder))"
    and "planned_kind m = Bind \<Longrightarrow>
      \<exists>s. planned_source m = Some s \<and> prefix (path_parts (host_path_text source)) (path_parts s)"
proof -
  from assms(1) have w: "mount_wf m"
    using assms(2-4) parse_string_mount_wf
    by (auto simp: plan_workspace_mount_def mount_wf_def elim!: and_then_OkE split: option.splits)
  from assms(1) have v: "validate_workspace_mount m folder source = Ok ()"
    "list_all (\<lambda>w. \<not> ContainerPath_overlaps (planned_target m) w) (cdenv_owned_targets inputs)"
    by (auto simp: plan_workspace_mount_def elim!: and_then_OkE)
  from w v(2) show "mount_free (cdenv_owned_targets inputs) m" by (simp add: mount_free_def)
  from v(1) w assms(2) show "prefix (target_parts m) (path_parts (container_path_text folder))"
    by (auto simp: validate_workspace_mount_def mount_wf_def wf_path_contains split: if_splits)
  assume bind: "planned_kind m = Bind"
  with v(1) obtain s h where s: "planned_source m = Some s" "HostMountSource_parse s = Ok h"
    "path_contains (host_path_text source) (host_path_text h)"
    by (auto simp: validate_workspace_mount_def elim!: and_then_OkE split: if_splits)
  moreover have "wf_path s" using w bind s(1) by (simp add: mount_wf_def)
  ultimately show "\<exists>s. planned_source m = Some s \<and> prefix (path_parts (host_path_text source)) (path_parts s)"
    using HostMountSource_parse_fixed [of s h] assms(4) by (auto simp: wf_path_contains)
qed

lemma plan_folder_Ok:
  assumes "plan_folder to_json sha256 profile inputs = Ok (source, folder)"
  shows "HostMountSource_parse (input_local_folder inputs) = Ok source"
    and "wf_path (container_path_text folder)" "path_parts (container_path_text folder) \<noteq> []"
  using assms ContainerPath_parse_Ok by (auto simp: plan_folder_def elim!: and_then_OkE)

lemma plan_runtime_stages:
  assumes "plan_runtime to_json sha256 profile eff inputs = Ok plan"
  obtains source folder wm where "plan_folder to_json sha256 profile inputs = Ok (source, folder)"
    and "plan_workspace_mount to_json sha256 profile inputs
      (planning_context inputs source (container_path_text folder)) source folder = Ok wm"
    and "plan_mounts_loop to_json sha256 (planning_context inputs source (container_path_text folder))
      (planned_target wm) (cdenv_owned_targets inputs) 0 (eff_mounts eff) [] = Ok (plan_mounts plan)"
    and "plan_workspace plan = \<lparr>workspace_folder_path = folder, workspace_mount = wm\<rparr>"
  using assms unfolding plan_runtime_def Let_def by (elim and_then_OkE) (auto elim!: and_then_OkE)

lemma runtime_plan_wf:
  assumes "plan_runtime to_json sha256 profile eff inputs = Ok plan"
  shows "\<forall>m \<in> set (workspace_mount (plan_workspace plan) # plan_mounts plan). wf_path (container_path_text (planned_target m))"
proof -
  obtain source folder wm where f: "plan_folder to_json sha256 profile inputs = Ok (source, folder)"
    and wm: "plan_workspace_mount to_json sha256 profile inputs
      (planning_context inputs source (container_path_text folder)) source folder = Ok wm"
    and ms: "plan_mounts_loop to_json sha256 (planning_context inputs source (container_path_text folder))
      (planned_target wm) (cdenv_owned_targets inputs) 0 (eff_mounts eff) [] = Ok (plan_mounts plan)"
    and pl: "plan_workspace plan = \<lparr>workspace_folder_path = folder, workspace_mount = wm\<rparr>"
    using assms by (rule plan_runtime_stages)
  note folder = plan_folder_Ok [OF f]
  have "mount_free (cdenv_owned_targets inputs) wm"
    using wm folder(2,3) HostMountSource_parse_Ok [OF folder(1)] by (rule plan_workspace_mount_Ok(1))
  then show ?thesis using plan_mounts_loop_Ok [OF ms] pl by (auto simp: mount_free_def mount_wf_def list_all_iff)
qed

text \<open>C5: whatever the profile and the metadata contribute, an accepted plan mounts nothing over a container path
  that cdenv owns, gives every target once, keeps the workspace folder below the workspace mount,
  and binds as workspace nothing outside the local checkout. Containment is by path components.\<close>

theorem runtime_plan_contained:
  assumes "plan_runtime to_json sha256 profile eff inputs = Ok plan"
    and "\<forall>w \<in> set (cdenv_owned_targets inputs). wf_path (container_path_text w)"
  shows "let wm = workspace_mount (plan_workspace plan); all_mounts = wm # plan_mounts plan in
    distinct (map planned_target all_mounts) \<and> length (plan_mounts plan) = length (eff_mounts eff) \<and>
    (\<forall>m \<in> set all_mounts. mount_wf m \<and> (\<forall>w \<in> set (cdenv_owned_targets inputs).
      \<not> prefix (target_parts m) (path_parts (container_path_text w)) \<and>
      \<not> prefix (path_parts (container_path_text w)) (target_parts m))) \<and>
    prefix (target_parts wm) (path_parts (container_path_text (workspace_folder_path (plan_workspace plan)))) \<and>
    (planned_kind wm = Bind \<longrightarrow> (\<exists>s local. planned_source wm = Some s \<and>
      HostMountSource_parse (input_local_folder inputs) = Ok local \<and>
      prefix (path_parts (host_path_text local)) (path_parts s)))"
proof -
  obtain source folder wm where f: "plan_folder to_json sha256 profile inputs = Ok (source, folder)"
    and wm: "plan_workspace_mount to_json sha256 profile inputs
      (planning_context inputs source (container_path_text folder)) source folder = Ok wm"
    and ms: "plan_mounts_loop to_json sha256 (planning_context inputs source (container_path_text folder))
      (planned_target wm) (cdenv_owned_targets inputs) 0 (eff_mounts eff) [] = Ok (plan_mounts plan)"
    and pl: "plan_workspace plan = \<lparr>workspace_folder_path = folder, workspace_mount = wm\<rparr>"
    using assms(1) by (rule plan_runtime_stages)
  note folder = plan_folder_Ok [OF f]
  note w = plan_workspace_mount_Ok [OF wm folder(2,3) HostMountSource_parse_Ok [OF folder(1)]]
  note l = plan_mounts_loop_Ok [OF ms]
  have free: "mount_wf m \<and> (\<forall>w \<in> set (cdenv_owned_targets inputs).
      \<not> prefix (target_parts m) (path_parts (container_path_text w)) \<and>
      \<not> prefix (path_parts (container_path_text w)) (target_parts m))"
    if "mount_free (cdenv_owned_targets inputs) m" for m
    using that assms(2) by (auto simp: mount_free_def mount_wf_def overlaps_parts list_all_iff)
  from l have "list_all (mount_free (cdenv_owned_targets inputs)) (plan_mounts plan)"
    "distinct (planned_target wm # map planned_target (plan_mounts plan))"
    "length (plan_mounts plan) = length (eff_mounts eff)" by simp_all
  then show ?thesis using w folder(1) free pl by (simp add: list_all_iff Let_def)
qed

lemma escape_plain: "CHR ''$'' \<notin> set t \<Longrightarrow> escape t = t"
  by (induction t rule: escape.induct) auto

lemma substitute_literal:
  assumes "ascii t" "CHR ''$'' \<notin> set t"
  shows "substitute_host to_json sha256 p t ctx = Ok (DeferredString [Literal t])"
proof -
  have "\<not> suffix ''$'' t" using assms(2) by (auto simp: suffix_def)
  from loop_text [OF ascii_valid_utf8 [OF assms(1)] this, of _ p ctx "[]" "[]" "[]"]
  show ?thesis by (simp add: substitute_host_def escape_plain [OF assms(2)] substitute_loop.simps)
qed

lemma immediate_literal:
  "ascii t \<Longrightarrow> CHR ''$'' \<notin> set t \<Longrightarrow> immediate_substitution to_json sha256 path p t ctx = Ok t"
  by (simp add: immediate_substitution_def substitute_literal DeferredString_resolve_def segment_value_def)

definition sample_effective :: effective_metadata where
  "sample_effective = \<lparr>eff_init = None, eff_privileged = None, eff_cap_add = [''SYS_PTRACE''],
     eff_security_opt = [], eff_entrypoints = [],
     eff_mounts = [ObjectMount Bind (Some ''/srv/data/'') ''/data''],
     eff_lifecycle = EffectiveLifecycle_default, eff_container_user = Some ''dev'', eff_remote_user = None,
     eff_user_env_probe = None, eff_update_remote_user_uid = None, eff_override_command = None,
     eff_wait_for = None, eff_shutdown_action = None, eff_container_env = [(''LANG'', ''C'')],
     eff_remote_env = [], eff_ports_attributes = [], eff_other_ports_attributes = None,
     eff_forward_ports = [], eff_host_requirements = None, eff_customizations = []\<rparr>"

definition sample_planning :: runtime_planning_inputs where
  "sample_planning = \<lparr>input_local_folder = ''/home/me/app'', input_local_env = [],
     input_labels = StableIdentityLabels [], scenario_container_user = None,
     cdenv_owned_targets = [ContainerPath ''/opt/cdenv''], input_host_user = None\<rparr>"

lemmas path_eval = normalize_absolute_def ContainerPath_parse_def HostMountSource_parse_def chars_ascii
  is_control_def char_of_def bit_0

lemma sample_paths:
  "HostMountSource_parse ''/home/me/app'' = Ok (HostMountSource ''/home/me/app'')"
  "ContainerPath_parse ''/workspaces/app'' = Ok (ContainerPath ''/workspaces/app'')"
  "HostMountSource_parse ''/srv/data/'' = Ok (HostMountSource ''/srv/data'')"
  "ContainerPath_parse ''/data'' = Ok (ContainerPath ''/data'')"
  by (simp_all add: path_eval)

lemma sample_stages:
  assumes "raw_workspace_mount (scenario profile) = None" "\<And>d. raw_folder (scenario profile) d = d"
  shows "plan_folder to_json sha256 profile sample_planning =
      Ok (HostMountSource ''/home/me/app'', ContainerPath ''/workspaces/app'')"
    and "plan_workspace_mount to_json sha256 profile sample_planning ctx (HostMountSource ''/home/me/app'')
      (ContainerPath ''/workspaces/app'') = Ok \<lparr>planned_kind = Bind, planned_source = Some ''/home/me/app'',
        planned_target = ContainerPath ''/workspaces/app'', planned_options = []\<rparr>"
    and "plan_mounts_loop to_json sha256 ctx (ContainerPath ''/workspaces/app'') [ContainerPath ''/opt/cdenv''] 0
      [ObjectMount Bind (Some ''/srv/data/'') ''/data''] [] = Ok [\<lparr>planned_kind = Bind,
        planned_source = Some ''/srv/data'', planned_target = ContainerPath ''/data'', planned_options = []\<rparr>]"
proof -
  have "trim_end_matches (CHR ''/'') ''/home/me/app'' = ''/home/me/app''" by (simp add: trim_end_matches_def)
  then show "plan_folder to_json sha256 profile sample_planning =
      Ok (HostMountSource ''/home/me/app'', ContainerPath ''/workspaces/app'')"
    by (simp add: plan_folder_def assms(2) sample_planning_def sample_paths default_folder_def immediate_literal)
  show "plan_workspace_mount to_json sha256 profile sample_planning ctx (HostMountSource ''/home/me/app'')
      (ContainerPath ''/workspaces/app'') = Ok \<lparr>planned_kind = Bind, planned_source = Some ''/home/me/app'',
        planned_target = ContainerPath ''/workspaces/app'', planned_options = []\<rparr>"
    by (simp add: plan_workspace_mount_def assms(1) sample_planning_def sample_paths validate_workspace_mount_def path_contains_def reject_owned_target_def
      ContainerPath_overlaps_def)
  show "plan_mounts_loop to_json sha256 ctx (ContainerPath ''/workspaces/app'') [ContainerPath ''/opt/cdenv''] 0
      [ObjectMount Bind (Some ''/srv/data/'') ''/data''] [] = Ok [\<lparr>planned_kind = Bind,
        planned_source = Some ''/srv/data'', planned_target = ContainerPath ''/data'', planned_options = []\<rparr>]"
    by (simp add: plan_mount_def immediate_literal normalize_mount_def normalize_source_def sample_paths
      reject_owned_target_def ContainerPath_overlaps_def path_contains_def)
qed

lemma sample_user: "plan_user to_json sha256 path p message ''dev'' ctx = Ok (ContainerIdentity ''dev'')"
  by (simp add: plan_user_def immediate_literal ContainerUser_parse_def chars_ascii is_control_def is_whitespace_def
    char_of_def bit_0)

lemma sample_settings:
  "\<exists>env. plan_environment_of to_json sha256 sample_effective ctx = Ok env"
  "validate_runtime_strings [''SYS_PTRACE''] ''$.capAdd'' = Ok ()"
  by (simp_all add: plan_environment_of_def sample_effective_def plan_container_entry_def
    validate_environment_name_def environment_name_ok_def is_ascii_alphabetic_def is_ascii_uppercase_def
    immediate_literal validate_runtime_strings_def chars_ascii is_control_def char_of_def bit_0)

lemma sample_fields:
  "raw_container_user sample_effective sample_planning = ''dev''" "eff_remote_user sample_effective = None"
  "eff_mounts sample_effective = [ObjectMount Bind (Some ''/srv/data/'') ''/data'']"
  "cdenv_owned_targets sample_planning = [ContainerPath ''/opt/cdenv'']"
  "eff_cap_add sample_effective = [''SYS_PTRACE'']" "eff_security_opt sample_effective = []"
  by (simp_all add: sample_effective_def sample_planning_def raw_container_user_def)

lemma sample_runtime:
  assumes "raw_workspace_mount (scenario profile) = None" "\<And>d. raw_folder (scenario profile) d = d"
  shows "\<exists>plan. plan_runtime (\<lambda>_. None) (\<lambda>_. []) profile sample_effective sample_planning = Ok plan \<and>
    planned_target (workspace_mount (plan_workspace plan)) = ContainerPath ''/workspaces/app'' \<and>
    map planned_target (plan_mounts plan) = [ContainerPath ''/data'']"
proof -
  let ?ctx = "planning_context sample_planning (HostMountSource ''/home/me/app'') ''/workspaces/app''"
  obtain env where "plan_environment_of (\<lambda>_. None) (\<lambda>_. []) sample_effective ?ctx = Ok env"
    using sample_settings(1) by (rule exE)
  then show ?thesis
    by (simp add: plan_runtime_def sample_stages [OF assms] sample_user sample_settings sample_fields option_or_def
      validate_runtime_strings_def [of "[]"] del: plan_mounts_loop.simps)
qed

theorem runtime_plan_contained_witness:
  "\<exists>plan. plan_runtime (\<lambda>_. None) (\<lambda>_. []) sample_profile sample_effective sample_planning = Ok plan \<and>
     plan_mounts plan \<noteq> [] \<and> distinct (planned_target (workspace_mount (plan_workspace plan)) #
       map planned_target (plan_mounts plan))"
proof -
  obtain plan where plan: "plan_runtime (\<lambda>_. None) (\<lambda>_. []) sample_profile sample_effective sample_planning = Ok plan"
    using sample_runtime [of sample_profile]
    by (auto simp: sample_profile_def raw_workspace_mount_def raw_folder_def option_or_def)
  have "\<forall>w \<in> set (cdenv_owned_targets sample_planning). wf_path (container_path_text w)"
    by (simp add: sample_fields wf_path_def path_parts_def abs_path_def plain_part_def)
  from runtime_plan_contained [OF plan this] have
    "distinct (map planned_target (workspace_mount (plan_workspace plan) # plan_mounts plan))"
    "length (plan_mounts plan) = length (eff_mounts sample_effective)" by (simp_all add: Let_def)
  then show ?thesis using plan by (auto simp: sample_fields)
qed

text \<open>
  The default of the remote user is the container user after substitution, and is substituted
  again: the two can differ although the profile sets only one of them.
\<close>

lemma default_remote_user_resubstituted:
  assumes "local_env ctx = [(''U'', ''${localEnv:V}''), (''V'', ''dev'')]"
  shows "plan_user to_json sha256 path ContainerUser message ''${localEnv:U}'' ctx = Ok (ContainerIdentity ''${localEnv:V}'')"
    and "plan_user to_json sha256 path RemoteUser message ''${localEnv:V}'' ctx = Ok (ContainerIdentity ''dev'')"
  using assms
  by (simp_all add: plan_user_def immediate_substitution_def substitute_host_def substitute_loop.simps
    replacement_for_def environment_expression_def DeferredString_resolve_def segment_value_def
    ContainerUser_parse_def chars_ascii is_control_def is_whitespace_def char_of_def bit_0)

end
