(* ===== verification/Docker_Options.thy ===== *)
theory Docker_Options
  imports Planning
begin

text \<open>
  \<^verbatim>\<open>crates/cdenv-devcontainer/src/docker_options.rs\<close>: the build source of a container and the
  pass-through options of \<^verbatim>\<open>docker build\<close> and \<^verbatim>\<open>docker create\<close>, with the settings that cdenv keeps for
  itself. The JSON text of a string, used in the path of an error, is a parameter.
\<close>

section \<open>Repository paths\<close>

datatype repository_path = RepositoryPath (repository_path_text: string)

fun repository_components :: "string list \<Rightarrow> string list \<Rightarrow> string list option" where
  "repository_components out [] = Some out"
| "repository_components out (c # cs) =
     (if c = [] \<or> c = ''.'' then repository_components out cs
      else if c = ''..'' then (if out = [] then None else repository_components (butlast out) cs)
      else repository_components (out @ [c]) cs)"

definition resolve_repository_path :: "string \<Rightarrow> string \<Rightarrow> repository_path option" where
  "resolve_repository_path base v =
     (if prefix ''/'' v \<or> CHR 0x5C \<in> set v \<or> list_ex is_control (chars v) then None
      else (case repository_components [] (split_on (CHR ''/'') base @ split_on (CHR ''/'') v) of
              None \<Rightarrow> None
            | Some cs \<Rightarrow> Some (RepositoryPath (if cs = [] then ''.'' else join ''/'' cs))))"

definition RepositoryPath_parse :: "string \<Rightarrow> repository_path option" where
  "RepositoryPath_parse v = resolve_repository_path [] v"

section \<open>Errors and plans\<close>

datatype docker_option_error_kind =
    PathOutsideCheckout | DockerSubstitution | BuildInvariant | BuildContext | IdentityLabel
  | ContainerName | AutoRemove | ContainerUserOption | WorkspaceFolderOption | Entrypoint
  | AttachmentMode | InvalidMountArgument | MountTarget

record docker_option_error =
  docker_error_path :: string
  docker_error_argument :: string
  docker_error_kind :: docker_option_error_kind
  docker_error_message :: string

definition docker_error ::
    "string \<Rightarrow> string \<Rightarrow> docker_option_error_kind \<Rightarrow> string \<Rightarrow> docker_option_error" where
  "docker_error path argument kind message = \<lparr>docker_error_path = path, docker_error_argument = argument,
     docker_error_kind = kind, docker_error_message = message\<rparr>"

record dockerfile_build_plan =
  plan_dockerfile :: repository_path
  plan_context :: repository_path
  plan_target :: "string option"
  plan_arguments :: "(string, string) btree"
  plan_cache_from :: "string list"
  plan_build_options :: "string list"

datatype build_plan = ImageBuild string | DockerfileBuild dockerfile_build_plan | ComposeBuild

record docker_options_plan =
  docker_build :: build_plan
  run_arguments :: "string list"

section \<open>Options\<close>

definition reserved_long :: "string \<Rightarrow> string list \<Rightarrow> bool" where
  "reserved_long argument names \<longleftrightarrow>
     list_ex (\<lambda>name. argument = name \<or> is_some_and (strip_prefix name argument) (prefix ''='')) names"

text \<open>The first character of a short option; all names are ASCII, so the first byte decides.\<close>

definition short_flags :: "string \<Rightarrow> string option" where
  "short_flags argument =
     (case strip_prefix ''-'' argument of
        Some v \<Rightarrow> if prefix ''-'' v then None else Some v
      | None \<Rightarrow> None)"

definition reserved_short :: "string \<Rightarrow> char list \<Rightarrow> bool" where
  "reserved_short argument names \<longleftrightarrow>
     is_some_and (short_flags argument) (\<lambda>v. v \<noteq> [] \<and> hd v \<in> set names)"

definition reserved_attach_short :: "string \<Rightarrow> bool" where
  "reserved_attach_short argument \<longleftrightarrow>
     is_some_and (short_flags argument) (\<lambda>v.
       let flags = hd (split_on (CHR ''='') v) in flags \<noteq> [] \<and> set flags \<subseteq> set ''adit'')"

definition option_value :: "string list \<Rightarrow> nat \<Rightarrow> string \<Rightarrow> char option \<Rightarrow> string option" where
  "option_value arguments index long short =
     (if \<not> index < length arguments then None
      else let argument = arguments ! index in
        if argument = long \<or> is_some_and short (\<lambda>c. argument = [CHR ''-'', c])
        then (if index + 1 < length arguments then Some (arguments ! (index + 1)) else None)
        else (case strip_prefix (long @ ''='') argument of
          Some v \<Rightarrow> Some v
        | None \<Rightarrow> (case short of
            None \<Rightarrow> None
          | Some c \<Rightarrow> (case strip_prefix [CHR ''-'', c] argument of
              None \<Rightarrow> None
            | Some v \<Rightarrow> if v = [] then None else Some v))))"

definition cdenv_label :: "string \<Rightarrow> bool" where
  "cdenv_label v =
     prefix ''cdenv.'' (case split_once (CHR ''='') v of None \<Rightarrow> v | Some (name, _) \<Rightarrow> name)"

section \<open>Build options\<close>

definition build_option_takes_value :: "string \<Rightarrow> bool" where
  "build_option_takes_value argument \<longleftrightarrow> argument \<in> set
     [''--add-host'', ''--allow'', ''--annotation'', ''--attest'', ''--build-arg'', ''--build-context'',
      ''--cache-from'', ''--cache-to'', ''--call'', ''--cgroup-parent'', ''--cpu-period'', ''--cpu-quota'',
      ''--cpu-shares'', ''--cpuset-cpus'', ''--cpuset-mems'', ''--memory'', ''--network'',
      ''--no-cache-filter'', ''--platform'', ''--progress'', ''--provenance'', ''--sbom'', ''--secret'',
      ''--shm-size'', ''--ssh'', ''--ulimit'']"

definition build_option_conflict :: "string list \<Rightarrow> nat \<Rightarrow> (docker_option_error_kind \<times> string) option" where
  "build_option_conflict arguments index =
     (let argument = arguments ! index in
      if reserved_long argument [''--file'', ''--tag'', ''--target'', ''--output'', ''--iidfile'',
           ''--metadata-file'', ''--push''] \<or> reserved_short argument ''fto''
      then Some (BuildInvariant,
        ''option conflicts with cdenv-owned Dockerfile, target, tag, or build output'')
      else if reserved_long argument [''--label-file''] \<or>
        is_some_and (option_value arguments index ''--label'' None) cdenv_label
      then Some (IdentityLabel, ''option conflicts with a cdenv identity label'')
      else if \<not> prefix ''-'' argument \<or> argument = ''-'' \<or> argument = ''--''
      then Some (BuildContext, ''positional build context is cdenv-owned'')
      else None)"

definition consumes_next :: "string \<Rightarrow> bool" where
  "consumes_next argument \<longleftrightarrow>
     CHR ''='' \<notin> set argument \<and> (argument = ''--label'' \<or> build_option_takes_value argument)"

function build_options_loop :: "string list \<Rightarrow> nat \<Rightarrow> (unit, docker_option_error) result" where
  "build_options_loop arguments index =
     (if index < length arguments
      then (case build_option_conflict arguments index of
              Some (kind, message) \<Rightarrow> Err (docker_error (''$.build.options['' @ nat_str index @ '']'')
                (arguments ! index) kind message)
            | None \<Rightarrow> build_options_loop arguments
                (index + (if consumes_next (arguments ! index) then 2 else 1)))
      else Ok ())"
  by pat_completeness auto
termination by (relation "measure (\<lambda>(arguments, index). length arguments - index)") auto

declare build_options_loop.simps [simp del]

definition validate_build_options :: "string list \<Rightarrow> (unit, docker_option_error) result" where
  "validate_build_options arguments = build_options_loop arguments 0"

section \<open>Create options\<close>

definition reserved_create_setting :: "string \<Rightarrow> docker_option_error_kind option" where
  "reserved_create_setting argument =
     (if argument = ''--rm'' \<or> prefix ''--rm='' argument then Some AutoRemove
      else if argument = ''--name'' \<or> prefix ''--name='' argument then Some ContainerName
      else if argument = ''--entrypoint'' \<or> prefix ''--entrypoint='' argument then Some Entrypoint
      else if argument = ''--workdir'' \<or> prefix ''--workdir='' argument \<or> reserved_short argument ''w''
        then Some WorkspaceFolderOption
      else if argument = ''--user'' \<or> prefix ''--user='' argument \<or> reserved_short argument ''u''
        then Some ContainerUserOption
      else None)"

fun mount_option_target :: "string list \<Rightarrow> string option \<Rightarrow> string option" where
  "mount_option_target [] target = target"
| "mount_option_target (field # rest) target =
     (case split_once (CHR ''='') field of
        None \<Rightarrow> mount_option_target rest target
      | Some (name, v) \<Rightarrow>
          if trim name \<in> {''target'', ''dst'', ''destination''}
          then (if target \<noteq> None then None else mount_option_target rest (Some (trim v)))
          else mount_option_target rest target)"

definition mount_argument_target :: "string \<Rightarrow> string option" where
  "mount_argument_target v =
     (case mount_option_target (split_on (CHR '','') v) None of
        None \<Rightarrow> None | Some t \<Rightarrow> if t = [] then None else Some t)"

definition volume_target :: "string \<Rightarrow> string option" where
  "volume_target v =
     (let parts = rev (split_on (CHR '':'') v) in
      if prefix ''/'' (hd parts) then Some (hd parts)
      else if tl parts \<noteq> [] \<and> prefix ''/'' (hd (tl parts)) then Some (hd (tl parts)) else None)"

definition reject_mount_target ::
    "string \<Rightarrow> string \<Rightarrow> string \<Rightarrow> runtime_plan \<Rightarrow> container_path list \<Rightarrow> (unit, docker_option_error) result" where
  "reject_mount_target target path argument runtime owned =
     (case ContainerPath_parse target of
        Err _ \<Rightarrow> Err (docker_error path argument InvalidMountArgument
          ''run argument mount target must be an absolute container path'')
      | Ok t \<Rightarrow>
          if list_ex (\<lambda>w. path_contains (container_path_text t) (container_path_text w) \<or>
               path_contains (container_path_text w) (container_path_text t))
             (planned_target (workspace_mount (plan_workspace runtime)) #
              map planned_target (plan_mounts runtime) @ owned)
          then Err (docker_error path argument MountTarget
            ''run argument mount overlaps a workspace or cdenv-owned target'')
          else Ok ())"

text \<open>One mount-like option of an argument: nothing to check, or its target to reject.\<close>

definition check_mount_option ::
    "string option \<Rightarrow> (string \<Rightarrow> string option) \<Rightarrow> string \<Rightarrow> string \<Rightarrow> string \<Rightarrow> runtime_plan \<Rightarrow> container_path list \<Rightarrow>
      (unit, docker_option_error) result" where
  "check_mount_option v target_of message path argument runtime owned =
     (case v of
        None \<Rightarrow> Ok ()
      | Some t \<Rightarrow>
          and_then (ok_or (docker_error path argument InvalidMountArgument message) (target_of t))
            (\<lambda>target. reject_mount_target target path argument runtime owned))"

definition tmpfs_target :: "string \<Rightarrow> string option" where
  "tmpfs_target v = Some (hd (split_on (CHR '':'') v))"

definition check_run_argument ::
    "string list \<Rightarrow> string list \<Rightarrow> runtime_plan \<Rightarrow> container_path list \<Rightarrow> nat \<Rightarrow>
      (unit, docker_option_error) result" where
  "check_run_argument raw arguments runtime owned index =
     (let argument = arguments ! index; shown = raw ! index;
          path = ''$.runArgs['' @ nat_str index @ '']''
      in case reserved_create_setting argument of
           Some kind \<Rightarrow> Err (docker_error path shown kind
             ''option conflicts with a cdenv-owned create setting'')
         | None \<Rightarrow>
      if argument = ''--'' \<or> reserved_long argument [''--attach'', ''--detach'', ''--interactive'',
           ''--tty'', ''--sig-proxy''] \<or> reserved_attach_short argument
      then Err (docker_error path shown AttachmentMode
             ''option conflicts with cdenv-owned attach, stdin, or TTY mode'')
      else if reserved_long argument [''--label-file''] \<or>
        is_some_and (option_value arguments index ''--label'' (Some (CHR ''l''))) cdenv_label
      then Err (docker_error path shown IdentityLabel ''option conflicts with a cdenv identity label'')
      else and_then (check_mount_option (option_value arguments index ''--mount'' None) mount_argument_target
        ''--mount must contain one target, dst, or destination field'' path shown runtime owned) (\<lambda>_.
      and_then (check_mount_option (option_value arguments index ''--volume'' (Some (CHR ''v''))) volume_target
        ''--volume must contain an absolute container target'' path shown runtime owned) (\<lambda>_.
      check_mount_option (option_value arguments index ''--tmpfs'' None) tmpfs_target
        [] path shown runtime owned)))"

definition validate_run_arguments ::
    "string list \<Rightarrow> string list \<Rightarrow> runtime_plan \<Rightarrow> container_path list \<Rightarrow> (unit, docker_option_error) result" where
  "validate_run_arguments raw arguments runtime owned =
     map_ok (\<lambda>_. ()) (collect_results (check_run_argument raw arguments runtime owned) [0..<length arguments])"

section \<open>The plan\<close>

definition substitute_run_arguments ::
    "labels_json \<Rightarrow> digest \<Rightarrow> string list \<Rightarrow> host_substitution_inputs \<Rightarrow>
      (string list, docker_option_error) result" where
  "substitute_run_arguments to_json sha256 arguments ctx =
     collect_results (\<lambda>(index, argument).
       map_err (\<lambda>_. docker_error (''$.runArgs['' @ nat_str index @ '']'') argument DockerSubstitution
           ''unsupported or malformed run argument substitution'')
         (map_ok (\<lambda>d. DeferredString_resolve d []) (substitute_host to_json sha256 RunArgument argument ctx)))
       (enumerate 0 arguments)"

definition build_argument ::
    "labels_json \<Rightarrow> digest \<Rightarrow> (string \<Rightarrow> string) \<Rightarrow> host_substitution_inputs \<Rightarrow> string \<times> string \<Rightarrow>
      (string \<times> string, docker_option_error) result" where
  "build_argument to_json sha256 json_string ctx = (\<lambda>(name, v).
     map_err (\<lambda>_. docker_error (''$.build.args['' @ json_string name @ '']'') [] DockerSubstitution
         ''unsupported or malformed build argument substitution'')
       (map_ok (\<lambda>d. (name, DeferredString_resolve d [])) (substitute_host to_json sha256 BuildArgument v ctx)))"

definition plan_dockerfile_build ::
    "labels_json \<Rightarrow> digest \<Rightarrow> (string \<Rightarrow> string) \<Rightarrow> repository_path \<Rightarrow> host_substitution_inputs \<Rightarrow> raw_build \<Rightarrow>
      (dockerfile_build_plan, docker_option_error) result" where
  "plan_dockerfile_build to_json sha256 json_string config ctx b =
     and_then (validate_build_options (build_options b)) (\<lambda>_.
     and_then (ok_or (docker_error ''$.build.dockerfile'' [] PathOutsideCheckout
         ''Dockerfile must remain in the repository checkout'')
       (resolve_repository_path (repository_path_text config) (dockerfile b))) (\<lambda>file.
     and_then (ok_or (docker_error ''$.build.context'' [] PathOutsideCheckout
         ''build context must remain in the repository checkout'')
       (case build_context b of
          None \<Rightarrow> Some config
        | Some c \<Rightarrow> resolve_repository_path (repository_path_text config) c)) (\<lambda>directory.
     and_then (collect_results (build_argument to_json sha256 json_string ctx) (build_args b)) (\<lambda>arguments.
     Ok \<lparr>plan_dockerfile = file, plan_context = directory, plan_target = build_target b,
       plan_arguments = bt_of arguments, plan_cache_from = cache_from b,
       plan_build_options = build_options b\<rparr>))))"

definition plan_docker_options ::
    "labels_json \<Rightarrow> digest \<Rightarrow> (string \<Rightarrow> string) \<Rightarrow> raw_profile \<Rightarrow> runtime_plan \<Rightarrow> string \<Rightarrow>
      host_substitution_inputs \<Rightarrow> container_path list \<Rightarrow> (docker_options_plan, docker_option_error) result" where
  "plan_docker_options to_json sha256 json_string profile runtime config_directory ctx owned =
     and_then (ok_or (docker_error ''$.build'' [] PathOutsideCheckout
         ''selected configuration directory must remain in the checkout'')
       (RepositoryPath_parse config_directory)) (\<lambda>config.
     and_then (case scenario profile of
         ImageScenario v \<Rightarrow> Ok (ImageBuild (image v), opt_run_args (image_options v))
       | DockerfileScenario v \<Rightarrow>
           map_ok (\<lambda>p. (DockerfileBuild p, opt_run_args (dockerfile_options v)))
             (plan_dockerfile_build to_json sha256 json_string config ctx (build v))
       | ComposeScenario _ \<Rightarrow> Ok (ComposeBuild, [])) (\<lambda>(source, raw).
     and_then (substitute_run_arguments to_json sha256 raw ctx) (\<lambda>arguments.
     and_then (validate_run_arguments raw arguments runtime owned) (\<lambda>_.
     Ok \<lparr>docker_build = source, run_arguments = arguments\<rparr>))))"

section \<open>Repository paths stay in the checkout\<close>

definition names :: "string list \<Rightarrow> nat" where
  "names cs = length (filter (\<lambda>c. c \<noteq> [] \<and> c \<noteq> ''.'' \<and> c \<noteq> ''..'') cs)"

definition ups :: "string list \<Rightarrow> nat" where
  "ups cs = length (filter (\<lambda>c. c = ''..'') cs)"

definition leaves :: "nat \<Rightarrow> string list \<Rightarrow> bool" where
  "leaves depth cs \<longleftrightarrow> (\<exists>n. depth + names (take n cs) < ups (take n cs))"

lemma leaves_Nil [simp]: "\<not> leaves d []"
  by (simp add: leaves_def names_def ups_def)

lemma leaves_Cons: "leaves d (c # cs) \<longleftrightarrow> (\<exists>k. d + names (c # take k cs) < ups (c # take k cs))"
proof
  assume "leaves d (c # cs)"
  then obtain n where n: "d + names (take n (c # cs)) < ups (take n (c # cs))" by (auto simp: leaves_def)
  then obtain k where "n = Suc k" by (cases n) (auto simp: names_def ups_def)
  with n show "\<exists>k. d + names (c # take k cs) < ups (c # take k cs)" by (intro exI [of _ k]) simp
next
  assume "\<exists>k. d + names (c # take k cs) < ups (c # take k cs)"
  then obtain k where "d + names (take (Suc k) (c # cs)) < ups (take (Suc k) (c # cs))" by auto
  then show "leaves d (c # cs)" unfolding leaves_def by (rule exI)
qed

lemma leaves_skip: "c = [] \<or> c = ''.'' \<Longrightarrow> leaves d (c # cs) \<longleftrightarrow> leaves d cs"
  unfolding leaves_Cons by (auto simp: leaves_def names_def ups_def)

lemma leaves_name: "c \<noteq> [] \<Longrightarrow> c \<noteq> ''.'' \<Longrightarrow> c \<noteq> ''..'' \<Longrightarrow> leaves d (c # cs) \<longleftrightarrow> leaves (Suc d) cs"
  unfolding leaves_Cons by (simp add: leaves_def names_def ups_def)

lemma leaves_up: "leaves d (''..'' # cs) \<longleftrightarrow> d = 0 \<or> leaves (d - 1) cs"
proof (cases d)
  case 0
  have "leaves 0 (''..'' # cs)" unfolding leaves_Cons by (rule exI [of _ 0]) (simp add: names_def ups_def)
  with 0 show ?thesis by simp
next
  case (Suc e)
  then show ?thesis unfolding leaves_Cons by (simp add: leaves_def names_def ups_def)
qed

lemma repository_components_None: "repository_components out cs = None \<longleftrightarrow> leaves (length out) cs"
  by (induction out cs rule: repository_components.induct) (simp_all add: leaves_skip leaves_name leaves_up)

lemma repository_components_plain:
  "repository_components out cs = Some ds \<Longrightarrow> list_all plain_part out \<Longrightarrow> \<forall>c \<in> set cs. CHR ''/'' \<notin> set c \<Longrightarrow>
    list_all plain_part ds"
proof (induction cs arbitrary: out)
  case (Cons c cs)
  have "list_all plain_part (butlast out)" using Cons.prems(2) by (auto simp: list_all_iff dest: in_set_butlastD)
  moreover have "list_all plain_part (out @ [c])" if "c \<noteq> []" "c \<noteq> ''.''" "c \<noteq> ''..''"
    using that Cons.prems(2,3) by (auto simp: list_all_iff plain_part_def)
  ultimately show ?case using Cons.IH Cons.prems by (auto split: if_splits)
qed simp

definition checkout_path :: "string \<Rightarrow> bool" where
  "checkout_path t \<longleftrightarrow> t = ''.'' \<or> (\<exists>cs. cs \<noteq> [] \<and> list_all plain_part cs \<and> t = join ''/'' cs)"

lemma resolve_repository_path_checkout:
  assumes "resolve_repository_path base v = Some p"
  shows "checkout_path (repository_path_text p)"
proof -
  from assms obtain cs where cs: "repository_components [] (split_on (CHR ''/'') base @ split_on (CHR ''/'') v) = Some cs"
    "repository_path_text p = (if cs = [] then ''.'' else join ''/'' cs)"
    by (auto simp: resolve_repository_path_def split: if_splits option.splits)
  have "list_all plain_part cs"
    by (rule repository_components_plain [OF cs(1)]) (auto dest: split_on_pieces)
  with cs(2) show ?thesis by (auto simp: checkout_path_def)
qed

section \<open>Accepted build options\<close>

text \<open>
  The options as the tokens that Docker reads: a flag, or a flag with the next word as its value.
\<close>

definition flag_permitted :: "string \<Rightarrow> string option \<Rightarrow> bool" where
  "flag_permitted flag v \<longleftrightarrow> prefix ''-'' flag \<and> flag \<noteq> ''-'' \<and> flag \<noteq> ''--'' \<and>
     \<not> reserved_long flag [''--file'', ''--tag'', ''--target'', ''--output'', ''--iidfile'',
        ''--metadata-file'', ''--push'', ''--label-file''] \<and> \<not> reserved_short flag ''fto'' \<and>
     (flag = ''--label'' \<longrightarrow> \<not> is_some_and v cdenv_label) \<and>
     (\<forall>l. flag = ''--label='' @ l \<longrightarrow> \<not> cdenv_label l)"

fun build_accepted :: "string list \<Rightarrow> bool" where
  "build_accepted [] \<longleftrightarrow> True"
| "build_accepted [flag] \<longleftrightarrow> flag_permitted flag None"
| "build_accepted (flag # v # rest) \<longleftrightarrow> flag_permitted flag (Some v) \<and>
     (if consumes_next flag then build_accepted rest else build_accepted (v # rest))"

lemma option_value_label:
  assumes "i < length args"
  shows "is_some_and (option_value args i ''--label'' None) P \<longleftrightarrow>
    (args ! i = ''--label'' \<and> i + 1 < length args \<and> P (args ! (i + 1))) \<or>
    (\<exists>l. args ! i = ''--label='' @ l \<and> P l)"
  using assms
  by (auto simp: option_value_def is_some_and_iff Let_def strip_prefix_def prefix_def split: if_splits)

lemma build_conflict_None:
  assumes "i < length args"
  shows "build_option_conflict args i = None \<longleftrightarrow>
    flag_permitted (args ! i) (if i + 1 < length args then Some (args ! (i + 1)) else None)"
  unfolding build_option_conflict_def Let_def option_value_label [OF assms]
  by (auto simp: flag_permitted_def reserved_long_def is_some_and_def)

lemma build_options_loop_end: "length args \<le> i \<Longrightarrow> build_options_loop args i = Ok ()"
  by (subst build_options_loop.simps) simp

lemma build_options_loop_step:
  "i < length args \<Longrightarrow> build_options_loop args i = Ok () \<longleftrightarrow>
    build_option_conflict args i = None \<and>
    build_options_loop args (i + (if consumes_next (args ! i) then 2 else 1)) = Ok ()"
  by (subst build_options_loop.simps) (auto split: option.splits)

lemma build_options_loop_accepted:
  "build_options_loop args i = Ok () \<longleftrightarrow> build_accepted (drop i args)"
proof (induction "length args - i" arbitrary: i rule: less_induct)
  case less
  consider "length args \<le> i" | "Suc i = length args" | "Suc i < length args" by linarith
  then show ?case
  proof cases
    case 1
    then show ?thesis by (simp add: build_options_loop_end)
  next
    case 2
    then have "drop i args = [args ! i]" by (metis Cons_nth_drop_Suc drop_all lessI order_refl)
    with 2 show ?thesis
      by (simp add: build_options_loop_step build_options_loop_end build_conflict_None)
  next
    case 3
    then have d: "drop i args = args ! i # args ! (i + 1) # drop (i + 2) args"
      "drop (i + 1) args = args ! (i + 1) # drop (i + 2) args"
      by (simp_all add: Cons_nth_drop_Suc)
    have "build_options_loop args (i + 2) = Ok () \<longleftrightarrow> build_accepted (drop (i + 2) args)"
      "build_options_loop args (i + 1) = Ok () \<longleftrightarrow> build_accepted (drop (i + 1) args)"
      using 3 by (auto intro!: less simp del: drop_drop)
    with 3 d show ?thesis
      using build_options_loop_step [of i args] build_conflict_None [of i args] by auto
  qed
qed

section \<open>Accepted run arguments\<close>

definition requested_targets :: "string list \<Rightarrow> nat \<Rightarrow> string set" where
  "requested_targets args i =
     set_option (Option.bind (option_value args i ''--mount'' None) mount_argument_target) \<union>
     set_option (Option.bind (option_value args i ''--volume'' (Some (CHR ''v''))) volume_target) \<union>
     set_option (Option.bind (option_value args i ''--tmpfs'' None) tmpfs_target)"

definition target_clear :: "runtime_plan \<Rightarrow> container_path list \<Rightarrow> string \<Rightarrow> bool" where
  "target_clear runtime owned t \<longleftrightarrow> (\<exists>p. ContainerPath_parse t = Ok p \<and>
     (\<forall>w \<in> set (planned_target (workspace_mount (plan_workspace runtime)) #
          map planned_target (plan_mounts runtime) @ owned).
        \<not> path_contains (container_path_text p) (container_path_text w) \<and>
        \<not> path_contains (container_path_text w) (container_path_text p)))"

lemma reject_mount_target_Ok:
  "reject_mount_target t path argument runtime owned = Ok u \<longleftrightarrow> target_clear runtime owned t"
  by (cases "ContainerPath_parse t") (auto simp: reject_mount_target_def target_clear_def list_ex_iff)

lemma check_mount_option_Ok:
  "check_mount_option v f message path argument runtime owned = Ok u \<Longrightarrow> t \<in> set_option (Option.bind v f) \<Longrightarrow>
    target_clear runtime owned t"
  by (auto simp: check_mount_option_def reject_mount_target_Ok bind_eq_Some_conv elim!: and_then_OkE)

lemma check_run_argument_Ok:
  assumes "check_run_argument raw args runtime owned i = Ok u"
  shows "reserved_create_setting (args ! i) = None" and "args ! i \<noteq> ''--''"
    and "\<not> reserved_attach_short (args ! i)" and "\<forall>t \<in> requested_targets args i. target_clear runtime owned t"
proof -
  show "reserved_create_setting (args ! i) = None"
    using assms by (cases "reserved_create_setting (args ! i)") (simp_all add: check_run_argument_def Let_def)
  with assms show "args ! i \<noteq> ''--''" "\<not> reserved_attach_short (args ! i)"
    by (auto simp: check_run_argument_def Let_def split: if_splits)
  from assms \<open>reserved_create_setting (args ! i) = None\<close>
  show "\<forall>t \<in> requested_targets args i. target_clear runtime owned t"
    unfolding check_run_argument_def Let_def requested_targets_def
    by (auto split: if_splits elim!: and_then_OkE dest: check_mount_option_Ok)
qed

lemma validate_run_arguments_Ok:
  assumes "validate_run_arguments raw args runtime owned = Ok u" and "i < length args"
  shows "\<exists>u. check_run_argument raw args runtime owned i = Ok u"
  using assms by (auto simp: validate_run_arguments_def collect_results_Ok list_all2_conv_all_nth)

section \<open>Properties\<close>

text \<open>A repository path is refused exactly when it is absolute, holds a backslash or a control character, or
  its components leave the checkout at some point; an accepted one is the checkout itself or a
  list of plain components below it.\<close>

theorem repository_path_exact:
  "case resolve_repository_path base v of
     None \<Rightarrow> prefix ''/'' v \<or> CHR 0x5C \<in> set v \<or> list_ex is_control (chars v) \<or>
       leaves 0 (split_on (CHR ''/'') base @ split_on (CHR ''/'') v)
   | Some p \<Rightarrow> checkout_path (repository_path_text p) \<and>
       \<not> leaves 0 (split_on (CHR ''/'') base @ split_on (CHR ''/'') v)"
proof (cases "resolve_repository_path base v")
  case None
  then show ?thesis using repository_components_None [of "[]"]
    by (auto simp: resolve_repository_path_def split: if_splits option.splits)
next
  case (Some p)
  then have "repository_components [] (split_on (CHR ''/'') base @ split_on (CHR ''/'') v) \<noteq> None"
    by (auto simp: resolve_repository_path_def split: if_splits option.splits)
  then show ?thesis
    using Some resolve_repository_path_checkout [OF Some] repository_components_None [of "[]"] by simp
qed

lemma plan_dockerfile_build_Ok:
  assumes "plan_dockerfile_build to_json sha256 json_string config ctx b = Ok p"
    and "checkout_path (repository_path_text config)"
  shows "checkout_path (repository_path_text (plan_dockerfile p))"
    and "checkout_path (repository_path_text (plan_context p))"
    and "build_accepted (plan_build_options p)"
  using assms build_options_loop_accepted [of "build_options b" 0]
  by (auto simp: plan_dockerfile_build_def validate_build_options_def elim!: and_then_OkE
    intro: resolve_repository_path_checkout split: option.splits)

lemma plan_docker_options_Ok:
  assumes "plan_docker_options to_json sha256 json_string profile runtime dir ctx owned = Ok plan"
  obtains raw u where "validate_run_arguments raw (run_arguments plan) runtime owned = Ok u"
    and "case docker_build plan of
      DockerfileBuild p \<Rightarrow> \<exists>config b. plan_dockerfile_build to_json sha256 json_string config ctx b = Ok p \<and>
        RepositoryPath_parse dir = Some config
    | _ \<Rightarrow> True"
  using assms unfolding plan_docker_options_def
  by (elim and_then_OkE) (auto elim!: and_then_OkE intro!: that split: raw_scenario.splits)

text \<open>A requested target that neither contains nor lies in any of the given paths.\<close>

definition clear_of :: "container_path list \<Rightarrow> string \<Rightarrow> bool" where
  "clear_of ws t \<longleftrightarrow> (\<exists>p. ContainerPath_parse t = Ok p \<and> (\<forall>w \<in> set ws.
     \<not> prefix (path_parts (container_path_text p)) (path_parts (container_path_text w)) \<and>
     \<not> prefix (path_parts (container_path_text w)) (path_parts (container_path_text p))))"

abbreviation planned_targets :: "runtime_plan \<Rightarrow> container_path list" where
  "planned_targets r \<equiv> map planned_target (workspace_mount (plan_workspace r) # plan_mounts r)"

lemma target_clear_of:
  assumes "target_clear runtime owned t" "\<forall>w \<in> set (planned_targets runtime @ owned). wf_path (container_path_text w)"
  shows "clear_of (planned_targets runtime @ owned) t"
proof -
  from assms(1) obtain p where p: "ContainerPath_parse t = Ok p"
    "\<forall>w \<in> set (planned_targets runtime @ owned).
      \<not> path_contains (container_path_text p) (container_path_text w) \<and>
      \<not> path_contains (container_path_text w) (container_path_text p)"
    by (auto simp: target_clear_def)
  moreover have "wf_path (container_path_text p)" using ContainerPath_parse_Ok [OF p(1)] by simp
  ultimately show ?thesis using assms(2) unfolding clear_of_def by (auto simp: wf_path_contains)
qed


definition sample_docker_profile :: raw_profile where
  "sample_docker_profile = sample_profile\<lparr>scenario := DockerfileScenario \<lparr>
     build = \<lparr>dockerfile = ''Dockerfile'', build_context = Some ''..'', build_target = None, build_args = [],
       cache_from = [], build_options = [''--pull'', ''--network'', ''host'']\<rparr>,
     dockerfile_options = \<lparr>opt_workspace_folder = None, opt_workspace_mount = None,
       opt_run_args = [''--tmpfs=/cache''], opt_shutdown_action = None, opt_override_command = None\<rparr>\<rparr>\<rparr>"

lemma sample_repository:
  "RepositoryPath_parse ''.devcontainer'' = Some (RepositoryPath ''.devcontainer'')"
  "resolve_repository_path ''.devcontainer'' ''Dockerfile'' = Some (RepositoryPath ''.devcontainer/Dockerfile'')"
  "resolve_repository_path ''.devcontainer'' ''..'' = Some (RepositoryPath ''.'')"
  by (simp_all add: RepositoryPath_parse_def resolve_repository_path_def path_eval)

lemma sample_build_options: "validate_build_options [''--pull'', ''--network'', ''host''] = Ok ()"
  unfolding validate_build_options_def build_options_loop_accepted
  by (simp add: flag_permitted_def consumes_next_def build_option_takes_value_def reserved_long_def
    reserved_short_def short_flags_def strip_prefix_def is_some_and_def)

lemma sample_cache: "ContainerPath_parse ''/cache'' = Ok (ContainerPath ''/cache'')"
  by (simp add: path_eval)

lemma sample_run_arguments:
  assumes "planned_target (workspace_mount (plan_workspace runtime)) = ContainerPath ''/workspaces/app''"
    and "map planned_target (plan_mounts runtime) = [ContainerPath ''/data'']"
  shows "validate_run_arguments [''--tmpfs=/cache''] [''--tmpfs=/cache''] runtime [ContainerPath ''/opt/cdenv''] = Ok ()"
  using assms
  by (simp add: validate_run_arguments_def check_run_argument_def reserved_create_setting_def reserved_long_def
    reserved_short_def reserved_attach_short_def short_flags_def strip_prefix_def is_some_and_def option_value_def
    check_mount_option_def tmpfs_target_def reject_mount_target_def sample_cache path_contains_def)

lemma sample_docker_plan:
  assumes "planned_target (workspace_mount (plan_workspace runtime)) = ContainerPath ''/workspaces/app''"
    and "map planned_target (plan_mounts runtime) = [ContainerPath ''/data'']"
  shows "\<exists>p. plan_docker_options (\<lambda>_. None) (\<lambda>_. []) (\<lambda>s. s) sample_docker_profile runtime ''.devcontainer'' ctx
    (cdenv_owned_targets sample_planning) = Ok \<lparr>docker_build = DockerfileBuild p, run_arguments = [''--tmpfs=/cache'']\<rparr>"
proof -
  have "substitute_run_arguments (\<lambda>_. None) (\<lambda>_. []) [''--tmpfs=/cache''] ctx = Ok [''--tmpfs=/cache'']"
    by (simp add: substitute_run_arguments_def substitute_literal DeferredString_resolve_def segment_value_def)
  moreover have "\<exists>p. plan_dockerfile_build (\<lambda>_. None) (\<lambda>_. []) (\<lambda>s. s) (RepositoryPath ''.devcontainer'') ctx
      \<lparr>dockerfile = ''Dockerfile'', build_context = Some ''..'', build_target = None, build_args = [],
       cache_from = [], build_options = [''--pull'', ''--network'', ''host'']\<rparr> = Ok p"
    by (simp add: plan_dockerfile_build_def sample_build_options sample_repository)
  ultimately show ?thesis
    by (auto simp: plan_docker_options_def sample_docker_profile_def sample_repository sample_fields
      sample_run_arguments [OF assms])
qed


text \<open>A reserved short option is found only at the start of a group: \<^verbatim>\<open>-Pu root\<close> sets the user.\<close>

lemma clustered_user_accepted: "validate_run_arguments [''-Pu'', ''root''] [''-Pu'', ''root''] runtime owned = Ok ()"
  by (simp add: validate_run_arguments_def check_run_argument_def reserved_create_setting_def reserved_long_def
    reserved_short_def reserved_attach_short_def short_flags_def strip_prefix_def is_some_and_def option_value_def
    check_mount_option_def upt_rec)

end
