(* ===== verification/Ports.thy ===== *)
theory Ports
  imports Net Metadata
begin

text \<open>
  \<^verbatim>\<open>crates/cdenv-devcontainer/src/ports.rs\<close>: the plan of published and forwarded ports. A publication is
  given a meaning, the sockets of the host that it takes, and the pairwise conflict test is
  compared with it. The JSON text of a string, used in the path of a warning, is a parameter.
\<close>

section \<open>Ports and publications\<close>

datatype port_number = PortNumber (port_get: "16 word")

definition PortNumber_new :: "16 word \<Rightarrow> port_number option" where
  "PortNumber_new v = (if v = 0 then None else Some (PortNumber v))"

record port_range =
  range_start :: port_number
  range_end :: port_number

definition range_overlaps :: "port_range \<Rightarrow> port_range \<Rightarrow> bool" where
  "range_overlaps r s \<longleftrightarrow> port_get (range_start r) \<le> port_get (range_end s) \<and>
     port_get (range_start s) \<le> port_get (range_end r)"

definition range_width :: "port_range \<Rightarrow> 16 word" where
  "range_width r = port_get (range_end r) - port_get (range_start r)"

datatype publication_protocol = Tcp | Udp | Sctp

datatype publication_binding = Loopback ip_addr | NonLoopback ip_addr | AllInterfaces

definition may_expose_non_loopback :: "publication_binding \<Rightarrow> bool" where
  "may_expose_non_loopback b \<longleftrightarrow> (case b of Loopback _ \<Rightarrow> False | _ \<Rightarrow> True)"

definition address_family :: "publication_binding \<Rightarrow> bool option" where
  "address_family b =
     (let is_v6 = (\<lambda>a. case a of V6 _ \<Rightarrow> True | V4 _ _ _ _ \<Rightarrow> False) in
      case b of Loopback a \<Rightarrow> Some (is_v6 a) | NonLoopback a \<Rightarrow> Some (is_v6 a) | AllInterfaces \<Rightarrow> None)"

record publication_request =
  pub_argument :: string
  pub_binding :: publication_binding
  pub_host_ports :: "port_range option"
  pub_container_ports :: port_range
  pub_protocol :: publication_protocol

datatype forward_target_host = ContainerLoopback | ComposeService string

record effective_port_attributes =
  attr_on_auto_forward :: auto_forward_action
  attr_elevate :: bool
  attr_label :: "string option"
  attr_require_local_port :: bool
  attr_protocol :: "port_protocol option"

record forward_request =
  requested_local :: port_number
  assigned_local :: "port_number option"
  target_host :: forward_target_host
  target_port :: port_number
  forward_attributes :: effective_port_attributes

datatype port_planning_warning_kind =
    NonLoopbackPublication | DeferredDiscovery | ExplicitForwardOverridesIgnore
  | BrowserLaunchSuppressed | EmbeddedPreviewUnsupported

record port_planning_warning =
  port_warning_path :: string
  port_warning_kind :: port_planning_warning_kind

record port_plan =
  publications :: "publication_request list"
  forwards :: "forward_request list"
  port_warnings :: "port_planning_warning list"

datatype port_planning_error_kind =
    InvalidPort | InvalidPublication | PublicationConflict | ForwardConflict | ServiceTargetOutsideCompose

record port_planning_error =
  port_error_path :: string
  port_error_kind :: port_planning_error_kind
  port_error_message :: string

definition port_error :: "string \<Rightarrow> port_planning_error_kind \<Rightarrow> string \<Rightarrow> port_planning_error" where
  "port_error p k m = \<lparr>port_error_path = p, port_error_kind = k, port_error_message = m\<rparr>"

definition port_warning :: "string \<Rightarrow> port_planning_warning_kind \<Rightarrow> port_planning_warning" where
  "port_warning p k = \<lparr>port_warning_path = p, port_warning_kind = k\<rparr>"

section \<open>Publication syntax\<close>

definition invalid_publication :: "string \<Rightarrow> port_planning_error" where
  "invalid_publication path = port_error path InvalidPublication
     ''invalid Docker publication; use [host-address:]host-port:container-port[/protocol]''"

definition app_port_path :: "nat \<Rightarrow> nat \<Rightarrow> string" where
  "app_port_path count index = (if count = 1 then ''$.appPort'' else ''$.appPort['' @ nat_str index @ '']'')"

definition numeric_publication :: "16 word \<Rightarrow> string \<Rightarrow> (publication_request, port_planning_error) result" where
  "numeric_publication v path =
     (case PortNumber_new v of
        None \<Rightarrow> Err (port_error path InvalidPort ''publication port must be between 1 and 65535'')
      | Some port \<Rightarrow>
          let range = \<lparr>range_start = port, range_end = port\<rparr>; t = nat_str (unat (port_get port))
          in Ok \<lparr>pub_argument = ''127.0.0.1:'' @ t @ '':'' @ t, pub_binding = Loopback (V4 127 0 0 1),
               pub_host_ports = Some range, pub_container_ports = range, pub_protocol = Tcp\<rparr>)"

definition parse_port :: "string \<Rightarrow> port_number option" where
  "parse_port s = Option.bind (parse_uint 16 s) (\<lambda>n. PortNumber_new (of_nat n))"

definition parse_range :: "string \<Rightarrow> port_range option" where
  "parse_range v =
     (let (s, e) = (case split_once (CHR ''-'') v of None \<Rightarrow> (v, v) | Some p \<Rightarrow> p) in
      case (parse_port s, parse_port e) of
        (Some a, Some b) \<Rightarrow> if port_get a \<le> port_get b then Some \<lparr>range_start = a, range_end = b\<rparr> else None
      | _ \<Rightarrow> None)"

definition binding_of :: "ip_addr \<Rightarrow> publication_binding" where
  "binding_of a = (if is_loopback a then Loopback a else NonLoopback a)"

definition publication_protocol_of :: "string \<Rightarrow> (string \<times> publication_protocol) option" where
  "publication_protocol_of argument =
     (case rsplit_once (CHR ''/'') argument of
        None \<Rightarrow> Some (argument, Tcp)
      | Some (v, p) \<Rightarrow>
          if p = ''tcp'' then Some (v, Tcp) else if p = ''udp'' then Some (v, Udp)
          else if p = ''sctp'' then Some (v, Sctp) else None)"

text \<open>Address, host ports and container ports of a publication without its protocol.\<close>

definition publication_fields :: "string \<Rightarrow> (publication_binding \<times> string \<times> string) option" where
  "publication_fields v =
     (case strip_prefix ''['' v of
        Some rest \<Rightarrow>
          (case split_once_str '']:'' rest of
             None \<Rightarrow> None
           | Some (address, ports) \<Rightarrow>
               (case parse_ip_addr address of
                  Some (V6 w) \<Rightarrow>
                    let (host, container) = (case split_once (CHR '':'') ports of None \<Rightarrow> ([], ports) | Some p \<Rightarrow> p)
                    in Some (binding_of (V6 w), host, container)
                | _ \<Rightarrow> None))
      | None \<Rightarrow>
          (case split_on (CHR '':'') v of
             [container] \<Rightarrow> Some (AllInterfaces, [], container)
           | [address_or_host, container] \<Rightarrow>
               (case parse_ip_addr address_or_host of
                  Some a \<Rightarrow> Some (binding_of a, [], container)
                | None \<Rightarrow> Some (AllInterfaces, address_or_host, container))
           | [address, host, container] \<Rightarrow>
               if address = [] then Some (AllInterfaces, host, container)
               else map_option (\<lambda>a. (binding_of a, host, container)) (parse_ip_addr address)
           | _ \<Rightarrow> None))"

definition parse_publication :: "string \<Rightarrow> string \<Rightarrow> (publication_request, port_planning_error) result" where
  "parse_publication argument path =
     ok_or (invalid_publication path)
      (if argument = [] \<or> list_ex is_whitespace (chars argument) then None
       else Option.bind (publication_protocol_of argument) (\<lambda>(v, protocol).
         Option.bind (publication_fields v) (\<lambda>(binding, host, container).
         Option.bind (parse_range container) (\<lambda>cports.
         Option.bind (if host = [] then Some None else map_option Some (parse_range host)) (\<lambda>hports.
         if is_some_and hports (\<lambda>r. range_width r \<noteq> range_width cports) then None
         else Some \<lparr>pub_argument = argument, pub_binding = binding, pub_host_ports = hports,
           pub_container_ports = cports, pub_protocol = protocol\<rparr>)))))"

section \<open>Conflicts and attributes\<close>

definition bindings_overlap :: "publication_binding \<Rightarrow> publication_binding \<Rightarrow> bool" where
  "bindings_overlap b c \<longleftrightarrow>
     (case (address_family b, address_family c) of
        (Some v, Some w) \<Rightarrow> v = w \<and> (b = AllInterfaces \<or> c = AllInterfaces \<or> b = c)
      | _ \<Rightarrow> b = AllInterfaces \<or> c = AllInterfaces \<or> b = c)"

definition publications_conflict :: "publication_request \<Rightarrow> publication_request \<Rightarrow> bool" where
  "publications_conflict p q \<longleftrightarrow> pub_protocol p = pub_protocol q \<and>
     (case (pub_host_ports p, pub_host_ports q) of
        (Some r, Some s) \<Rightarrow> range_overlaps r s \<and> bindings_overlap (pub_binding p) (pub_binding q)
      | _ \<Rightarrow> False)"

datatype attribute_key_kind = ExactKey | DeferredKey | InvalidPortKey

definition valid_service_name :: "string \<Rightarrow> bool" where
  "valid_service_name v \<longleftrightarrow> v \<noteq> [] \<and>
     all_bytes (\<lambda>b. is_ascii_lowercase b \<or> is_ascii_digit b \<or> b = 45) v"

definition attribute_key_kind_of :: "string \<Rightarrow> attribute_key_kind" where
  "attribute_key_kind_of key =
     (let port_kind = (\<lambda>p. if is_some_and (parse_uint 16 p) (\<lambda>n. 0 < n) then ExactKey else InvalidPortKey) in
      if key \<noteq> [] \<and> all_bytes is_ascii_digit key then port_kind key
      else (case rsplit_once (CHR '':'') key of
              Some (service, port) \<Rightarrow>
                if valid_service_name service \<and> all_bytes is_ascii_digit port then port_kind port else DeferredKey
            | None \<Rightarrow> DeferredKey))"

definition EffectivePortAttributes_default :: effective_port_attributes where
  "EffectivePortAttributes_default = \<lparr>attr_on_auto_forward = Notify, attr_elevate = False, attr_label = None,
     attr_require_local_port = False, attr_protocol = None\<rparr>"

definition EffectivePortAttributes_from :: "port_attributes \<Rightarrow> effective_port_attributes" where
  "EffectivePortAttributes_from v = \<lparr>attr_on_auto_forward = option_or (on_auto_forward v) Notify,
     attr_elevate = option_or (elevate_if_needed v) False, attr_label = port_label v,
     attr_require_local_port = option_or (require_local_port v) False,
     attr_protocol = port_protocol_hint v\<rparr>"

section \<open>The plan\<close>

fun plan_publications ::
    "nat \<Rightarrow> nat \<Rightarrow> app_port list \<Rightarrow> publication_request list \<Rightarrow> port_planning_warning list \<Rightarrow>
      (publication_request list \<times> port_planning_warning list, port_planning_error) result" where
  "plan_publications count index [] pubs warns = Ok (pubs, warns)"
| "plan_publications count index (port # ports) pubs warns =
     (let path = app_port_path count index in
      and_then (case port of NumberPort p \<Rightarrow> numeric_publication p path
                | DockerArgument a \<Rightarrow> parse_publication a path) (\<lambda>pub.
      let warns = (if may_expose_non_loopback (pub_binding pub)
                   then warns @ [port_warning path NonLoopbackPublication] else warns)
      in if list_ex (\<lambda>existing. publications_conflict existing pub) pubs
         then Err (port_error path PublicationConflict ''publication conflicts with an earlier fixed host binding'')
         else plan_publications count (Suc index) ports (pubs @ [pub]) warns))"

fun attribute_warnings ::
    "(string \<Rightarrow> string) \<Rightarrow> string list \<Rightarrow> port_planning_warning list \<Rightarrow>
      (port_planning_warning list, port_planning_error) result" where
  "attribute_warnings json_string [] warns = Ok warns"
| "attribute_warnings json_string (key # keys) warns =
     (let path = ''$.portsAttributes['' @ json_string key @ '']'' in
      case attribute_key_kind_of key of
        ExactKey \<Rightarrow> attribute_warnings json_string keys warns
      | DeferredKey \<Rightarrow> attribute_warnings json_string keys (warns @ [port_warning path DeferredDiscovery])
      | InvalidPortKey \<Rightarrow> Err (port_error path InvalidPort
          ''port attribute key contains a port outside 1 through 65535''))"

definition push_forward_warning ::
    "string \<Rightarrow> auto_forward_action \<Rightarrow> port_planning_warning list \<Rightarrow> port_planning_warning list" where
  "push_forward_warning path action warns =
     (case action of
        Ignore \<Rightarrow> warns @ [port_warning path ExplicitForwardOverridesIgnore]
      | OpenBrowser \<Rightarrow> warns @ [port_warning path BrowserLaunchSuppressed]
      | OpenBrowserOnce \<Rightarrow> warns @ [port_warning path BrowserLaunchSuppressed]
      | OpenPreview \<Rightarrow> warns @ [port_warning path EmbeddedPreviewUnsupported]
      | Notify \<Rightarrow> warns
      | Silent \<Rightarrow> warns)"

definition forward_target ::
    "bool \<Rightarrow> string \<Rightarrow> forward_port \<Rightarrow> (forward_target_host \<times> 16 word \<times> string option, port_planning_error) result" where
  "forward_target compose path f =
     (case f of
        ContainerPort p \<Rightarrow> Ok (ContainerLoopback, p, None)
      | ServicePort service p \<Rightarrow>
          if compose then Ok (ComposeService service, p, Some (service @ '':'' @ nat_str (unat p)))
          else Err (port_error path ServiceTargetOutsideCompose
            ''service forwarding targets require a Compose scenario''))"

definition forward_attributes_of ::
    "(string, port_attributes) btree \<Rightarrow> string option \<Rightarrow> port_number \<Rightarrow> effective_port_attributes" where
  "forward_attributes_of attrs service_key port =
     (case (case Option.bind service_key (bt_get attrs) of
              Some a \<Rightarrow> Some a | None \<Rightarrow> bt_get attrs (nat_str (unat (port_get port)))) of
        None \<Rightarrow> EffectivePortAttributes_default
      | Some a \<Rightarrow> EffectivePortAttributes_from a)"

fun plan_forwards ::
    "bool \<Rightarrow> (string, port_attributes) btree \<Rightarrow> nat \<Rightarrow> forward_port list \<Rightarrow> forward_request list \<Rightarrow>
      port_planning_warning list \<Rightarrow>
      (forward_request list \<times> port_planning_warning list, port_planning_error) result" where
  "plan_forwards compose attrs index [] fwds warns = Ok (fwds, warns)"
| "plan_forwards compose attrs index (f # fs) fwds warns =
     (let path = ''$.forwardPorts['' @ nat_str index @ '']'' in
      and_then (forward_target compose path f) (\<lambda>(host, p, service_key).
      and_then (ok_or (port_error path InvalidPort ''forward port must be between 1 and 65535'')
          (PortNumber_new p)) (\<lambda>port.
      if list_ex (\<lambda>existing. requested_local existing = port) fwds
      then Err (port_error path ForwardConflict ''multiple forwards request the same local port'')
      else let attributes = forward_attributes_of attrs service_key port in
        plan_forwards compose attrs (Suc index) fs
          (fwds @ [\<lparr>requested_local = port, assigned_local = None, target_host = host, target_port = port,
             forward_attributes = attributes\<rparr>])
          (push_forward_warning path (attr_on_auto_forward attributes) warns))))"

definition plan_ports ::
    "(string \<Rightarrow> string) \<Rightarrow> raw_profile \<Rightarrow> effective_metadata \<Rightarrow> (port_plan, port_planning_error) result" where
  "plan_ports json_string profile eff =
     (let ports = app_ports (common profile) in
      and_then (plan_publications (length ports) 0 ports [] []) (\<lambda>(pubs, warns).
      and_then (attribute_warnings json_string (bt_keys (eff_ports_attributes eff)) warns) (\<lambda>warns.
      let warns = (if eff_other_ports_attributes eff \<noteq> None
                   then warns @ [port_warning ''$.otherPortsAttributes'' DeferredDiscovery] else warns)
      in and_then (plan_forwards (case scenario profile of ComposeScenario _ \<Rightarrow> True | _ \<Rightarrow> False)
           (eff_ports_attributes eff) 0 (eff_forward_ports eff) [] warns) (\<lambda>(fwds, warns).
      Ok \<lparr>publications = pubs, forwards = fwds, port_warnings = warns\<rparr>))))"

record forwarding_render_input =
  render_requested :: port_number
  render_assigned :: "port_number option"
  render_target_host :: forward_target_host
  render_target_port :: port_number
  render_label :: "string option"
  render_protocol :: "port_protocol option"
  render_url :: "string option"

definition rendering_inputs :: "port_plan \<Rightarrow> forwarding_render_input list" where
  "rendering_inputs plan = map (\<lambda>f. \<lparr>render_requested = requested_local f, render_assigned = assigned_local f,
     render_target_host = target_host f, render_target_port = target_port f,
     render_label = attr_label (forward_attributes f), render_protocol = attr_protocol (forward_attributes f),
     render_url = Option.bind (assigned_local f) (\<lambda>assigned.
       map_option (\<lambda>protocol. (case protocol of Http \<Rightarrow> ''http'' | Https \<Rightarrow> ''https'') @
           ''://127.0.0.1:'' @ nat_str (unat (port_get assigned)))
         (attr_protocol (forward_attributes f)))\<rparr>) (forwards plan)"

section \<open>The sockets of a publication\<close>

definition bound_addresses :: "publication_binding \<Rightarrow> ip_addr set" where
  "bound_addresses b = (case b of Loopback a \<Rightarrow> {a} | NonLoopback a \<Rightarrow> {a} | AllInterfaces \<Rightarrow> UNIV)"

definition sockets :: "publication_request \<Rightarrow> (publication_protocol \<times> ip_addr \<times> 16 word) set" where
  "sockets p =
     (case pub_host_ports p of
        None \<Rightarrow> {}
      | Some r \<Rightarrow> {pub_protocol p} \<times> bound_addresses (pub_binding p) \<times>
          {port_get (range_start r)..port_get (range_end r)})"

definition range_ok :: "port_range \<Rightarrow> bool" where
  "range_ok r \<longleftrightarrow> port_get (range_start r) \<noteq> 0 \<and> port_get (range_start r) \<le> port_get (range_end r)"

definition binding_ok :: "publication_binding \<Rightarrow> bool" where
  "binding_ok b \<longleftrightarrow> (case b of Loopback a \<Rightarrow> is_loopback a | NonLoopback a \<Rightarrow> \<not> is_loopback a | AllInterfaces \<Rightarrow> True)"

definition publication_ok :: "publication_request \<Rightarrow> bool" where
  "publication_ok p \<longleftrightarrow> binding_ok (pub_binding p) \<and> range_ok (pub_container_ports p) \<and>
     (\<forall>r. pub_host_ports p = Some r \<longrightarrow> range_ok r \<and> range_width r = range_width (pub_container_ports p))"

lemma range_overlaps_iff:
  assumes "range_ok r" "range_ok s"
  shows "range_overlaps r s \<longleftrightarrow>
    {port_get (range_start r)..port_get (range_end r)} \<inter> {port_get (range_start s)..port_get (range_end s)} \<noteq> {}"
  using assms by (auto simp: range_overlaps_def range_ok_def)

lemma bindings_overlap_iff:
  assumes "binding_ok b" "binding_ok c"
  shows "bindings_overlap b c \<longleftrightarrow> bound_addresses b \<inter> bound_addresses c \<noteq> {}"
  using assms
  by (cases b; cases c) (auto simp: bindings_overlap_def bound_addresses_def binding_ok_def address_family_def Let_def)

lemma publications_conflict_iff:
  assumes "publication_ok p" "publication_ok q"
  shows "publications_conflict p q \<longleftrightarrow> sockets p \<inter> sockets q \<noteq> {}"
proof (cases "pub_host_ports p"; cases "pub_host_ports q")
  fix r s
  assume h: "pub_host_ports p = Some r" "pub_host_ports q = Some s"
  with assms have ok: "range_ok r" "range_ok s" "binding_ok (pub_binding p)" "binding_ok (pub_binding q)"
    by (auto simp: publication_ok_def)
  have "publications_conflict p q \<longleftrightarrow> pub_protocol p = pub_protocol q \<and> range_overlaps r s \<and>
      bindings_overlap (pub_binding p) (pub_binding q)"
    by (simp add: publications_conflict_def h)
  then show ?thesis unfolding range_overlaps_iff [OF ok(1,2)] bindings_overlap_iff [OF ok(3,4)]
    by (auto simp: sockets_def h Times_Int_Times)
qed (auto simp: publications_conflict_def sockets_def)

lemma PortNumber_new_Some [simp]: "PortNumber_new v = Some p \<longleftrightarrow> v \<noteq> 0 \<and> p = PortNumber v"
  by (auto simp: PortNumber_new_def)

lemma parse_port_nonzero: "parse_port s = Some p \<Longrightarrow> port_get p \<noteq> 0"
  by (auto simp: parse_port_def bind_eq_Some_conv)

lemma parse_range_ok: "parse_range v = Some r \<Longrightarrow> range_ok r"
  by (auto simp: parse_range_def range_ok_def Let_def split: option.splits prod.splits if_splits dest: parse_port_nonzero)

lemma numeric_publication_ok: "numeric_publication v path = Ok p \<Longrightarrow> publication_ok p"
  by (auto simp: numeric_publication_def publication_ok_def binding_ok_def range_ok_def Let_def split: option.splits)

lemma binding_of_ok [simp]: "binding_ok (binding_of a)"
  by (simp add: binding_ok_def binding_of_def)

lemma publication_fields_ok: "publication_fields v = Some (b, h, c) \<Longrightarrow> binding_ok b"
  by (auto simp: publication_fields_def Let_def binding_ok_def [of AllInterfaces]
    split: option.splits list.splits ip_addr.splits prod.splits if_splits)

lemma parse_publication_ok: "parse_publication argument path = Ok p \<Longrightarrow> publication_ok p"
  by (auto simp: parse_publication_def bind_eq_Some_conv publication_ok_def is_some_and_iff
    split: if_splits dest: publication_fields_ok parse_range_ok)

section \<open>Plans\<close>

definition pairwise_clear :: "publication_request list \<Rightarrow> bool" where
  "pairwise_clear ps \<longleftrightarrow> (\<forall>j < length ps. \<forall>i < j. sockets (ps ! i) \<inter> sockets (ps ! j) = {})"

definition exposed :: "publication_request \<Rightarrow> bool" where
  "exposed p \<longleftrightarrow> (\<exists>a \<in> bound_addresses (pub_binding p). \<not> is_loopback a)"

lemma exposed_iff: "publication_ok p \<Longrightarrow> may_expose_non_loopback (pub_binding p) \<longleftrightarrow> exposed p"
  by (auto simp: publication_ok_def binding_ok_def exposed_def may_expose_non_loopback_def bound_addresses_def
    intro: exI [of _ "V6 0"] split: publication_binding.splits)

lemma pairwise_clear_snoc:
  "pairwise_clear (ps @ [p]) \<longleftrightarrow> pairwise_clear ps \<and> (\<forall>q \<in> set ps. sockets q \<inter> sockets p = {})"
  by (fastforce simp: pairwise_clear_def nth_append less_Suc_eq in_set_conv_nth)

definition planned_publications :: "nat \<Rightarrow> publication_request list \<Rightarrow> port_planning_warning list \<Rightarrow> bool" where
  "planned_publications count ps warns \<longleftrightarrow> list_all publication_ok ps \<and> pairwise_clear ps \<and>
     (\<forall>i < length ps. exposed (ps ! i) \<longrightarrow> port_warning (app_port_path count i) NonLoopbackPublication \<in> set warns)"

lemma plan_publications_Ok:
  "plan_publications count index ports pubs warns = Ok (ps, ws) \<Longrightarrow> index = length pubs \<Longrightarrow>
    planned_publications count pubs warns \<Longrightarrow>
    planned_publications count ps ws \<and> length ps = length pubs + length ports"
proof (induction ports arbitrary: index pubs warns)
  case (Cons port ports)
  let ?path = "app_port_path count index"
  from Cons.prems(1) obtain pub ws' where pub: "(case port of NumberPort p \<Rightarrow> numeric_publication p ?path
      | DockerArgument a \<Rightarrow> parse_publication a ?path) = Ok pub"
    "ws' = (if may_expose_non_loopback (pub_binding pub)
      then warns @ [port_warning ?path NonLoopbackPublication] else warns)"
    "\<not> list_ex (\<lambda>existing. publications_conflict existing pub) pubs"
    "plan_publications count (Suc index) ports (pubs @ [pub]) ws' = Ok (ps, ws)"
    by (auto simp: Let_def elim!: and_then_OkE split: if_splits)
  have ok: "publication_ok pub" using pub(1) numeric_publication_ok parse_publication_ok
    by (cases port) auto
  have "planned_publications count (pubs @ [pub]) ws'"
    using Cons.prems(2,3) pub(2,3) ok exposed_iff [OF ok]
    by (auto simp: planned_publications_def pairwise_clear_snoc list_all_iff list_ex_iff nth_append less_Suc_eq
      publications_conflict_iff)
  with Cons.IH [OF pub(4)] Cons.prems(2) show ?case by simp
qed simp

definition forward_planned :: "bool \<Rightarrow> forward_port \<Rightarrow> forward_request \<Rightarrow> bool" where
  "forward_planned compose f r \<longleftrightarrow> assigned_local r = None \<and> target_port r = requested_local r \<and>
     port_get (requested_local r) \<noteq> 0 \<and>
     (case f of
        ContainerPort p \<Rightarrow> target_host r = ContainerLoopback \<and> port_get (requested_local r) = p
      | ServicePort service p \<Rightarrow> compose \<and> target_host r = ComposeService service \<and> port_get (requested_local r) = p)"

lemma plan_forwards_Ok:
  "plan_forwards compose attrs index fs fwds warns = Ok (rs, ws) \<Longrightarrow> distinct (map requested_local fwds) \<Longrightarrow>
    (\<exists>new. rs = fwds @ new \<and> list_all2 (forward_planned compose) fs new) \<and> distinct (map requested_local rs) \<and>
    set warns \<subseteq> set ws"
proof (induction fs arbitrary: index fwds warns)
  case (Cons f fs)
  let ?path = "''$.forwardPorts['' @ nat_str index @ '']''"
  from Cons.prems(1) obtain host p key where f: "forward_target compose ?path f = Ok (host, p, key)"
    "p \<noteq> 0" "\<not> list_ex (\<lambda>existing. requested_local existing = PortNumber p) fwds"
    "plan_forwards compose attrs (Suc index) fs (fwds @ [\<lparr>requested_local = PortNumber p, assigned_local = None,
        target_host = host, target_port = PortNumber p,
        forward_attributes = forward_attributes_of attrs key (PortNumber p)\<rparr>])
      (push_forward_warning ?path (attr_on_auto_forward (forward_attributes_of attrs key (PortNumber p))) warns) =
      Ok (rs, ws)" (is "plan_forwards _ _ _ _ (_ @ [?r]) ?ws = _")
    by (auto simp: Let_def elim!: and_then_OkE split: if_splits)
  have "forward_planned compose f ?r"
    using f(1,2) by (cases f) (auto simp: forward_target_def forward_planned_def split: if_splits)
  moreover have "distinct (map requested_local (fwds @ [?r]))"
    using Cons.prems(2) f(3) by (auto simp: list_ex_iff)
  moreover have "set warns \<subseteq> set ?ws"
    by (auto simp: push_forward_warning_def split: auto_forward_action.splits)
  ultimately show ?case using Cons.IH [OF f(4)] by (auto simp: list_all2_Cons1)
qed simp

lemma attribute_warnings_Ok: "attribute_warnings json_string keys warns = Ok ws \<Longrightarrow> set warns \<subseteq> set ws"
  by (induction keys arbitrary: warns) (auto simp: Let_def split: attribute_key_kind.splits, fastforce)


definition sample_port_profile :: raw_profile where
  "sample_port_profile = sample_profile\<lparr>common := RawCommon_default\<lparr>app_ports := [NumberPort 8080, NumberPort 9090]\<rparr>\<rparr>"

definition sample_port_metadata :: effective_metadata where
  "sample_port_metadata = \<lparr>eff_init = None, eff_privileged = None, eff_cap_add = [], eff_security_opt = [],
     eff_entrypoints = [], eff_mounts = [], eff_lifecycle = EffectiveLifecycle_default, eff_container_user = None,
     eff_remote_user = None, eff_user_env_probe = None, eff_update_remote_user_uid = None,
     eff_override_command = None, eff_wait_for = None, eff_shutdown_action = None, eff_container_env = [],
     eff_remote_env = [], eff_ports_attributes = [], eff_other_ports_attributes = None,
     eff_forward_ports = [ContainerPort 3000], eff_host_requirements = None, eff_customizations = []\<rparr>"


text \<open>
  The meaning of a publication takes an explicit address for one interface. The unspecified
  address binds every interface, and its overlap with another address is not seen.
\<close>

lemma unspecified_address_overlap_missed:
  "\<not> bindings_overlap (binding_of (V4 0 0 0 0)) (binding_of (V4 127 0 0 1))"
  by (simp add: bindings_overlap_def binding_of_def address_family_def)

end
