(* ===== verification/Profile_Validation.thy ===== *)
theory Profile_Validation
  imports Profile Feature_Reference
begin

text \<open>
  The validation of \<^verbatim>\<open>crates/cdenv-devcontainer/src/profile.rs\<close>: from the JSON value of a document to the
  typed profile. An error carries its kind, its property path as segments, the rejected value and
  the message; the source span that the code looks up for the path belongs to the parsed document
  and is left out.
\<close>

section \<open>Errors and paths\<close>

datatype profile_error_kind =
    InvalidType | MissingProperty | UnknownProperty | UnsupportedValue | InvalidValue | ScenarioConflict

record profile_error =
  profile_error_kind_of :: profile_error_kind
  profile_error_path :: "path_segment list"
  profile_error_value :: "json option"
  profile_error_message :: string

definition profile_error_at ::
    "profile_error_kind \<Rightarrow> path_segment list \<Rightarrow> json option \<Rightarrow> string \<Rightarrow> profile_error" where
  "profile_error_at k p v m = \<lparr>profile_error_kind_of = k, profile_error_path = p, profile_error_value = v,
     profile_error_message = m\<rparr>"

abbreviation type_error :: "path_segment list \<Rightarrow> json \<Rightarrow> string \<Rightarrow> profile_error" where
  "type_error p v m \<equiv> profile_error_at InvalidType p (Some v) m"

abbreviation invalid_value :: "path_segment list \<Rightarrow> json \<Rightarrow> string \<Rightarrow> profile_error" where
  "invalid_value p v m \<equiv> profile_error_at InvalidValue p (Some v) m"

abbreviation unsupported_value :: "path_segment list \<Rightarrow> json \<Rightarrow> string \<Rightarrow> profile_error" where
  "unsupported_value p v m \<equiv> profile_error_at UnsupportedValue p (Some v) m"

definition keyed :: "path_segment list \<Rightarrow> string \<Rightarrow> path_segment list" where
  "keyed parent key = parent @ [Key key]"

definition member_path :: "path_segment list \<Rightarrow> string \<Rightarrow> path_segment list" where
  "member_path parent key =
     (if all_bytes (\<lambda>b. b = 95 \<or> is_ascii_alphanumeric b) key \<and> key \<noteq> [] then parent @ [Member key]
      else keyed parent key)"

definition index_path :: "path_segment list \<Rightarrow> nat \<Rightarrow> path_segment list" where
  "index_path parent i = parent @ [Index i]"

definition valid_env_name :: "string \<Rightarrow> bool" where
  "valid_env_name name \<longleftrightarrow> name \<noteq> [] \<and>
     (byte (hd name) = 95 \<or> is_ascii_alphabetic (byte (hd name))) \<and>
     all_bytes (\<lambda>b. b = 95 \<or> is_ascii_alphanumeric b) (tl name)"

section \<open>Typed access\<close>

type_synonym 'a checked = "('a, profile_error) result"
type_synonym json_object = "(string, json) btree"

definition optionally :: "('a \<Rightarrow> 'b checked) \<Rightarrow> 'a option \<Rightarrow> 'b option checked" where
  "optionally f v = (case v of None \<Rightarrow> Ok None | Some x \<Rightarrow> map_ok Some (f x))"

definition Validator_object :: "path_segment list \<Rightarrow> json \<Rightarrow> json_object checked" where
  "Validator_object p v = ok_or (type_error p v ''expected an object'') (as_object v)"

definition Validator_array :: "path_segment list \<Rightarrow> json \<Rightarrow> json list checked" where
  "Validator_array p v = ok_or (type_error p v ''expected an array'') (as_array v)"

definition Validator_string :: "path_segment list \<Rightarrow> json \<Rightarrow> string checked" where
  "Validator_string p v = ok_or (type_error p v ''expected a string'') (as_str v)"

definition optional_string_at :: "json_object \<Rightarrow> path_segment list \<Rightarrow> string \<Rightarrow> string option checked" where
  "optional_string_at obj parent key = optionally (Validator_string (member_path parent key)) (bt_get obj key)"

definition required_string_at :: "json_object \<Rightarrow> path_segment list \<Rightarrow> string \<Rightarrow> string checked" where
  "required_string_at obj parent key =
     (let p = member_path parent key in
      and_then (ok_or (profile_error_at MissingProperty p None ''required property is missing'') (bt_get obj key)) (\<lambda>v.
      and_then (Validator_string p v) (\<lambda>s.
      if s = [] then Err (invalid_value p (JString s) ''value must not be empty'') else Ok s)))"

definition optional_bool_at :: "json_object \<Rightarrow> path_segment list \<Rightarrow> string \<Rightarrow> bool option checked" where
  "optional_bool_at obj parent key =
     optionally (\<lambda>v. ok_or (type_error (member_path parent key) v ''expected a boolean'') (as_bool v)) (bt_get obj key)"

definition string_elements :: "path_segment list \<Rightarrow> json list \<Rightarrow> string list checked" where
  "string_elements p vs = collect_results (\<lambda>(i, v). Validator_string (index_path p i) v) (enumerate 0 vs)"

definition Validator_string_array :: "path_segment list \<Rightarrow> json option \<Rightarrow> string list option checked" where
  "Validator_string_array p = optionally (\<lambda>v. and_then (Validator_array p v) (string_elements p))"

definition strings_or_empty :: "path_segment list \<Rightarrow> json option \<Rightarrow> string list checked" where
  "strings_or_empty p v = map_ok (\<lambda>xs. option_or xs []) (Validator_string_array p v)"

definition one_or_many_strings :: "path_segment list \<Rightarrow> json \<Rightarrow> string list checked" where
  "one_or_many_strings p v =
     (case v of
        JString s \<Rightarrow> Ok [s]
      | JArray vs \<Rightarrow> string_elements p vs
      | _ \<Rightarrow> Err (type_error p v ''expected a string or string array''))"

definition string_or_array :: "path_segment list \<Rightarrow> json option \<Rightarrow> string list checked" where
  "string_or_array p v = map_ok (\<lambda>xs. option_or xs []) (optionally (one_or_many_strings p) v)"

text \<open>An optional object whose entries are read one by one; absent means empty.\<close>

definition object_entries ::
    "path_segment list \<Rightarrow> (string \<times> json \<Rightarrow> (string \<times> 'a) checked) \<Rightarrow> json option \<Rightarrow> (string, 'a) btree checked" where
  "object_entries p f v =
     (case v of
        None \<Rightarrow> Ok []
      | Some w \<Rightarrow> and_then (Validator_object p w) (\<lambda>obj. map_ok bt_of (collect_results f obj)))"

definition Validator_string_map :: "path_segment list \<Rightarrow> json option \<Rightarrow> (string, string) btree checked" where
  "Validator_string_map p = object_entries p (\<lambda>(k, v). map_ok (Pair k) (Validator_string (keyed p k) v))"

definition nullable_string_map :: "path_segment list \<Rightarrow> json option \<Rightarrow> (string, string option) btree checked" where
  "nullable_string_map p = object_entries p (\<lambda>(k, v).
     if v = JNull then Ok (k, None) else map_ok (\<lambda>s. (k, Some s)) (Validator_string (keyed p k) v))"

definition enum_optional_at ::
    "json_object \<Rightarrow> path_segment list \<Rightarrow> string \<Rightarrow> string list \<Rightarrow> (string \<Rightarrow> 'a) \<Rightarrow> 'a option checked" where
  "enum_optional_at obj parent key allowed f =
     optionally (\<lambda>v. let p = member_path parent key in
       and_then (Validator_string p v) (\<lambda>t.
       if t \<notin> set allowed then Err (unsupported_value p v (''supported values are '' @ join '', '' allowed))
       else Ok (f t))) (bt_get obj key)"

definition Validator_port_number :: "path_segment list \<Rightarrow> json \<Rightarrow> 16 word checked" where
  "Validator_port_number p v =
     ok_or (invalid_value p v ''port must be an integer between 1 and 65535'')
       (Option.bind (as_u64 v) (\<lambda>n. if unat n < 2 ^ 16 \<and> 0 < unat n then Some (ucast n) else None))"

definition positive_integer :: "path_segment list \<Rightarrow> json option \<Rightarrow> 64 word option checked" where
  "positive_integer p = optionally (\<lambda>v.
     ok_or (invalid_value p v ''value must be a positive integer'')
       (Option.bind (as_u64 v) (\<lambda>n. if 0 < n then Some n else None)))"

definition byte_requirement :: "path_segment list \<Rightarrow> json option \<Rightarrow> string option checked" where
  "byte_requirement p = optionally (\<lambda>v.
     and_then (ok_or (type_error p v ''expected a byte-size string'') (as_str v)) (\<lambda>t.
     let digits = length (takeWhile (\<lambda>c. is_ascii_digit (byte c)) t) in
     if digits = 0 \<or> drop digits t \<notin> {[], ''kb'', ''mb'', ''gb'', ''tb''}
     then Err (invalid_value p v ''byte size must match digits followed by optional kb, mb, gb, or tb'')
     else Ok t))"

fun reject_unknown :: "path_segment list \<Rightarrow> string list \<Rightarrow> json_object \<Rightarrow> unit checked" where
  "reject_unknown parent allowed [] = Ok ()"
| "reject_unknown parent allowed ((k, v) # obj) =
     (if k \<notin> set allowed
      then Err (profile_error_at UnknownProperty (member_path parent k) (Some v) ''unknown behavioral property'')
      else reject_unknown parent allowed obj)"

fun reject_present :: "json_object \<Rightarrow> string list \<Rightarrow> string \<Rightarrow> unit checked" where
  "reject_present root [] message = Ok ()"
| "reject_present root (name # names) message =
     (case bt_get root name of
        Some v \<Rightarrow> Err (unsupported_value (member_path [] name) v message)
      | None \<Rightarrow> reject_present root names message)"

section \<open>Property values\<close>

definition Validator_feature_source ::
    "feature_url_parser \<Rightarrow> string \<Rightarrow> path_segment list \<Rightarrow> json \<Rightarrow> feature_source checked" where
  "Validator_feature_source url_parse reference p v =
     (case FeatureReference_parse url_parse reference of
        Err e \<Rightarrow> Err (unsupported_value p v
          (''unsupported Feature reference `'' @ rejected e @ ''`: '' @ reason e))
      | Ok (OciReference t) \<Rightarrow> Ok (OciSource t)
      | Ok (HttpsReference t) \<Rightarrow> Ok (HttpsSource t)
      | Ok (LocalReference t) \<Rightarrow> Ok (LocalSource t))"

definition Validator_feature_option ::
    "path_segment list \<Rightarrow> string \<times> json \<Rightarrow> (string \<times> feature_option_value) checked" where
  "Validator_feature_option p = (\<lambda>(name, v).
     case v of
       JBool b \<Rightarrow> Ok (name, BooleanOption b)
     | JString s \<Rightarrow> Ok (name, StringOption s)
     | _ \<Rightarrow> Err (type_error (member_path p name) v ''Feature option must be a boolean or string''))"

definition Validator_feature ::
    "feature_url_parser \<Rightarrow> string \<times> json \<Rightarrow> (string \<times> raw_feature) checked" where
  "Validator_feature url_parse = (\<lambda>(reference, options).
     let p = keyed [Member ''features''] reference in
     and_then (Validator_feature_source url_parse reference p options) (\<lambda>source.
     and_then (Validator_object p options) (\<lambda>obj.
     map_ok (\<lambda>typed. (reference, \<lparr>feature_source_of = source, feature_options = bt_of typed\<rparr>))
       (collect_results (Validator_feature_option p) obj))))"

definition Validator_mount :: "nat \<times> json \<Rightarrow> raw_mount checked" where
  "Validator_mount = (\<lambda>(i, item).
     let p = index_path [Member ''mounts''] i in
     case item of
       JString s \<Rightarrow> Ok (StringMount s)
     | JObject obj \<Rightarrow>
         and_then (reject_unknown p [''type'', ''source'', ''target''] obj) (\<lambda>_.
         and_then (ok_or (profile_error_at MissingProperty (member_path p ''type'') None
             ''required property is missing'') (bt_get obj ''type'')) (\<lambda>kind_value.
         and_then (Validator_string (member_path p ''type'') kind_value) (\<lambda>t.
         and_then (if t = ''bind'' then Ok Bind else if t = ''volume'' then Ok Volume
             else Err (unsupported_value (member_path p ''type'') kind_value
               ''supported mount types are `bind` and `volume`'')) (\<lambda>kind.
         and_then (optional_string_at obj p ''source'') (\<lambda>source.
         and_then (required_string_at obj p ''target'') (\<lambda>target.
         Ok (ObjectMount kind source target)))))))
     | _ \<Rightarrow> Err (type_error p item ''mount must be a string or object''))"

definition Validator_mounts :: "json option \<Rightarrow> raw_mount list checked" where
  "Validator_mounts v =
     (case v of
        None \<Rightarrow> Ok []
      | Some w \<Rightarrow> and_then (Validator_array [Member ''mounts''] w) (\<lambda>vs.
          collect_results Validator_mount (enumerate 0 vs)))"

definition Validator_app_ports :: "json option \<Rightarrow> app_port list checked" where
  "Validator_app_ports v =
     (let port = (\<lambda>p w. case w of JString s \<Rightarrow> Ok (DockerArgument s)
            | _ \<Rightarrow> map_ok NumberPort (Validator_port_number p w)) in
      case v of
        None \<Rightarrow> Ok []
      | Some (JArray vs) \<Rightarrow>
          collect_results (\<lambda>(i, w). port (index_path [Member ''appPort''] i) w) (enumerate 0 vs)
      | Some w \<Rightarrow> map_ok (\<lambda>x. [x]) (port [Member ''appPort''] w))"

definition Validator_forward_port :: "path_segment list \<Rightarrow> json \<Rightarrow> forward_port checked" where
  "Validator_forward_port p v =
     (case v of
        JString text \<Rightarrow>
          and_then (ok_or (invalid_value p v ''forward port must use `service:port`'')
            (rsplit_once (CHR '':'') text)) (\<lambda>(service, port).
          if service = [] \<or> \<not> all_bytes (\<lambda>b. is_ascii_lowercase b \<or> is_ascii_digit b \<or> b = 45) service
          then Err (invalid_value p v ''invalid Compose service port reference'')
          else map_ok (ServicePort service)
            (ok_or (invalid_value p v ''port must be between 1 and 65535'')
              (Option.bind (parse_uint 16 port) (\<lambda>n. if 0 < n then Some (of_nat n) else None))))
      | _ \<Rightarrow> map_ok ContainerPort (Validator_port_number p v))"

primrec requested_port :: "forward_port \<Rightarrow> 16 word" where
  "requested_port (ContainerPort p) = p"
| "requested_port (ServicePort _ p) = p"

text \<open>The loop over the forwards; the set of requested ports holds those of the forwards so far.\<close>

fun forward_ports_loop :: "nat \<Rightarrow> json list \<Rightarrow> forward_port list \<Rightarrow> forward_port list checked" where
  "forward_ports_loop i [] out = Ok out"
| "forward_ports_loop i (v # vs) out =
     (let p = index_path [Member ''forwardPorts''] i in
      and_then (Validator_forward_port p v) (\<lambda>f.
      if requested_port f \<in> requested_port ` set out
      then Err (invalid_value p v ''multiple forwards cannot request the same local port'')
      else forward_ports_loop (Suc i) vs (out @ [f])))"

definition Validator_forward_ports :: "json option \<Rightarrow> forward_port list checked" where
  "Validator_forward_ports v =
     (case v of
        None \<Rightarrow> Ok []
      | Some w \<Rightarrow> and_then (Validator_array [Member ''forwardPorts''] w) (\<lambda>vs. forward_ports_loop 0 vs []))"

definition auto_forward_of :: "string \<Rightarrow> auto_forward_action" where
  "auto_forward_of v =
     (if v = ''notify'' then Notify else if v = ''openBrowser'' then OpenBrowser
      else if v = ''openBrowserOnce'' then OpenBrowserOnce else if v = ''openPreview'' then OpenPreview
      else if v = ''silent'' then Silent else Ignore)"

definition Validator_port_attributes :: "path_segment list \<Rightarrow> bool \<Rightarrow> json \<Rightarrow> port_attributes checked" where
  "Validator_port_attributes p allow_once v =
     and_then (Validator_object p v) (\<lambda>obj.
     and_then (reject_unknown p [''onAutoForward'', ''elevateIfNeeded'', ''label'', ''requireLocalPort'',
       ''protocol''] obj) (\<lambda>_.
     and_then (enum_optional_at obj p ''onAutoForward'' (if allow_once
         then [''notify'', ''openBrowser'', ''openBrowserOnce'', ''openPreview'', ''silent'', ''ignore'']
         else [''notify'', ''openBrowser'', ''openPreview'', ''silent'', ''ignore'']) auto_forward_of) (\<lambda>action.
     and_then (optional_bool_at obj p ''elevateIfNeeded'') (\<lambda>elevate.
     and_then (optional_string_at obj p ''label'') (\<lambda>lbl.
     and_then (optional_bool_at obj p ''requireLocalPort'') (\<lambda>require.
     and_then (enum_optional_at obj p ''protocol'' [''http'', ''https'']
       (\<lambda>t. if t = ''http'' then Http else Https)) (\<lambda>protocol.
     Ok \<lparr>on_auto_forward = action, elevate_if_needed = elevate, port_label = lbl,
       require_local_port = require, port_protocol_hint = protocol\<rparr>)))))))"

definition port_attributes_map :: "path_segment list \<Rightarrow> json option \<Rightarrow> (string, port_attributes) btree checked" where
  "port_attributes_map p = object_entries p (\<lambda>(k, v).
     map_ok (Pair k) (Validator_port_attributes (keyed p k) True v))"

definition command_array :: "path_segment list \<Rightarrow> json \<Rightarrow> string list checked" where
  "command_array p v =
     and_then (Validator_array p v) (\<lambda>vs.
     if vs = [] then Err (invalid_value p v ''direct command must not be empty'') else string_elements p vs)"

definition parallel_entry :: "path_segment list \<Rightarrow> string \<times> json \<Rightarrow> (string \<times> command_value) checked" where
  "parallel_entry p = (\<lambda>(k, v).
     case v of
       JString s \<Rightarrow> Ok (k, ShellValue s)
     | JArray _ \<Rightarrow> map_ok (\<lambda>xs. (k, ExecValue xs)) (command_array (keyed p k) v)
     | _ \<Rightarrow> Err (type_error (keyed p k) v ''parallel command must be a string or string array''))"

definition command_at :: "path_segment list \<Rightarrow> json \<Rightarrow> raw_command checked" where
  "command_at p v =
     (case v of
        JString s \<Rightarrow> Ok (ShellCommand s)
      | JArray _ \<Rightarrow> map_ok ExecCommand (command_array p v)
      | JObject obj \<Rightarrow> map_ok (\<lambda>es. ParallelCommand (bt_of es)) (collect_results (parallel_entry p) obj)
      | _ \<Rightarrow> Err (type_error p v ''command must be a string, string array, or object''))"

definition Validator_command :: "path_segment list \<Rightarrow> json option \<Rightarrow> raw_command option checked" where
  "Validator_command p = optionally (command_at p)"

definition Validator_gpu :: "json \<Rightarrow> gpu_requirement checked" where
  "Validator_gpu v =
     (let p = [Member ''hostRequirements'', Member ''gpu''] in
      case v of
        JBool b \<Rightarrow> Ok (if b then GpuRequired else GpuNotRequired)
      | JObject obj \<Rightarrow>
          and_then (reject_unknown p [''cores'', ''memory''] obj) (\<lambda>_.
          and_then (positive_integer (p @ [Member ''cores'']) (bt_get obj ''cores'')) (\<lambda>cores.
          and_then (byte_requirement (p @ [Member ''memory'']) (bt_get obj ''memory'')) (\<lambda>memory.
          Ok (GpuDetailed cores memory))))
      | _ \<Rightarrow> if v = JString ''optional'' then Ok GpuOptional
             else Err (unsupported_value p v ''GPU must be true, false, `optional`, or a detailed requirement''))"

definition Validator_host_requirements :: "json \<Rightarrow> host_requirements checked" where
  "Validator_host_requirements v =
     (let p = [Member ''hostRequirements''] in
      and_then (Validator_object p v) (\<lambda>obj.
      and_then (reject_unknown p [''cpus'', ''memory'', ''storage'', ''gpu''] obj) (\<lambda>_.
      and_then (positive_integer (p @ [Member ''cpus'']) (bt_get obj ''cpus'')) (\<lambda>cpus.
      and_then (byte_requirement (p @ [Member ''memory'']) (bt_get obj ''memory'')) (\<lambda>memory.
      and_then (byte_requirement (p @ [Member ''storage'']) (bt_get obj ''storage'')) (\<lambda>storage.
      and_then (optionally Validator_gpu (bt_get obj ''gpu'')) (\<lambda>gpu.
      Ok \<lparr>req_cpus = cpus, req_memory = memory, req_storage = storage, req_gpu = gpu\<rparr>)))))))"

definition Validator_customizations :: "json option \<Rightarrow> (string, json) btree checked" where
  "Validator_customizations = object_entries [Member ''customizations''] (\<lambda>(tool, v).
     if as_object v \<noteq> None then Ok (tool, v)
     else Err (type_error (keyed [Member ''customizations''] tool) v ''tool customization must be an object''))"

definition Validator_secret :: "string \<times> json \<Rightarrow> (string \<times> secret_metadata) checked" where
  "Validator_secret = (\<lambda>(name, v).
     let p = keyed [Member ''secrets''] name in
     if \<not> valid_env_name name
     then Err (invalid_value p (JString name) ''secret name must be an environment variable name'')
     else and_then (Validator_object p v) (\<lambda>obj.
       and_then (reject_unknown p [''description'', ''documentationUrl''] obj) (\<lambda>_.
       and_then (optional_string_at obj p ''description'') (\<lambda>d.
       and_then (optional_string_at obj p ''documentationUrl'') (\<lambda>u.
       Ok (name, \<lparr>secret_description = d, documentation_url = u\<rparr>))))))"

section \<open>Scenarios\<close>

definition user_env_probe_named :: "string \<Rightarrow> user_env_probe" where
  "user_env_probe_named v =
     (if v = ''none'' then ProbeNone else if v = ''loginShell'' then LoginShell
      else if v = ''loginInteractiveShell'' then LoginInteractiveShell else InteractiveShell)"

definition wait_for_named :: "string \<Rightarrow> wait_for" where
  "wait_for_named v =
     (if v = ''initializeCommand'' then WaitInitialize else if v = ''onCreateCommand'' then WaitOnCreate
      else if v = ''updateContentCommand'' then WaitUpdateContent
      else if v = ''postCreateCommand'' then WaitPostCreate else WaitPostStart)"

definition Validator_lifecycle :: "json_object \<Rightarrow> lifecycle_commands checked" where
  "Validator_lifecycle root =
     (let command = (\<lambda>k. Validator_command [Member k] (bt_get root k)) in
      and_then (command ''initializeCommand'') (\<lambda>a. and_then (command ''onCreateCommand'') (\<lambda>b.
      and_then (command ''updateContentCommand'') (\<lambda>c. and_then (command ''postCreateCommand'') (\<lambda>d.
      and_then (command ''postStartCommand'') (\<lambda>e. and_then (command ''postAttachCommand'') (\<lambda>f.
      Ok \<lparr>lc_initialize = a, lc_on_create = b, lc_update_content = c, lc_post_create = d, lc_post_start = e,
        lc_post_attach = f\<rparr>)))))))"

definition Validator_common :: "feature_url_parser \<Rightarrow> json_object \<Rightarrow> raw_common checked" where
  "Validator_common url_parse root =
     (let get = bt_get root in
      and_then (object_entries [Member ''features''] (Validator_feature url_parse) (get ''features'')) (\<lambda>v1.
      and_then (strings_or_empty [Member ''overrideFeatureInstallOrder''] (get ''overrideFeatureInstallOrder'')) (\<lambda>v2.
      and_then (Validator_string_map [Member ''containerEnv''] (get ''containerEnv'')) (\<lambda>v3.
      and_then (nullable_string_map [Member ''remoteEnv''] (get ''remoteEnv'')) (\<lambda>v4.
      and_then (optional_string_at root [] ''containerUser'') (\<lambda>v5.
      and_then (optional_string_at root [] ''remoteUser'') (\<lambda>v6.
      and_then (optional_bool_at root [] ''updateRemoteUserUID'') (\<lambda>v7.
      and_then (enum_optional_at root [] ''userEnvProbe''
        [''none'', ''loginShell'', ''loginInteractiveShell'', ''interactiveShell''] user_env_probe_named) (\<lambda>v8.
      and_then (optional_bool_at root [] ''init'') (\<lambda>v9.
      and_then (optional_bool_at root [] ''privileged'') (\<lambda>v10.
      and_then (strings_or_empty [Member ''capAdd''] (get ''capAdd'')) (\<lambda>v11.
      and_then (strings_or_empty [Member ''securityOpt''] (get ''securityOpt'')) (\<lambda>v12.
      and_then (Validator_mounts (get ''mounts'')) (\<lambda>v13.
      and_then (Validator_app_ports (get ''appPort'')) (\<lambda>v14.
      and_then (Validator_forward_ports (get ''forwardPorts'')) (\<lambda>v15.
      and_then (port_attributes_map [Member ''portsAttributes''] (get ''portsAttributes'')) (\<lambda>v16.
      and_then (optionally (Validator_port_attributes [Member ''otherPortsAttributes''] False)
        (get ''otherPortsAttributes'')) (\<lambda>v17.
      and_then (Validator_lifecycle root) (\<lambda>v18.
      and_then (enum_optional_at root [] ''waitFor'' [''initializeCommand'', ''onCreateCommand'',
        ''updateContentCommand'', ''postCreateCommand'', ''postStartCommand''] wait_for_named) (\<lambda>v19.
      and_then (optionally Validator_host_requirements (get ''hostRequirements'')) (\<lambda>v20.
      and_then (Validator_customizations (get ''customizations'')) (\<lambda>v21.
      and_then (object_entries [Member ''secrets''] Validator_secret (get ''secrets'')) (\<lambda>v22.
      Ok \<lparr>features = v1, override_feature_install_order = v2, container_env = v3, remote_env = v4,
        container_user = v5, remote_user = v6, update_remote_user_uid = v7, user_env_probe_of = v8, init = v9,
        privileged = v10, cap_add = v11, security_opt = v12, mounts = v13, app_ports = v14,
        forward_ports = v15, ports_attributes = v16, other_ports_attributes = v17, lifecycle = v18,
        wait_for_of = v19, host_requirements_of = v20, customizations = v21,
        secrets = v22\<rparr>)))))))))))))))))))))))"

definition Validator_build :: "json \<Rightarrow> raw_build checked" where
  "Validator_build v =
     (let p = [Member ''build''] in
      and_then (Validator_object p v) (\<lambda>obj.
      and_then (reject_unknown p [''dockerfile'', ''context'', ''target'', ''args'', ''cacheFrom'', ''options''] obj) (\<lambda>_.
      and_then (required_string_at obj p ''dockerfile'') (\<lambda>file.
      and_then (optional_string_at obj p ''context'') (\<lambda>directory.
      and_then (optional_string_at obj p ''target'') (\<lambda>target.
      and_then (Validator_string_map (p @ [Member ''args'']) (bt_get obj ''args'')) (\<lambda>args.
      and_then (string_or_array (p @ [Member ''cacheFrom'']) (bt_get obj ''cacheFrom'')) (\<lambda>cache.
      and_then (strings_or_empty (p @ [Member ''options'']) (bt_get obj ''options'')) (\<lambda>options.
      Ok \<lparr>dockerfile = file, build_context = directory, build_target = target, build_args = args,
        cache_from = cache, build_options = options\<rparr>)))))))))"

definition Validator_non_compose :: "json_object \<Rightarrow> non_compose_options checked" where
  "Validator_non_compose root =
     and_then (enum_optional_at root [] ''shutdownAction'' [''none'', ''stopContainer'']
       (\<lambda>t. if t = ''none'' then ShutdownNone else StopContainer)) (\<lambda>action.
     and_then (optional_string_at root [] ''workspaceFolder'') (\<lambda>folder.
     and_then (optional_string_at root [] ''workspaceMount'') (\<lambda>m.
     and_then (strings_or_empty [Member ''runArgs''] (bt_get root ''runArgs'')) (\<lambda>args.
     and_then (optional_bool_at root [] ''overrideCommand'') (\<lambda>override.
     Ok \<lparr>opt_workspace_folder = folder, opt_workspace_mount = m, opt_run_args = args,
       opt_shutdown_action = action, opt_override_command = override\<rparr>)))))"

definition first_empty :: "string list \<Rightarrow> nat option" where
  "first_empty xs = (if [] \<in> set xs then Some (length (takeWhile (\<lambda>x. x \<noteq> []) xs)) else None)"

definition Validator_compose :: "json_object \<Rightarrow> json \<Rightarrow> compose_scenario checked" where
  "Validator_compose root v =
     (let p = [Member ''dockerComposeFile''] in
      and_then (one_or_many_strings p v) (\<lambda>files.
      if files = [] then Err (invalid_value p (JArray []) ''at least one Compose file is required'')
      else case first_empty files of
        Some i \<Rightarrow> Err (invalid_value (index_path p i) (JString []) ''Compose file must not be empty'')
      | None \<Rightarrow>
          and_then (required_string_at root [] ''service'') (\<lambda>service.
          and_then (required_string_at root [] ''workspaceFolder'') (\<lambda>folder.
          and_then (Validator_string_array [Member ''runServices''] (bt_get root ''runServices'')) (\<lambda>services.
          if services = Some [] then Err (invalid_value [Member ''runServices''] (JArray [])
            ''at least one run service is required when present'')
          else and_then (enum_optional_at root [] ''shutdownAction'' [''none'', ''stopCompose'']
            (\<lambda>t. if t = ''none'' then ShutdownNone else StopCompose)) (\<lambda>action.
          and_then (optional_bool_at root [] ''overrideCommand'') (\<lambda>override.
          Ok \<lparr>compose_files = files, compose_service = service, run_services = services,
            compose_workspace_folder = folder, compose_shutdown_action = action,
            compose_override_command = override\<rparr>)))))))"

section \<open>The profile\<close>

definition PROPERTY_FAMILIES :: "(string \<times> string list) list" where
  "PROPERTY_FAMILIES =
     [(''authoring'', [''$schema'', ''name'', ''customizations'', ''secrets'']),
      (''scenarios'', [''image'', ''build'', ''dockerComposeFile'', ''service'', ''runServices'']),
      (''workspace'', [''workspaceFolder'', ''workspaceMount'', ''mounts'']),
      (''features'', [''features'', ''overrideFeatureInstallOrder'']),
      (''environment-and-users'', [''containerEnv'', ''remoteEnv'', ''containerUser'', ''remoteUser'',
        ''updateRemoteUserUID'', ''userEnvProbe'']),
      (''container-runtime'', [''overrideCommand'', ''init'', ''privileged'', ''capAdd'', ''securityOpt'', ''runArgs'']),
      (''ports'', [''appPort'', ''forwardPorts'', ''portsAttributes'', ''otherPortsAttributes'']),
      (''lifecycle'', [''initializeCommand'', ''onCreateCommand'', ''updateContentCommand'', ''postCreateCommand'',
        ''postStartCommand'', ''postAttachCommand'', ''waitFor'', ''shutdownAction'']),
      (''host-requirements'', [''hostRequirements''])]"

definition supported_property :: "string \<Rightarrow> bool" where
  "supported_property key \<longleftrightarrow> list_ex (\<lambda>(_, ps). key \<in> set ps) PROPERTY_FAMILIES"

fun reject_unsupported :: "json_object \<Rightarrow> unit checked" where
  "reject_unsupported [] = Ok ()"
| "reject_unsupported ((k, v) # root) =
     (if supported_property k then reject_unsupported root
      else if k \<in> {''dockerFile'', ''context''}
      then Err (unsupported_value (member_path [] k) v
        ''deprecated top-level Dockerfile form is unsupported; use `build.dockerfile`'')
      else Err (profile_error_at UnknownProperty (member_path [] k) (Some v) ''unknown top-level behavioral property''))"

definition Validator_scenario :: "json_object \<Rightarrow> raw_scenario checked" where
  "Validator_scenario root =
     (let compose_only = reject_present root [''service'', ''runServices'']
            ''property is only valid for a Compose scenario'' in
      if bt_get root ''image'' \<noteq> None then
        and_then compose_only (\<lambda>_.
        and_then (required_string_at root [] ''image'') (\<lambda>i.
        map_ok (\<lambda>options. ImageScenario \<lparr>image = i, image_options = options\<rparr>) (Validator_non_compose root)))
      else case bt_get root ''build'' of
        Some v \<Rightarrow>
          and_then compose_only (\<lambda>_.
          and_then (Validator_build v) (\<lambda>b.
          map_ok (\<lambda>options. DockerfileScenario \<lparr>build = b, dockerfile_options = options\<rparr>) (Validator_non_compose root)))
      | None \<Rightarrow>
          and_then (reject_present root [''workspaceMount'', ''runArgs'']
            ''property is not supported for a Compose scenario'') (\<lambda>_.
          and_then (ok_or (profile_error_at ScenarioConflict [Member ''dockerComposeFile''] None
            ''Compose scenario selection is missing'') (bt_get root ''dockerComposeFile'')) (\<lambda>v.
          map_ok ComposeScenario (Validator_compose root v))))"

definition validate_profile :: "feature_url_parser \<Rightarrow> json \<Rightarrow> raw_profile checked" where
  "validate_profile url_parse document =
     and_then (Validator_object [] document) (\<lambda>root.
     and_then (reject_unsupported root) (\<lambda>_.
     if length (filter (\<lambda>k. bt_get root k \<noteq> None) [''image'', ''build'', ''dockerComposeFile'']) \<noteq> 1
     then Err (profile_error_at ScenarioConflict [] (Some document)
       ''exactly one of `image`, `build`, or `dockerComposeFile` is required'')
     else and_then (optional_string_at root [] ''$schema'') (\<lambda>uri.
     and_then (optional_string_at root [] ''name'') (\<lambda>n.
     and_then (Validator_common url_parse root) (\<lambda>c.
     and_then (Validator_scenario root) (\<lambda>s.
     Ok \<lparr>schema_uri = uri, profile_name = n, scenario = s, common = c\<rparr>))))))"

section \<open>What an accepted profile satisfies\<close>

lemma optionally_Ok: "optionally f v = Ok r \<longleftrightarrow> (case v of None \<Rightarrow> r = None | Some x \<Rightarrow> \<exists>y. f x = Ok y \<and> r = Some y)"
  by (auto simp: optionally_def split: option.splits)

lemma object_entries_Ok:
  assumes "object_entries p f v = Ok m"
  shows "bt_ok m" and "(k, x) \<in> set m \<Longrightarrow> \<exists>e. f e = Ok (k, x)"
proof -
  from assms have "m = [] \<or> (\<exists>obj es. collect_results f obj = Ok es \<and> m = bt_of es)"
    by (auto simp: object_entries_def elim!: and_then_OkE split: option.splits)
  then consider "m = []" | obj es where "collect_results f obj = Ok es" "m = bt_of es" by blast
  note cases = this
  from cases show "bt_ok m" by cases (auto simp: bt_of_facts)
  assume "(k, x) \<in> set m"
  with cases show "\<exists>e. f e = Ok (k, x)"
    by cases (simp, metis set_bt_of subsetD collect_results_member)
qed

definition port_ok :: "app_port \<Rightarrow> bool" where
  "port_ok p \<longleftrightarrow> (case p of NumberPort n \<Rightarrow> n \<noteq> 0 | DockerArgument _ \<Rightarrow> True)"

lemma port_number_nonzero: "Validator_port_number p v = Ok n \<Longrightarrow> n \<noteq> 0"
proof -
  assume "Validator_port_number p v = Ok n"
  then obtain m :: "64 word" where m: "unat m < 2 ^ 16" "0 < unat m" "n = ucast m"
    by (auto simp: Validator_port_number_def bind_eq_Some_conv split: if_splits)
  then have "unat (ucast m :: 16 word) = unat m" by (simp add: unsigned_ucast_eq take_bit_nat_eq_self)
  with m show ?thesis by auto
qed

lemma app_ports_ok:
  assumes "Validator_app_ports v = Ok ps"
  shows "list_all port_ok ps"
proof -
  let ?port = "\<lambda>p w. case w of JString s \<Rightarrow> Ok (DockerArgument s) | _ \<Rightarrow> map_ok NumberPort (Validator_port_number p w)"
  have port: "port_ok q" if "?port p w = Ok q" for p w q
    using that by (cases w) (auto simp: port_ok_def dest: port_number_nonzero)
  show ?thesis
  proof (cases v)
    case None
    then show ?thesis using assms by (simp add: Validator_app_ports_def)
  next
    case (Some w)
    then have "(\<exists>f vs. collect_results (\<lambda>(i, w). ?port (f i) w) (enumerate 0 vs) = Ok ps) \<or>
        (\<exists>p q. ?port p w = Ok q \<and> ps = [q])"
      using assms by (cases w) (auto simp: Validator_app_ports_def Let_def)
    then show ?thesis using port by (fastforce simp: list_all_iff dest: collect_results_member)
  qed
qed

lemma forward_port_nonzero: "Validator_forward_port p v = Ok f \<Longrightarrow> requested_port f \<noteq> 0"
proof (cases v)
  case (JString t)
  assume "Validator_forward_port p v = Ok f"
  with JString obtain service n where n: "f = ServicePort service (of_nat n)" "0 < n" "n < 2 ^ 16"
    by (auto simp: Validator_forward_port_def bind_eq_Some_conv elim!: and_then_OkE split: if_splits dest: parse_uint_bound)
  then show ?thesis by (auto simp: word_of_nat_eq_0_iff dest: nat_dvd_not_less)
qed (auto simp: Validator_forward_port_def dest: port_number_nonzero)

lemma forward_ports_loop_Ok:
  "forward_ports_loop i vs out = Ok fs \<Longrightarrow> distinct (map requested_port out) \<Longrightarrow> 0 \<notin> requested_port ` set out \<Longrightarrow>
    distinct (map requested_port fs) \<and> 0 \<notin> requested_port ` set fs"
proof (induction i vs out rule: forward_ports_loop.induct)
  case (2 i v vs out)
  then show ?case
    by (auto simp: Let_def elim!: and_then_OkE split: if_splits dest: forward_port_nonzero) (metis forward_port_nonzero)+
qed simp

definition source_of :: "feature_reference \<Rightarrow> feature_source" where
  "source_of r = (case r of OciReference t \<Rightarrow> OciSource t | HttpsReference t \<Rightarrow> HttpsSource t | LocalReference t \<Rightarrow> LocalSource t)"

definition feature_ok :: "feature_url_parser \<Rightarrow> string \<Rightarrow> raw_feature \<Rightarrow> bool" where
  "feature_ok url_parse k f \<longleftrightarrow> (\<exists>r. FeatureReference_parse url_parse k = Ok r \<and> feature_source_of f = source_of r) \<and>
     bt_ok (feature_options f)"

lemma Validator_feature_ok:
  assumes "Validator_feature url_parse e = Ok (k, f)"
  shows "feature_ok url_parse k f"
proof -
  obtain r opts where e: "e = (r, opts)" by fastforce
  from assms obtain source typed where "Validator_feature_source url_parse r (keyed [Member ''features''] r) opts = Ok source"
    and f: "k = r" "f = \<lparr>feature_source_of = source, feature_options = bt_of typed\<rparr>"
    by (auto simp: Validator_feature_def e Let_def elim!: and_then_OkE)
  then have "\<exists>q. FeatureReference_parse url_parse r = Ok q \<and> source = source_of q"
    by (auto simp: Validator_feature_source_def source_of_def split: result.splits feature_reference.splits)
  then show ?thesis by (auto simp: feature_ok_def f bt_of_facts)
qed

definition size_ok :: "string option \<Rightarrow> bool" where
  "size_ok s \<longleftrightarrow> (case s of None \<Rightarrow> True | Some t \<Rightarrow> \<exists>ds u. t = ds @ u \<and> ds \<noteq> [] \<and>
     list_all (\<lambda>c. is_ascii_digit (byte c)) ds \<and> u \<in> {[], ''kb'', ''mb'', ''gb'', ''tb''})"

definition requirements_ok :: "host_requirements \<Rightarrow> bool" where
  "requirements_ok r \<longleftrightarrow> req_cpus r \<noteq> Some 0 \<and> size_ok (req_memory r) \<and> size_ok (req_storage r) \<and>
     (\<forall>cores memory. req_gpu r = Some (GpuDetailed cores memory) \<longrightarrow> cores \<noteq> Some 0 \<and> size_ok memory)"

lemma byte_requirement_ok:
  assumes "byte_requirement p v = Ok s"
  shows "size_ok s"
proof (cases s)
  case (Some t)
  let ?ds = "takeWhile (\<lambda>c. is_ascii_digit (byte c)) t"
  from assms Some have "?ds \<noteq> []" "drop (length ?ds) t \<in> {[], ''kb'', ''mb'', ''gb'', ''tb''}"
    by (auto simp: byte_requirement_def optionally_Ok Let_def elim!: and_then_OkE split: option.splits if_splits)
  moreover have "t = ?ds @ drop (length ?ds) t" by (simp add: dropWhile_eq_drop [symmetric])
  moreover have "list_all (\<lambda>c. is_ascii_digit (byte c)) ?ds" by (auto simp: list_all_iff dest: set_takeWhileD)
  ultimately show ?thesis unfolding size_ok_def Some by (simp only: option.case) blast
qed (simp add: size_ok_def)

lemma positive_integer_ok: "positive_integer p v = Ok n \<Longrightarrow> n \<noteq> Some 0"
  by (auto simp: positive_integer_def optionally_Ok bind_eq_Some_conv split: option.splits if_splits)

lemma Validator_gpu_ok:
  "Validator_gpu v = Ok (GpuDetailed cores memory) \<Longrightarrow> cores \<noteq> Some 0 \<and> size_ok memory"
  by (cases v) (auto simp: Validator_gpu_def Let_def elim!: and_then_OkE split: if_splits
    dest: positive_integer_ok byte_requirement_ok)

lemma Validator_host_requirements_ok:
  assumes "Validator_host_requirements v = Ok r"
  shows "requirements_ok r"
proof -
  from assms obtain obj p1 p2 p3 where
    "positive_integer p1 (bt_get obj ''cpus'') = Ok (req_cpus r)"
    "byte_requirement p2 (bt_get obj ''memory'') = Ok (req_memory r)"
    "byte_requirement p3 (bt_get obj ''storage'') = Ok (req_storage r)"
    "optionally Validator_gpu (bt_get obj ''gpu'') = Ok (req_gpu r)"
    unfolding Validator_host_requirements_def Let_def by (elim and_then_OkE) auto
  then show ?thesis
    by (auto simp: requirements_ok_def optionally_Ok split: option.splits
      dest: positive_integer_ok byte_requirement_ok Validator_gpu_ok)
qed

definition validated_command :: "raw_command \<Rightarrow> bool" where
  "validated_command c \<longleftrightarrow> (case c of
     ShellCommand _ \<Rightarrow> True
   | ExecCommand xs \<Rightarrow> xs \<noteq> []
   | ParallelCommand m \<Rightarrow> bt_ok m \<and> (\<forall>(k, v) \<in> set m. v \<noteq> ExecValue []))"

lemma string_elements_length: "string_elements p vs = Ok xs \<Longrightarrow> length xs = length vs"
  by (auto simp: string_elements_def collect_results_Ok dest: list_all2_lengthD)

lemma command_array_nonempty: "command_array p v = Ok xs \<Longrightarrow> xs \<noteq> []"
  by (auto simp: command_array_def elim!: and_then_OkE split: if_splits dest: string_elements_length)

lemma parallel_entry_nonempty: "parallel_entry p e = Ok (k, w) \<Longrightarrow> w \<noteq> ExecValue []"
  by (cases e; cases "snd e") (auto simp: parallel_entry_def dest: command_array_nonempty)

lemma command_at_ok:
  assumes "command_at p v = Ok c"
  shows "validated_command c"
proof (cases v)
  case (JObject obj)
  with assms obtain es where es: "collect_results (parallel_entry p) obj = Ok es" "c = ParallelCommand (bt_of es)"
    by (auto simp: command_at_def)
  have "w \<noteq> ExecValue []" if "(k, w) \<in> set (bt_of es)" for k w
  proof -
    have "(k, w) \<in> set es" using that set_bt_of by (rule set_rev_mp)
    from collect_results_member [OF es(1) this] obtain e where "parallel_entry p e = Ok (k, w)" by (rule bexE)
    then show ?thesis by (rule parallel_entry_nonempty)
  qed
  then show ?thesis unfolding validated_command_def es(2) by (auto simp: bt_of_facts)
qed (use assms in \<open>auto simp: command_at_def validated_command_def dest: command_array_nonempty\<close>)

abbreviation validated_commands :: "raw_command option list \<Rightarrow> bool" where
  "validated_commands cs \<equiv> \<forall>c. Some c \<in> set cs \<longrightarrow> validated_command c"

lemma Validator_command_ok: "Validator_command p v = Ok c \<Longrightarrow> validated_commands [c]"
  by (auto simp: Validator_command_def optionally_Ok split: option.splits dest: command_at_ok)

abbreviation lifecycle_list :: "lifecycle_commands \<Rightarrow> raw_command option list" where
  "lifecycle_list l \<equiv> [lc_initialize l, lc_on_create l, lc_update_content l, lc_post_create l, lc_post_start l,
     lc_post_attach l]"

lemma Validator_lifecycle_ok:
  assumes "Validator_lifecycle root = Ok l"
  shows "validated_commands (lifecycle_list l)"
proof -
  from assms obtain p1 p2 p3 p4 p5 p6 v1 v2 v3 v4 v5 v6 where
    "Validator_command p1 v1 = Ok (lc_initialize l)" "Validator_command p2 v2 = Ok (lc_on_create l)"
    "Validator_command p3 v3 = Ok (lc_update_content l)" "Validator_command p4 v4 = Ok (lc_post_create l)"
    "Validator_command p5 v5 = Ok (lc_post_start l)" "Validator_command p6 v6 = Ok (lc_post_attach l)"
    unfolding Validator_lifecycle_def Let_def by (elim and_then_OkE) auto
  note this [THEN Validator_command_ok]
  then show ?thesis by simp
qed

lemma Validator_secret_name: "Validator_secret e = Ok (k, s) \<Longrightarrow> valid_env_name k"
  by (cases e) (auto simp: Validator_secret_def Let_def elim!: and_then_OkE split: if_splits)

definition common_ok :: "feature_url_parser \<Rightarrow> raw_common \<Rightarrow> bool" where
  "common_ok url_parse c \<longleftrightarrow>
     bt_ok (features c) \<and> (\<forall>(k, f) \<in> set (features c). feature_ok url_parse k f) \<and>
     bt_ok (container_env c) \<and> bt_ok (remote_env c) \<and> bt_ok (ports_attributes c) \<and> bt_ok (customizations c) \<and>
     list_all port_ok (app_ports c) \<and> distinct (map requested_port (forward_ports c)) \<and>
     0 \<notin> requested_port ` set (forward_ports c) \<and> validated_commands (lifecycle_list (lifecycle c)) \<and>
     (\<forall>r. host_requirements_of c = Some r \<longrightarrow> requirements_ok r) \<and>
     bt_ok (secrets c) \<and> (\<forall>(k, m) \<in> set (secrets c). valid_env_name k)"

lemma Validator_common_Ok:
  assumes "Validator_common url_parse root = Ok c"
  shows "object_entries [Member ''features''] (Validator_feature url_parse) (bt_get root ''features'') = Ok (features c)"
    and "Validator_string_map [Member ''containerEnv''] (bt_get root ''containerEnv'') = Ok (container_env c)"
    and "nullable_string_map [Member ''remoteEnv''] (bt_get root ''remoteEnv'') = Ok (remote_env c)"
    and "Validator_app_ports (bt_get root ''appPort'') = Ok (app_ports c)"
    and "Validator_forward_ports (bt_get root ''forwardPorts'') = Ok (forward_ports c)"
    and "port_attributes_map [Member ''portsAttributes''] (bt_get root ''portsAttributes'') = Ok (ports_attributes c)"
    and "Validator_lifecycle root = Ok (lifecycle c)"
    and "optionally Validator_host_requirements (bt_get root ''hostRequirements'') = Ok (host_requirements_of c)"
    and "Validator_customizations (bt_get root ''customizations'') = Ok (customizations c)"
    and "object_entries [Member ''secrets''] Validator_secret (bt_get root ''secrets'') = Ok (secrets c)"
proof -
  have "object_entries [Member ''features''] (Validator_feature url_parse) (bt_get root ''features'') = Ok (features c) \<and>
    Validator_string_map [Member ''containerEnv''] (bt_get root ''containerEnv'') = Ok (container_env c) \<and>
    nullable_string_map [Member ''remoteEnv''] (bt_get root ''remoteEnv'') = Ok (remote_env c) \<and>
    Validator_app_ports (bt_get root ''appPort'') = Ok (app_ports c) \<and>
    Validator_forward_ports (bt_get root ''forwardPorts'') = Ok (forward_ports c) \<and>
    port_attributes_map [Member ''portsAttributes''] (bt_get root ''portsAttributes'') = Ok (ports_attributes c) \<and>
    Validator_lifecycle root = Ok (lifecycle c) \<and>
    optionally Validator_host_requirements (bt_get root ''hostRequirements'') = Ok (host_requirements_of c) \<and>
    Validator_customizations (bt_get root ''customizations'') = Ok (customizations c) \<and>
    object_entries [Member ''secrets''] Validator_secret (bt_get root ''secrets'') = Ok (secrets c)"
    using assms unfolding Validator_common_def Let_def by (elim and_then_OkE) clarsimp
  then show "object_entries [Member ''features''] (Validator_feature url_parse) (bt_get root ''features'') = Ok (features c)"
    "Validator_string_map [Member ''containerEnv''] (bt_get root ''containerEnv'') = Ok (container_env c)"
    "nullable_string_map [Member ''remoteEnv''] (bt_get root ''remoteEnv'') = Ok (remote_env c)"
    "Validator_app_ports (bt_get root ''appPort'') = Ok (app_ports c)"
    "Validator_forward_ports (bt_get root ''forwardPorts'') = Ok (forward_ports c)"
    "port_attributes_map [Member ''portsAttributes''] (bt_get root ''portsAttributes'') = Ok (ports_attributes c)"
    "Validator_lifecycle root = Ok (lifecycle c)"
    "optionally Validator_host_requirements (bt_get root ''hostRequirements'') = Ok (host_requirements_of c)"
    "Validator_customizations (bt_get root ''customizations'') = Ok (customizations c)"
    "object_entries [Member ''secrets''] Validator_secret (bt_get root ''secrets'') = Ok (secrets c)" by blast+
qed

lemma Validator_common_ok:
  assumes "Validator_common url_parse root = Ok c"
  shows "common_ok url_parse c"
proof -
  note v = Validator_common_Ok [OF assms]
  have "feature_ok url_parse k f" if "(k, f) \<in> set (features c)" for k f
    using object_entries_Ok(2) [OF v(1) that] by (auto intro: Validator_feature_ok)
  moreover have "valid_env_name k" if "(k, m) \<in> set (secrets c)" for k m
    using object_entries_Ok(2) [OF v(10) that] by (auto intro: Validator_secret_name)
  moreover have "distinct (map requested_port (forward_ports c)) \<and> 0 \<notin> requested_port ` set (forward_ports c)"
    using v(5) by (auto simp: Validator_forward_ports_def elim!: and_then_OkE split: option.splits dest!: forward_ports_loop_Ok)
  moreover have "requirements_ok r" if "host_requirements_of c = Some r" for r
    using v(8) that by (auto simp: optionally_Ok split: option.splits intro: Validator_host_requirements_ok)
  ultimately show ?thesis unfolding common_ok_def
    using object_entries_Ok(1) [OF v(1)] object_entries_Ok(1) [OF v(2) [unfolded Validator_string_map_def]]
      object_entries_Ok(1) [OF v(3) [unfolded nullable_string_map_def]] app_ports_ok [OF v(4)]
      object_entries_Ok(1) [OF v(6) [unfolded port_attributes_map_def]] Validator_lifecycle_ok [OF v(7)]
      object_entries_Ok(1) [OF v(9) [unfolded Validator_customizations_def]] object_entries_Ok(1) [OF v(10)]
    by blast
qed

definition scenario_ok :: "raw_scenario \<Rightarrow> bool" where
  "scenario_ok s \<longleftrightarrow> (case s of
     ImageScenario v \<Rightarrow> image v \<noteq> [] \<and> opt_shutdown_action (image_options v) \<noteq> Some StopCompose
   | DockerfileScenario v \<Rightarrow> dockerfile (build v) \<noteq> [] \<and> opt_shutdown_action (dockerfile_options v) \<noteq> Some StopCompose
   | ComposeScenario v \<Rightarrow> compose_files v \<noteq> [] \<and> [] \<notin> set (compose_files v) \<and> compose_service v \<noteq> [] \<and>
       compose_workspace_folder v \<noteq> [] \<and> run_services v \<noteq> Some [] \<and>
       compose_shutdown_action v \<noteq> Some StopContainer)"

lemma required_string_nonempty: "required_string_at obj parent key = Ok s \<Longrightarrow> s \<noteq> []"
  by (auto simp: required_string_at_def Let_def elim!: and_then_OkE split: if_splits)

lemma enum_optional_values: "enum_optional_at obj parent key allowed f = Ok (Some x) \<Longrightarrow> \<exists>t \<in> set allowed. x = f t"
  by (auto simp: enum_optional_at_def optionally_Ok Let_def elim!: and_then_OkE split: option.splits if_splits)

lemma Validator_non_compose_ok:
  assumes "Validator_non_compose root = Ok options"
  shows "opt_shutdown_action options \<noteq> Some StopCompose"
proof -
  from assms have "enum_optional_at root [] ''shutdownAction'' [''none'', ''stopContainer'']
      (\<lambda>t. if t = ''none'' then ShutdownNone else StopContainer) = Ok (opt_shutdown_action options)"
    unfolding Validator_non_compose_def by (elim and_then_OkE) clarsimp
  then show ?thesis by (auto dest!: enum_optional_values split: if_splits)
qed

lemma Validator_compose_ok:
  assumes "Validator_compose root v = Ok s"
  shows "scenario_ok (ComposeScenario s)"
proof -
  from assms have c: "compose_files s \<noteq> []" "[] \<notin> set (compose_files s)"
    "required_string_at root [] ''service'' = Ok (compose_service s)"
    "required_string_at root [] ''workspaceFolder'' = Ok (compose_workspace_folder s)" "run_services s \<noteq> Some []"
    "enum_optional_at root [] ''shutdownAction'' [''none'', ''stopCompose'']
      (\<lambda>t. if t = ''none'' then ShutdownNone else StopCompose) = Ok (compose_shutdown_action s)"
    by (auto simp: Validator_compose_def Let_def first_empty_def elim!: and_then_OkE split: if_splits option.splits)
  have "compose_shutdown_action s \<noteq> Some StopContainer"
    using c(6) by (auto dest!: enum_optional_values split: if_splits)
  then show ?thesis using c required_string_nonempty by (simp add: scenario_ok_def)
qed

lemma Validator_build_ok: "Validator_build v = Ok b \<Longrightarrow> dockerfile b \<noteq> []"
  unfolding Validator_build_def Let_def by (elim and_then_OkE) (auto dest: required_string_nonempty)

lemma Validator_scenario_Ok:
  assumes "Validator_scenario root = Ok s"
  obtains i options where "required_string_at root [] ''image'' = Ok i" "Validator_non_compose root = Ok options"
      "s = ImageScenario \<lparr>image = i, image_options = options\<rparr>" "bt_get root ''image'' \<noteq> None"
    | v b options where "Validator_build v = Ok b" "Validator_non_compose root = Ok options"
      "s = DockerfileScenario \<lparr>build = b, dockerfile_options = options\<rparr>" "bt_get root ''build'' = Some v"
    | v c where "Validator_compose root v = Ok c" "s = ComposeScenario c" "bt_get root ''dockerComposeFile'' = Some v"
proof (cases "bt_get root ''image''")
  case (Some w)
  with assms show ?thesis unfolding Validator_scenario_def Let_def
    by (simp del: reject_present.simps) (elim conjE exE, rule that(1), simp_all)
next
  case None
  show ?thesis
  proof (cases "bt_get root ''build''")
    case (Some w)
    with None assms show ?thesis unfolding Validator_scenario_def Let_def
      by (simp del: reject_present.simps) (elim conjE exE, rule that(2), simp_all)
  next
    case None
    with \<open>bt_get root ''image'' = None\<close> assms show ?thesis unfolding Validator_scenario_def Let_def
      by (simp del: reject_present.simps) (elim conjE exE, rule that(3), simp_all)
  qed
qed

lemma Validator_scenario_ok:
  assumes "Validator_scenario root = Ok s"
  shows "scenario_ok s"
  using assms
proof (cases rule: Validator_scenario_Ok)
  case (1 i options)
  then show ?thesis using required_string_nonempty [OF 1(1)] Validator_non_compose_ok [OF 1(2)]
    by (simp add: scenario_ok_def)
next
  case (2 v b options)
  then show ?thesis using Validator_build_ok [OF 2(1)] Validator_non_compose_ok [OF 2(2)]
    by (simp add: scenario_ok_def)
next
  case (3 v c)
  then show ?thesis using Validator_compose_ok by simp
qed

lemma reject_unsupported_Ok: "reject_unsupported root = Ok u \<longleftrightarrow> (\<forall>(k, v) \<in> set root. supported_property k)"
  by (induction root) (auto split: if_splits)

text \<open>The scenario properties that a document has.\<close>

definition scenario_keys :: "raw_scenario \<Rightarrow> string list" where
  "scenario_keys s = (case s of ImageScenario _ \<Rightarrow> [''image''] | DockerfileScenario _ \<Rightarrow> [''build'']
     | ComposeScenario _ \<Rightarrow> [''dockerComposeFile''])"

lemma validate_profile_Ok:
  assumes "validate_profile url_parse document = Ok profile"
  obtains root where "document = JObject root" "\<forall>(k, v) \<in> set root. supported_property k"
    "length (filter (\<lambda>k. bt_get root k \<noteq> None) [''image'', ''build'', ''dockerComposeFile'']) = 1"
    "Validator_common url_parse root = Ok (common profile)" "Validator_scenario root = Ok (scenario profile)"
proof -
  from assms obtain root where root: "Validator_object [] document = Ok root" "reject_unsupported root = Ok ()"
    "length (filter (\<lambda>k. bt_get root k \<noteq> None) [''image'', ''build'', ''dockerComposeFile'']) = 1"
    "Validator_common url_parse root = Ok (common profile)" "Validator_scenario root = Ok (scenario profile)"
    unfolding validate_profile_def by (elim and_then_OkE) (auto split: if_splits elim!: and_then_OkE simp del: filter.simps)
  moreover from root(1) have "document = JObject root"
    by (auto simp: Validator_object_def as_object_def split: json.splits)
  ultimately show ?thesis using that reject_unsupported_Ok by blast
qed

text \<open>C37: an accepted document is an object of supported properties with exactly one scenario property, and the
  profile read from it is well formed: the scenario names its image, Dockerfile or Compose files
  and service, ports are nonzero and no two forwards want the same one, Features are keyed by
  references that parse to their source, direct commands are not empty, byte sizes have digits and
  a known unit, and secrets are named like variables.\<close>

theorem profile_validation_sound:
  assumes "validate_profile url_parse document = Ok profile"
  shows "\<exists>root. document = JObject root \<and> (\<forall>(k, v) \<in> set root. supported_property k) \<and>
    filter (\<lambda>k. bt_get root k \<noteq> None) [''image'', ''build'', ''dockerComposeFile''] = scenario_keys (scenario profile) \<and>
    scenario_ok (scenario profile) \<and> common_ok url_parse (common profile)"
  using assms
proof (rule validate_profile_Ok)
  fix root
  assume root: "document = JObject root" "\<forall>(k, v) \<in> set root. supported_property k"
    "length (filter (\<lambda>k. bt_get root k \<noteq> None) [''image'', ''build'', ''dockerComposeFile'']) = 1"
    "Validator_common url_parse root = Ok (common profile)" "Validator_scenario root = Ok (scenario profile)"
  from root(5) have "filter (\<lambda>k. bt_get root k \<noteq> None) [''image'', ''build'', ''dockerComposeFile''] = scenario_keys (scenario profile)"
    using root(3) by (cases rule: Validator_scenario_Ok) (auto simp: scenario_keys_def split: if_splits)
  with root Validator_common_ok [OF root(4)] Validator_scenario_ok [OF root(5)] show ?thesis by blast
qed

definition sample_document :: json where
  "sample_document = JObject [(''forwardPorts'', JArray [JNumber (PosInt 3000), JString ''db:5432'']),
     (''image'', JString ''debian'')]"

lemma sample_document_valid: "\<exists>profile. validate_profile (\<lambda>_. Err []) sample_document = Ok profile"
  by (simp add: sample_document_def validate_profile_def Validator_object_def as_object_def supported_property_def
    PROPERTY_FAMILIES_def optional_string_at_def optionally_def Validator_common_def object_entries_def
    strings_or_empty_def Validator_string_array_def Validator_string_map_def nullable_string_map_def
    optional_bool_at_def enum_optional_at_def Validator_mounts_def Validator_app_ports_def
    Validator_forward_ports_def Validator_array_def as_array_def Validator_forward_port_def
    Validator_port_number_def as_u64_def port_attributes_map_def Validator_lifecycle_def Validator_command_def
    Validator_customizations_def Validator_scenario_def required_string_at_def Validator_string_def as_str_def
    Validator_non_compose_def Let_def rsplit_once_def parse_uint_def is_ascii_digit_def is_ascii_lowercase_def
    digits_value_def)

theorem profile_validation_sound_witness:
  "\<exists>profile i. validate_profile (\<lambda>_. Err []) sample_document = Ok profile \<and> scenario profile = ImageScenario i \<and>
     image i \<noteq> [] \<and> distinct (map requested_port (forward_ports (common profile)))"
proof -
  obtain profile where profile: "validate_profile (\<lambda>_. Err []) sample_document = Ok profile"
    using sample_document_valid by (rule exE)
  obtain root where root: "sample_document = JObject root"
    "filter (\<lambda>k. bt_get root k \<noteq> None) [''image'', ''build'', ''dockerComposeFile''] = scenario_keys (scenario profile)"
    "scenario_ok (scenario profile)" "common_ok (\<lambda>_. Err []) (common profile)"
    using profile_validation_sound [OF profile] by (elim exE conjE) (rule that)
  from root(1,2) have "scenario_keys (scenario profile) = [''image'']" by (auto simp: sample_document_def)
  then obtain i where i: "scenario profile = ImageScenario i"
    by (cases "scenario profile") (simp_all add: scenario_keys_def)
  with root(3) have "image i \<noteq> []" by (simp add: scenario_ok_def)
  moreover from root(4) have "distinct (map requested_port (forward_ports (common profile)))"
    unfolding common_ok_def by blast
  ultimately show ?thesis using profile i by (intro exI conjI)
qed

end
