(* ===== verification/Discovery.thy ===== *)
theory Discovery
  imports Ordered_Map
begin

text \<open>
  Configuration discovery (\<open>discovery.rs\<close>): repository-relative paths and the choice of a
  configuration from an inventory of regular files. The choice is shown to depend on the set of
  files only: the explicit path, else the first conventional path, else the only folder form.
\<close>

section \<open>Paths\<close>

datatype config_path = ConfigPath (config_path_text: string)

datatype config_path_error = EmptyConfigPath | AbsoluteConfigPath | BackslashConfigPath | InvalidConfigComponent

definition ConfigPath_parse :: "string \<Rightarrow> (config_path, config_path_error) result" where
  "ConfigPath_parse v =
     (if v = [] then Err EmptyConfigPath
      else if prefix ''/'' v then Err AbsoluteConfigPath
      else if CHR 92 \<in> set v then Err BackslashConfigPath
      else if list_ex (\<lambda>c. c = [] \<or> c = ''.'' \<or> c = ''..'') (split_on (CHR ''/'') v) then Err InvalidConfigComponent
      else Ok (ConfigPath v))"

section \<open>Discovery\<close>

datatype discovery_error = ExplicitNotFound config_path | AmbiguousFolder "config_path list"

definition is_folder_form :: "string \<Rightarrow> bool" where
  "is_folder_form p =
     (case strip_prefix ''.devcontainer/'' p of
        None \<Rightarrow> False
      | Some rest \<Rightarrow>
          (case strip_suffix ''/devcontainer.json'' rest of
             None \<Rightarrow> False
           | Some folder \<Rightarrow> folder \<noteq> [] \<and> CHR ''/'' \<notin> set folder))"

definition conventional_paths :: "config_path list" where
  "conventional_paths = [ConfigPath ''.devcontainer/devcontainer.json'', ConfigPath ''.devcontainer.json'']"

definition discover_config ::
    "config_path list \<Rightarrow> config_path option \<Rightarrow> (config_path option, discovery_error) result" where
  "discover_config files explicit =
     (case explicit of
        Some path \<Rightarrow> if path \<in> set files then Ok (Some path) else Err (ExplicitNotFound path)
      | None \<Rightarrow>
          (case find (\<lambda>path. path \<in> set files) conventional_paths of
             Some path \<Rightarrow> Ok (Some path)
           | None \<Rightarrow>
               (let folder_matches = remdups_adj (sort_key config_path_text
                      (filter (\<lambda>path. is_folder_form (config_path_text path)) files)) in
                case folder_matches of
                  [] \<Rightarrow> Ok None
                | [path] \<Rightarrow> Ok (Some path)
                | _ \<Rightarrow> Err (AmbiguousFolder folder_matches))))"

section \<open>Correctness\<close>

lemma is_folder_form_iff:
  "is_folder_form p \<longleftrightarrow>
     (\<exists>folder. p = ''.devcontainer/'' @ folder @ ''/devcontainer.json'' \<and> folder \<noteq> [] \<and> CHR ''/'' \<notin> set folder)"
proof -
  have "(\<exists>rest. strip_prefix ''.devcontainer/'' p = Some rest \<and> (\<exists>folder. strip_suffix ''/devcontainer.json'' rest = Some folder \<and>
      folder \<noteq> [] \<and> CHR ''/'' \<notin> set folder)) \<longleftrightarrow>
    (\<exists>folder. p = ''.devcontainer/'' @ folder @ ''/devcontainer.json'' \<and> folder \<noteq> [] \<and> CHR ''/'' \<notin> set folder)"
    unfolding strip_prefix_Some strip_suffix_Some by blast
  then show ?thesis unfolding is_folder_form_def by (auto split: option.splits)
qed

lemma config_path_text_inj: "inj config_path_text"
  by (rule injI) (metis config_path.expand)

lemma strict_dedup: "sorted xs \<Longrightarrow> sorted_wrt (<) (remdups_adj xs)"
  by (induction xs rule: remdups_adj.induct) (fastforce simp: less_le)+

lemma sorted_dedup:
  assumes "inj f"
  shows "map f (remdups_adj (sort_key f xs)) = sorted_list_of_set (f ` set xs)"
proof -
  have "map f (remdups_adj (sort_key f xs)) = remdups_adj (map f (sort_key f xs))" (is "?ys = _")
    using assms by (simp add: remdups_adj_map_injective)
  then have "sorted_wrt (<) ?ys" by (simp add: strict_dedup)
  moreover have "set ?ys = f ` set xs" by simp
  ultimately show ?thesis
    by (metis sorted_list_of_set.idem_if_sorted_distinct strict_sorted_iff)
qed

text \<open>What discovery answers, as a function of the set of files.\<close>

definition discovery_of :: "config_path set \<Rightarrow> config_path option \<Rightarrow> (config_path option, discovery_error) result" where
  "discovery_of files explicit =
     (let folders = {p \<in> files. is_folder_form (config_path_text p)} in
      case explicit of
        Some path \<Rightarrow> if path \<in> files then Ok (Some path) else Err (ExplicitNotFound path)
      | None \<Rightarrow>
          if ConfigPath ''.devcontainer/devcontainer.json'' \<in> files
          then Ok (Some (ConfigPath ''.devcontainer/devcontainer.json''))
          else if ConfigPath ''.devcontainer.json'' \<in> files then Ok (Some (ConfigPath ''.devcontainer.json''))
          else if folders = {} then Ok None
          else if card folders = 1 then Ok (Some (the_elem folders))
          else Err (AmbiguousFolder (map ConfigPath (sorted_list_of_set (config_path_text ` folders)))))"

lemma folder_matches:
  "remdups_adj (sort_key config_path_text xs) = map ConfigPath (sorted_list_of_set (config_path_text ` set xs))"
  by (simp add: sorted_dedup [OF config_path_text_inj, symmetric] comp_def)

text \<open>C40: discovery depends on the inventory as a set only. An explicit path is taken if it is a regular
  file, and nothing else is tried. Otherwise the first conventional path is taken, and otherwise
  the folder form \<open>.devcontainer/<folder>/devcontainer.json\<close> if there is exactly one; several
  are reported in lexical order. What is selected is always in the inventory.\<close>

theorem discovery_exact:
  "discover_config files explicit = discovery_of (set files) explicit \<and>
   (is_folder_form p \<longleftrightarrow>
     (\<exists>folder. p = ''.devcontainer/'' @ folder @ ''/devcontainer.json'' \<and> folder \<noteq> [] \<and> CHR ''/'' \<notin> set folder))"
proof
  show "discover_config files explicit = discovery_of (set files) explicit"
  proof (cases explicit)
    case None
    define xs where "xs = filter (\<lambda>path. is_folder_form (config_path_text path)) files"
    define ps where "ps = sorted_list_of_set (config_path_text ` set xs)"
    have folders: "{p \<in> set files. is_folder_form (config_path_text p)} = set xs" by (auto simp: xs_def)
    have matches: "remdups_adj (sort_key config_path_text xs) = map ConfigPath ps"
      unfolding ps_def by (rule folder_matches)
    have set_ps: "set ps = config_path_text ` set xs" by (simp add: ps_def)
    then have set_xs: "set xs = ConfigPath ` set ps" by (simp add: image_image)
    have card: "card (set xs) = length ps"
      unfolding ps_def by (simp add: card_image inj_on_subset [OF config_path_text_inj])
    have "(case map ConfigPath ps of [] \<Rightarrow> Ok None | [path] \<Rightarrow> Ok (Some path) | _ \<Rightarrow> Err (AmbiguousFolder (map ConfigPath ps))) =
        (if set xs = {} then Ok None else if card (set xs) = 1 then Ok (Some (the_elem (set xs)))
         else Err (AmbiguousFolder (map ConfigPath ps)))"
      unfolding card using set_xs by (cases ps; cases "tl ps") (simp_all split: list.split)
    with None show ?thesis
      unfolding discover_config_def discovery_of_def Let_def folders xs_def [symmetric] matches ps_def [symmetric]
      by (simp add: conventional_paths_def)
  qed (simp add: discover_config_def discovery_of_def)
qed (rule is_folder_form_iff)

end
