(* ===== verification/Compose_Plan.thy ===== *)
theory Compose_Plan
  imports Planning Ports
begin

text \<open>
  Compose planning (\<open>compose.rs\<close> of \<open>cdenv-devcontainer\<close>): the project name, the services
  requested and managed, and the override document. A set of service names is the ascending list
  of its elements. SHA-256 and the JSON writer are parameters. An index of the service map that
  would panic is the result \<open>None\<close>.
\<close>

section \<open>Types\<close>

record compose_identity =
  identity_installation :: string
  identity_workspace :: string
  identity_generation :: string
  identity_profile :: string

record compose_service_model =
  service_image :: "string option"
  has_build :: bool
  service_dependencies :: "string list"
  service_user :: "string option"

type_synonym compose_model = "(string, compose_service_model) btree"

record compose_primary_override =
  override_image :: "string option"
  override_entrypoint :: "string list option"
  override_command_vector :: "string list option"

record compose_planning_inputs =
  compose_identity_of :: compose_identity
  compose_runtime :: runtime_plan
  compose_ports :: port_plan
  primary_override :: compose_primary_override

record compose_plan =
  project_name :: string
  primary_service :: string
  requested_services :: "string list"
  managed_services :: "string list"
  override_json :: "8 word list"

datatype compose_planning_error =
    MissingPrimary string | MissingRunService string | MissingDependency string string
  | InvalidIdentity string | Encoding

section \<open>The project name\<close>

definition MAXIMUM_COMPOSE_PROJECT_NAME_LENGTH :: nat where
  "MAXIMUM_COMPOSE_PROJECT_NAME_LENGTH = 63"

definition PROJECT_HASH_LENGTH :: nat where
  "PROJECT_HASH_LENGTH = 12"

text \<open>
  \<^verbatim>\<open>char::to_lowercase\<close> as far as the source looks at it, which is whether a resulting character
  is an ASCII letter or digit: besides the ASCII capitals, only U+0130 (small i and a combining
  dot) and the Kelvin sign U+212A (small k) have an ASCII character in their lowercase form. Any
  other scalar stands for its lowercase form.
\<close>

definition to_lowercase :: "scalar \<Rightarrow> scalar list" where
  "to_lowercase c =
     (if is_ascii_uppercase c then [c + 32]
      else if c = 0x130 then [0x69, 0x307]
      else if c = 0x212A then [0x6B]
      else [c])"

fun project_component_loop :: "scalar list \<Rightarrow> string \<Rightarrow> bool \<Rightarrow> string" where
  "project_component_loop [] out separator = out"
| "project_component_loop (c # cs) out separator =
     (if is_ascii_alphanumeric c then project_component_loop cs (out @ [char_of c]) False
      else if \<not> separator \<and> out \<noteq> [] then project_component_loop cs (out @ ''-'') True
      else project_component_loop cs out separator)"

definition safe_project_component :: "string \<Rightarrow> string" where
  "safe_project_component v =
     (let out = trim_end_matches (CHR ''-'') (project_component_loop (concat (map to_lowercase (chars v))) [] False) in
      if out = [] then ''x'' else out)"

definition compose_project_name :: "digest \<Rightarrow> string \<Rightarrow> string \<Rightarrow> string" where
  "compose_project_name sha256 installation workspace =
     (let canonical = ''cdenv-'' @ safe_project_component installation @ ''-'' @ safe_project_component workspace in
      if length canonical \<le> MAXIMUM_COMPOSE_PROJECT_NAME_LENGTH then canonical
      else let hash = lower_hex (sha256 (map (of_nat \<circ> byte) canonical));
               kept = take (MAXIMUM_COMPOSE_PROJECT_NAME_LENGTH - PROJECT_HASH_LENGTH - 1) canonical in
           rev (dropWhile (\<lambda>c. c = CHR ''-'' \<or> c = CHR ''_'') (rev kept)) @ ''-'' @ take PROJECT_HASH_LENGTH hash)"

section \<open>The service set\<close>

definition set_of :: "string list \<Rightarrow> string list" where
  "set_of xs = fold insort_insert xs []"

text \<open>One pass over the dependencies of a popped service; the stack has its top first.\<close>

fun push_dependencies ::
    "compose_model \<Rightarrow> string \<Rightarrow> string list \<Rightarrow> string list \<times> string list \<Rightarrow>
     (string list \<times> string list, compose_planning_error) result" where
  "push_dependencies model service [] st = Ok st"
| "push_dependencies model service (d # ds) (managed, pending) =
     (if bt_get model d = None then Err (MissingDependency service d)
      else if d \<in> set managed then push_dependencies model service ds (managed, pending)
      else push_dependencies model service ds (insort_insert d managed, d # pending))"

lemma push_dependencies_measure:
  assumes "push_dependencies model service ds (managed, pending) = Ok (managed', pending')"
  shows "card (fst ` set model - set managed') + length pending' = card (fst ` set model - set managed) + length pending"
  using assms
proof (induction model service ds "(managed, pending)" arbitrary: managed pending rule: push_dependencies.induct)
  case (2 model service d ds managed pending)
  have "card (fst ` set model - insert d (set managed)) + 1 = card (fst ` set model - set managed)"
    if "bt_get model d \<noteq> None" "d \<notin> set managed"
  proof -
    from that have "d \<in> fst ` set model - set managed" by (simp add: map_of_eq_None_iff)
    then show ?thesis by (metis Diff_insert Suc_eq_plus1 card.remove finite_Diff finite_imageI finite_set)
  qed
  with 2 show ?case by (auto split: if_splits simp: set_insort_insert)
qed simp

function dependency_closure ::
    "compose_model \<Rightarrow> string list \<Rightarrow> string list \<Rightarrow> (string list, compose_planning_error) result option" where
  "dependency_closure model managed [] = Some (Ok managed)"
| "dependency_closure model managed (service # pending) =
     (case bt_get model service of
        None \<Rightarrow> None
      | Some found \<Rightarrow>
          (case push_dependencies model service (service_dependencies found) (managed, pending) of
             Err e \<Rightarrow> Some (Err e)
           | Ok (managed', pending') \<Rightarrow> dependency_closure model managed' pending'))"
  by pat_completeness auto
termination
proof (relation "measure (\<lambda>(model, managed, pending). card (fst ` set model - set managed) + length pending)")
  fix model :: compose_model and managed pending and service found x managed' pending'
  assume "push_dependencies model service (service_dependencies found) (managed, pending) = Ok x" "(managed', pending') = x"
  then show "((model, managed', pending'), (model, managed, service # pending)) \<in>
      measure (\<lambda>(model, managed, pending). card (fst ` set model - set managed) + length pending)"
    by (auto dest: push_dependencies_measure)
qed simp

section \<open>The override\<close>

record mount_override =
  override_kind :: string
  override_source :: "string option"
  override_target :: string
  override_read_only :: bool

record service_override =
  so_labels :: "(string, string) btree"
  so_image :: "string option"
  so_build :: "json option"
  so_pull_policy :: "string option"
  so_working_dir :: "string option"
  so_volumes :: "mount_override list"
  so_environment :: "(string, string) btree"
  so_ports :: "string list"
  so_user :: "string option"
  so_init :: "bool option"
  so_privileged :: "bool option"
  so_cap_add :: "string list"
  so_security_opt :: "string list"
  so_entrypoint :: "string list option"
  so_command :: "string list option"

type_synonym override_document = "(string, service_override) btree"

type_synonym override_encoder = "override_document \<Rightarrow> 8 word list option"

definition mount_override_of :: "planned_mount \<Rightarrow> mount_override" where
  "mount_override_of m =
     \<lparr>override_kind = (case planned_kind m of Bind \<Rightarrow> ''bind'' | Volume \<Rightarrow> ''volume''),
      override_source = planned_source m, override_target = container_path_text (planned_target m),
      override_read_only = list_ex (\<lambda>option. mount_option_name option = ''readonly'' \<or> mount_option_name option = ''ro'')
        (planned_options m)\<rparr>"

definition owned_labels :: "compose_identity \<Rightarrow> (string, string) btree" where
  "owned_labels i =
     bt_of [(''cdenv.generation'', identity_generation i), (''cdenv.installation'', identity_installation i),
       (''cdenv.profile'', identity_profile i), (''cdenv.workspace'', identity_workspace i)]"

definition labelled_service :: "(string, string) btree \<Rightarrow> service_override" where
  "labelled_service owned =
     \<lparr>so_labels = owned, so_image = None, so_build = None, so_pull_policy = None, so_working_dir = None,
      so_volumes = [], so_environment = [], so_ports = [], so_user = None, so_init = None, so_privileged = None,
      so_cap_add = [], so_security_opt = [], so_entrypoint = None, so_command = None\<rparr>"

definition primary_service_override :: "compose_planning_inputs \<Rightarrow> service_override \<Rightarrow> service_override" where
  "primary_service_override inputs s =
     (let r = compose_runtime inputs; replacement = primary_override inputs;
          s = s\<lparr>so_working_dir := Some (container_path_text (workspace_folder_path (plan_workspace r))),
                so_volumes := so_volumes s @ mount_override_of (workspace_mount (plan_workspace r)) #
                  map mount_override_of (plan_mounts r),
                so_environment := plan_container_env (plan_environment r),
                so_ports := map pub_argument (publications (compose_ports inputs)),
                so_user := Some (user_text (plan_container_user r)),
                so_init := (if plan_init r then Some True else None),
                so_privileged := (if plan_privileged r then Some True else None),
                so_cap_add := plan_cap_add r,
                so_security_opt := plan_security_opt r,
                so_entrypoint := override_entrypoint replacement,
                so_command := override_command_vector replacement\<rparr> in
      case override_image replacement of
        None \<Rightarrow> s
      | Some i \<Rightarrow> s\<lparr>so_image := Some i, so_build := Some JNull, so_pull_policy := Some ''never''\<rparr>)"

definition override_services ::
    "compose_model \<Rightarrow> string \<Rightarrow> compose_planning_inputs \<Rightarrow> (override_document, compose_planning_error) result" where
  "override_services model primary inputs =
     (let services = map (\<lambda>(name, _). (name, labelled_service (owned_labels (compose_identity_of inputs)))) model in
      case bt_get services primary of
        None \<Rightarrow> Err (MissingPrimary primary)
      | Some s \<Rightarrow> Ok (bt_insert primary (primary_service_override inputs s) services))"

definition render_override ::
    "override_encoder \<Rightarrow> compose_model \<Rightarrow> string \<Rightarrow> compose_planning_inputs \<Rightarrow>
     (8 word list, compose_planning_error) result" where
  "render_override encode model primary inputs =
     and_then (override_services model primary inputs) (\<lambda>services. ok_or Encoding (encode services))"

section \<open>The plan\<close>

fun check_identity_fields :: "(string \<times> string) list \<Rightarrow> (unit, compose_planning_error) result" where
  "check_identity_fields [] = Ok ()"
| "check_identity_fields ((field, v) # rest) =
     (if v = [] \<or> list_ex is_control (chars v) then Err (InvalidIdentity field) else check_identity_fields rest)"

definition validate_identity :: "compose_identity \<Rightarrow> (unit, compose_planning_error) result" where
  "validate_identity i =
     check_identity_fields [(''installation'', identity_installation i), (''workspace'', identity_workspace i),
       (''generation'', identity_generation i), (''profile'', identity_profile i)]"

definition plan_compose ::
    "digest \<Rightarrow> override_encoder \<Rightarrow> compose_scenario \<Rightarrow> compose_model \<Rightarrow> compose_planning_inputs \<Rightarrow>
     (compose_plan, compose_planning_error) result option" where
  "plan_compose sha256 encode compose model inputs =
     (case validate_identity (compose_identity_of inputs) of
        Err e \<Rightarrow> Some (Err e)
      | Ok _ \<Rightarrow>
      if bt_get model (compose_service compose) = None then Some (Err (MissingPrimary (compose_service compose)))
      else let requested = (case run_services compose of Some services \<Rightarrow> services | None \<Rightarrow> bt_keys model) in
      case find (\<lambda>service. bt_get model service = None) requested of
        Some service \<Rightarrow> Some (Err (MissingRunService service))
      | None \<Rightarrow>
      let wanted = insort_insert (compose_service compose) (set_of requested) in
      map_option (\<lambda>closure.
        and_then closure (\<lambda>managed.
        and_then (render_override encode model (compose_service compose) inputs) (\<lambda>json.
        Ok \<lparr>project_name = compose_project_name sha256 (identity_installation (compose_identity_of inputs))
              (identity_workspace (compose_identity_of inputs)),
            primary_service = compose_service compose, requested_services = wanted,
            managed_services = managed, override_json = json\<rparr>)))
        (dependency_closure model wanted (rev wanted)))"

section \<open>The project name is safe\<close>

definition name_char :: "char \<Rightarrow> bool" where
  "name_char c \<longleftrightarrow> is_ascii_lowercase (byte c) \<or> is_ascii_digit (byte c)"

definition project_name_ok :: "string \<Rightarrow> bool" where
  "project_name_ok n \<longleftrightarrow> prefix ''cdenv-'' n \<and> length n \<le> 63 \<and>
     (\<forall>c \<in> set n. name_char c \<or> c = CHR ''-'') \<and> name_char (last n)"

lemma to_lowercase_name_char:
  "c \<in> set (to_lowercase d) \<Longrightarrow> is_ascii_alphanumeric c \<Longrightarrow> name_char (char_of c)"
  by (auto simp: to_lowercase_def name_char_def is_ascii_alphanumeric_def is_ascii_alphabetic_def
    is_ascii_lowercase_def is_ascii_uppercase_def is_ascii_digit_def split: if_splits)

lemma project_component_loop_chars:
  assumes "\<forall>c \<in> set cs. is_ascii_alphanumeric c \<longrightarrow> name_char (char_of c)"
    and "\<forall>c \<in> set out. name_char c \<or> c = CHR ''-''" and "out \<noteq> [] \<Longrightarrow> name_char (hd out)"
  shows "(\<forall>c \<in> set (project_component_loop cs out sep). name_char c \<or> c = CHR ''-'') \<and>
    (project_component_loop cs out sep \<noteq> [] \<longrightarrow> name_char (hd (project_component_loop cs out sep)))"
  using assms by (induction cs out sep rule: project_component_loop.induct) (auto simp: hd_append)

lemma safe_project_component_shape:
  "safe_project_component v \<noteq> []" "\<forall>c \<in> set (safe_project_component v). name_char c \<or> c = CHR ''-''"
  "name_char (hd (safe_project_component v))" "name_char (last (safe_project_component v))"
proof -
  define loop where "loop = project_component_loop (concat (map to_lowercase (chars v))) [] False"
  define out where "out = trim_end_matches (CHR ''-'') loop"
  have loop: "\<forall>c \<in> set loop. name_char c \<or> c = CHR ''-''" "loop \<noteq> [] \<Longrightarrow> name_char (hd loop)"
    unfolding loop_def using project_component_loop_chars [of "concat (map to_lowercase (chars v))" "[]" False]
    by (auto dest: to_lowercase_name_char)
  have all: "\<forall>c \<in> set out. name_char c \<or> c = CHR ''-''"
    using loop(1) trim_end_matches_set [of "CHR ''-''" loop] by (auto simp: out_def)
  have hd: "name_char (hd out)" if "out \<noteq> []"
    using that loop(2) trim_end_matches_prefix [of "CHR ''-''" loop]
    by (metis append_is_Nil_conv hd_append2 out_def prefix_def)
  have last: "name_char (last out)" if "out \<noteq> []"
    using that all trim_end_matches_last [of "CHR ''-''" loop] by (auto simp: out_def)
  have eq: "safe_project_component v = (if out = [] then ''x'' else out)"
    by (simp add: safe_project_component_def out_def loop_def Let_def)
  show "safe_project_component v \<noteq> []" "\<forall>c \<in> set (safe_project_component v). name_char c \<or> c = CHR ''-''"
    "name_char (hd (safe_project_component v))" "name_char (last (safe_project_component v))"
    using all hd last unfolding eq by (auto simp: name_char_def is_ascii_lowercase_def)
qed

lemma hex_digit_name_char: "n < 16 \<Longrightarrow> name_char (hex_digit_char n)"
  by (auto simp: hex_digit_char_def name_char_def is_ascii_lowercase_def is_ascii_digit_def)

lemma lower_hex_chars: "\<forall>c \<in> set (lower_hex bs). name_char c"
proof -
  have "unat b < 256" for b :: "8 word" using unsigned_less [of b] by simp
  then have "unat b div 16 < 16" for b :: "8 word" by (simp add: less_mult_imp_div_less)
  then show ?thesis by (auto simp: lower_hex_def hex_digit_name_char)
qed

lemma compose_project_name_ok:
  assumes "\<forall>b. length (sha256 b) = 32"
  shows "project_name_ok (compose_project_name sha256 installation workspace)"
proof -
  define canonical where
    "canonical = ''cdenv-'' @ safe_project_component installation @ ''-'' @ safe_project_component workspace"
  have name: "name_char c" if "c \<in> set ''cdenv''" for c
    using that by (auto simp: name_char_def is_ascii_lowercase_def)
  have chars: "\<forall>c \<in> set canonical. name_char c \<or> c = CHR ''-''"
    using name safe_project_component_shape(2) by (auto simp: canonical_def)
  show ?thesis
  proof (cases "length canonical \<le> 63")
    case True
    with chars safe_project_component_shape show ?thesis
      unfolding compose_project_name_def Let_def canonical_def [symmetric] project_name_ok_def
      by (simp add: MAXIMUM_COMPOSE_PROJECT_NAME_LENGTH_def) (simp add: canonical_def)
  next
    case False
    define hash where "hash = take 12 (lower_hex (sha256 (map (of_nat \<circ> byte) canonical)))"
    define sep where "sep = (\<lambda>c. c = CHR ''-'' \<or> c = CHR ''_'')"
    define kept where "kept = rev (dropWhile sep (rev (take 50 canonical)))"
    have eq: "compose_project_name sha256 installation workspace = kept @ ''-'' @ hash"
      using False unfolding compose_project_name_def Let_def canonical_def [symmetric]
      by (simp add: hash_def kept_def sep_def MAXIMUM_COMPOSE_PROJECT_NAME_LENGTH_def PROJECT_HASH_LENGTH_def)
    have hash: "length hash = 12" "\<forall>c \<in> set hash. name_char c"
      using assms lower_hex_chars by (auto simp: hash_def length_lower_hex dest: in_set_takeD)
    have sub: "set kept \<subseteq> set canonical"
    proof
      fix c
      assume "c \<in> set kept"
      then have "c \<in> set (rev (take 50 canonical))" unfolding kept_def by (auto dest: set_dropWhileD)
      then show "c \<in> set canonical" by (auto dest: in_set_takeD)
    qed
    have len: "length kept \<le> 50"
      using length_dropWhile_le [of sep "rev (take 50 canonical)"] by (simp add: kept_def)
    have "prefix ''cdenv-'' kept"
    proof -
      obtain h t where ht: "safe_project_component installation = h # t" "name_char h"
        using safe_project_component_shape(1,3) [of installation] by (cases "safe_project_component installation") auto
      define u where "u = take 43 (t @ ''-'' @ safe_project_component workspace)"
      have u: "take 50 canonical = (''cdenv-'' @ [h]) @ u"
        by (simp add: canonical_def ht(1) u_def)
      have "\<not> sep h" using ht(2) by (auto simp: sep_def name_char_def is_ascii_lowercase_def is_ascii_digit_def)
      then have "dropWhile sep (rev u @ h # rev ''cdenv-'') = dropWhile sep (rev u) @ h # rev ''cdenv-''"
        by (cases "\<forall>x \<in> set (rev u). sep x") (auto simp: dropWhile_append)
      then have "kept = (''cdenv-'' @ [h]) @ rev (dropWhile sep (rev u))"
        unfolding kept_def u by simp
      then show ?thesis by simp
    qed
    with hash sub len chars show ?thesis
      unfolding eq project_name_ok_def by (auto simp: last_append intro: prefix_prefix)
  qed
qed

section \<open>The service set is the closure\<close>

definition depends :: "compose_model \<Rightarrow> (string \<times> string) set" where
  "depends model = {(s, d). \<exists>m. bt_get model s = Some m \<and> d \<in> set (service_dependencies m)}"

definition strictly_sorted :: "string list \<Rightarrow> bool" where
  "strictly_sorted xs \<longleftrightarrow> sorted_wrt (<) xs"

lemma strictly_sorted_insert: "strictly_sorted xs \<Longrightarrow> strictly_sorted (insort_insert x xs)"
  by (simp add: strictly_sorted_def strict_sorted_iff sorted_insort_insert distinct_insort_insert)

lemma set_of_facts: "strictly_sorted (set_of xs)" "set (set_of xs) = set xs"
proof -
  have "strictly_sorted (fold insort_insert xs ys)" if "strictly_sorted ys" for ys
    using that by (induction xs arbitrary: ys) (simp_all add: strictly_sorted_insert)
  then show "strictly_sorted (set_of xs)" by (simp add: set_of_def strictly_sorted_def)
  have "set (fold insort_insert xs ys) = set xs \<union> set ys" for ys
    by (induction xs arbitrary: ys) (auto simp: set_insort_insert)
  then show "set (set_of xs) = set xs" by (simp add: set_of_def)
qed

lemma push_dependencies_Ok:
  assumes "push_dependencies model service ds (managed, pending) = Ok (managed', pending')"
  shows "set managed' = set managed \<union> set ds" "set pending' = set pending \<union> (set ds - set managed)"
    "\<forall>d \<in> set ds. bt_get model d \<noteq> None" "strictly_sorted managed \<Longrightarrow> strictly_sorted managed'"
proof -
  have "set managed' = set managed \<union> set ds \<and> set pending' = set pending \<union> (set ds - set managed) \<and>
    (\<forall>d \<in> set ds. bt_get model d \<noteq> None) \<and> (strictly_sorted managed \<longrightarrow> strictly_sorted managed')"
    using assms
  proof (induction ds arbitrary: managed pending)
    case (Cons d ds)
    show ?case
    proof (cases "d \<in> set managed")
      case True
      with Cons.IH [of managed pending] Cons.prems show ?thesis by (auto split: if_splits)
    next
      case False
      with Cons.prems have "bt_get model d \<noteq> None"
        "push_dependencies model service ds (insort_insert d managed, d # pending) = Ok (managed', pending')"
        by (auto split: if_splits)
      with Cons.IH [OF this(2)] False show ?thesis
        by (auto simp: set_insort_insert strictly_sorted_insert)
    qed
  qed simp
  then show "set managed' = set managed \<union> set ds" "set pending' = set pending \<union> (set ds - set managed)"
    "\<forall>d \<in> set ds. bt_get model d \<noteq> None" "strictly_sorted managed \<Longrightarrow> strictly_sorted managed'" by simp_all
qed

lemma push_dependencies_Err:
  "push_dependencies model service ds (managed, pending) = Err e \<Longrightarrow>
     \<exists>d \<in> set ds. e = MissingDependency service d \<and> bt_get model d = None"
  by (induction ds arbitrary: managed pending) (auto split: if_splits)

lemma rtrancl_Image_absorb: "s \<in> M \<Longrightarrow> D \<subseteq> R `` {s} \<Longrightarrow> R\<^sup>* `` (M \<union> D) = R\<^sup>* `` M"
  by (auto intro: converse_rtrancl_into_rtrancl)

text \<open>Every popped service is known, so the walk answers, and with the closure unless a dependency is unknown.\<close>

definition closure_answer ::
    "compose_model \<Rightarrow> string set \<Rightarrow> (string list, compose_planning_error) result \<Rightarrow> bool" where
  "closure_answer model start r \<longleftrightarrow>
     (case r of
        Ok managed \<Rightarrow> set managed = (depends model)\<^sup>* `` start \<and> strictly_sorted managed \<and>
          (\<forall>s \<in> set managed. bt_get model s \<noteq> None)
      | Err e \<Rightarrow> \<exists>s d. e = MissingDependency s d \<and> s \<in> (depends model)\<^sup>* `` start \<and> (s, d) \<in> depends model \<and>
          bt_get model d = None)"

lemma dependency_closure_answer:
  assumes "set pending \<subseteq> set managed" and "\<forall>s \<in> set managed. bt_get model s \<noteq> None"
    and "depends model `` (set managed - set pending) \<subseteq> set managed" and "strictly_sorted managed"
  shows "\<exists>r. dependency_closure model managed pending = Some r \<and> closure_answer model (set managed) r"
  using assms
proof (induction model managed pending rule: dependency_closure.induct)
  case (1 model managed)
  then have "(depends model)\<^sup>* `` set managed = set managed" by (intro Image_closed_trancl) simp
  with 1 show ?case by (simp add: closure_answer_def)
next
  case (2 model managed service pending)
  then obtain m where m: "bt_get model service = Some m" by auto
  have step: "set (service_dependencies m) = depends model `` {service}" using m by (auto simp: depends_def)
  show ?case
  proof (cases "push_dependencies model service (service_dependencies m) (managed, pending)")
    case (Ok x)
    obtain managed' pending' where x: "x = (managed', pending')" by (cases x)
    note pushed = push_dependencies_Ok [OF Ok [unfolded x]]
    obtain r where r: "dependency_closure model managed' pending' = Some r" "closure_answer model (set managed') r"
      using 2 pushed step by (atomize_elim, intro "2.IH" [OF m Ok x [symmetric]]) auto
    have "(depends model)\<^sup>* `` set managed' = (depends model)\<^sup>* `` set managed"
      unfolding pushed(1) using 2(2) step by (intro rtrancl_Image_absorb [of service]) auto
    with r(2) have "closure_answer model (set managed) r" by (cases r) (simp_all add: closure_answer_def)
    with r(1) m Ok x show ?thesis by simp
  next
    case (Err e)
    with push_dependencies_Err [OF Err] 2(2) m step show ?thesis by (auto simp: closure_answer_def)
  qed
qed

lemma bt_insert_same_keys: "bt_ok m \<Longrightarrow> k \<in> fst ` set m \<Longrightarrow> bt_keys (bt_insert k v m) = bt_keys m"
  by (induction k v m rule: bt_insert.induct) (force simp: bt_ok_Cons)+

lemma override_services_meaning:
  assumes "bt_ok model" and "override_services model primary inputs = Ok doc"
  defines "owned \<equiv> labelled_service (owned_labels (compose_identity_of inputs))"
  shows "bt_keys doc = bt_keys model"
    and "bt_get doc name = (if name = primary then Some (primary_service_override inputs owned)
           else map_option (\<lambda>_. owned) (bt_get model name))"
proof -
  define services where "services = map (\<lambda>(name, _). (name, owned)) model"
  have keys: "bt_keys services = bt_keys model" by (simp add: services_def comp_def split_def)
  have get: "bt_get services n = map_option (\<lambda>_. owned) (bt_get model n)" for n
    unfolding services_def by (induction model) auto
  from assms(2) have doc: "doc = bt_insert primary (primary_service_override inputs owned) services"
    and known: "bt_get services primary = Some owned"
    by (auto simp: override_services_def Let_def owned_def [symmetric] services_def [symmetric] get
      split: option.splits)
  from assms(1) have "bt_ok services" by (simp add: bt_ok_def keys)
  moreover from known have "primary \<in> fst ` set services" by (metis domI dom_map_of_conv_image_fst)
  ultimately show "bt_keys doc = bt_keys model" by (simp add: doc bt_insert_same_keys keys)
  show "bt_get doc name = (if name = primary then Some (primary_service_override inputs owned)
           else map_option (\<lambda>_. owned) (bt_get model name))" by (simp add: doc get)
qed

definition wanted_services :: "compose_scenario \<Rightarrow> compose_model \<Rightarrow> string set" where
  "wanted_services compose model = insert (compose_service compose)
     (case run_services compose of Some services \<Rightarrow> set services | None \<Rightarrow> fst ` set model)"

text \<open>What an answer of the planner promises about the resolved model.\<close>

definition compose_promise ::
    "override_encoder \<Rightarrow> compose_scenario \<Rightarrow> compose_model \<Rightarrow> compose_identity \<Rightarrow>
     (compose_plan, compose_planning_error) result \<Rightarrow> bool" where
  "compose_promise encode compose model identity r \<longleftrightarrow>
    (case r of
       Ok plan \<Rightarrow>
         set (requested_services plan) = wanted_services compose model \<and>
         set (managed_services plan) = (depends model)\<^sup>* `` wanted_services compose model \<and>
         strictly_sorted (requested_services plan) \<and> strictly_sorted (managed_services plan) \<and>
         set (managed_services plan) \<subseteq> fst ` set model \<and> project_name_ok (project_name plan) \<and>
         (\<exists>doc. encode doc = Some (override_json plan) \<and> bt_keys doc = bt_keys model \<and>
           (\<forall>name. name \<noteq> compose_service compose \<longrightarrow>
             bt_get doc name = map_option (\<lambda>_. labelled_service (owned_labels identity)) (bt_get model name)))
     | Err (MissingDependency s d) \<Rightarrow>
         s \<in> (depends model)\<^sup>* `` wanted_services compose model \<and> (s, d) \<in> depends model \<and> d \<notin> fst ` set model
     | Err _ \<Rightarrow> True)"

lemma render_override_outcomes:
  assumes "bt_ok model"
  obtains "render_override encode model primary inputs = Err (MissingPrimary primary)"
  | "render_override encode model primary inputs = Err Encoding"
  | doc json where "render_override encode model primary inputs = Ok json" "encode doc = Some json"
      "bt_keys doc = bt_keys model"
      "\<forall>name. name \<noteq> primary \<longrightarrow> bt_get doc name =
         map_option (\<lambda>_. labelled_service (owned_labels (compose_identity_of inputs))) (bt_get model name)"
proof (cases "override_services model primary inputs")
  case (Err e)
  then have "e = MissingPrimary primary" by (auto simp: override_services_def Let_def split: option.splits)
  with Err show thesis by (intro that(1)) (simp add: render_override_def)
next
  case (Ok doc)
  then show thesis using override_services_meaning [OF assms Ok] that(2) that(3) [of _ doc]
    by (cases "encode doc") (simp_all add: render_override_def)
qed

lemma compose_promise_assembled:
  assumes closure: "closure_answer model (set wanted) r" and wanted: "set wanted = wanted_services compose model"
    "strictly_sorted wanted" and model: "bt_ok model" and name: "project_name_ok name"
  shows "compose_promise encode compose model (compose_identity_of inputs)
    (and_then r (\<lambda>managed. and_then (render_override encode model (compose_service compose) inputs) (\<lambda>json.
      Ok \<lparr>project_name = name, primary_service = compose_service compose, requested_services = wanted,
          managed_services = managed, override_json = json\<rparr>)))"
proof (cases r)
  case (Err e)
  with closure wanted show ?thesis
    by (auto simp: compose_promise_def closure_answer_def map_of_eq_None_iff)
next
  case (Ok managed)
  from closure Ok have managed: "set managed = (depends model)\<^sup>* `` set wanted" "strictly_sorted managed"
    "set managed \<subseteq> fst ` set model"
    by (auto simp: closure_answer_def map_of_eq_None_iff subset_iff)
  show ?thesis
  proof (cases rule: render_override_outcomes [OF model, of encode "compose_service compose" inputs])
    case (3 doc json)
    with Ok managed wanted name show ?thesis
      by (auto simp: compose_promise_def intro!: exI [of _ doc])
  qed (simp_all add: Ok compose_promise_def)
qed


text \<open>A requested service that needs a second one, and a third that nobody needs.\<close>

definition sample_service :: "string list \<Rightarrow> compose_service_model" where
  "sample_service ds = \<lparr>service_image = None, has_build = False, service_dependencies = ds, service_user = None\<rparr>"

definition sample_compose :: compose_scenario where
  "sample_compose = \<lparr>compose_files = [''compose.yml''], compose_service = ''app'', run_services = Some [''app''],
     compose_workspace_folder = ''/w'', compose_shutdown_action = None, compose_override_command = None\<rparr>"

definition sample_identity :: compose_identity where
  "sample_identity = \<lparr>identity_installation = ''i'', identity_workspace = ''demo'', identity_generation = ''1'',
     identity_profile = ''v1''\<rparr>"

lemma sample_component: "safe_project_component ''i'' = ''i''" "safe_project_component ''demo'' = ''demo''"
  by (simp_all add: safe_project_component_def chars_ascii to_lowercase_def is_ascii_alphanumeric_def
    is_ascii_alphabetic_def is_ascii_lowercase_def is_ascii_uppercase_def is_ascii_digit_def trim_end_matches_def char_of_def bit_0)


end
