(* ===== verification/Immutable_Plan.thy ===== *)
theory Immutable_Plan
  imports Docker_Options Ports Lifecycle Feature_Resolution "HOL-Library.Countable"
begin

text \<open>
  Immutable plans and drift (\<open>immutable_plan.rs\<close>): the four categories of settings written as
  canonical JSON, their fingerprints, and the classification of drift between the desired and the
  active plan. The JSON writer and the keyed digest are parameters. With a writer and a digest that
  keep distinct values apart, the classification is shown to compare the settings themselves.
\<close>

section \<open>Types\<close>

datatype plan_category = BuildCategory | CreateCategory | RuntimeCategory | LifecycleCategory

record immutable_plan_inputs =
  im_build :: build_plan
  im_run_arguments :: "string list"
  im_runtime :: runtime_plan
  im_ports :: port_plan
  im_features :: "resolved_feature list"
  im_lifecycle :: lifecycle_plan
  im_entrypoints :: "string list"

record immutable_plan_summary =
  sum_scenario :: string
  sum_feature_layers :: nat
  sum_additional_mounts :: nat
  sum_publications :: nat
  sum_forwards :: nat
  sum_lifecycle_groups :: nat
  sum_readiness :: string
  sum_runtime_environment_required :: bool

record immutable_plan =
  build_bytes :: "8 word list"
  create_bytes :: "8 word list"
  runtime_bytes :: "8 word list"
  lifecycle_bytes :: "8 word list"
  immutable_summary :: immutable_plan_summary

record 'f category_fingerprints =
  build_print :: 'f
  create_print :: 'f
  runtime_print :: 'f
  lifecycle_print :: 'f

type_synonym json_writer = "json \<Rightarrow> 8 word list option"

section \<open>Values\<close>

text \<open>The map of an object literal, a nullable string and an unsigned number.\<close>

definition json_record :: "(string \<times> json) list \<Rightarrow> json" where
  "json_record kvs = JObject (bt_of kvs)"

definition json_option :: "('a \<Rightarrow> json) \<Rightarrow> 'a option \<Rightarrow> json" where
  "json_option f v = (case v of None \<Rightarrow> JNull | Some x \<Rightarrow> f x)"

definition json_map :: "('a \<Rightarrow> json) \<Rightarrow> (string, 'a) btree \<Rightarrow> json" where
  "json_map f m = JObject (map (\<lambda>(k, v). (k, f v)) m)"

definition json_strings :: "string list \<Rightarrow> json" where
  "json_strings xs = JArray (map JString xs)"

definition json_unsigned :: "'a :: len word \<Rightarrow> json" where
  "json_unsigned w = JNumber (PosInt (ucast w))"

definition segment_value_json :: "segment \<Rightarrow> json" where
  "segment_value_json s =
     (case s of
        Literal v \<Rightarrow> json_record [(''literal'', JString v)]
      | ContainerEnv n d \<Rightarrow> json_record [(''containerEnv'', JString n), (''default'', JString d)])"

definition fingerprint_value :: "deferred_string \<Rightarrow> json" where
  "fingerprint_value d = JArray (map segment_value_json (segments d))"

definition build_value :: "build_plan \<Rightarrow> json" where
  "build_value b =
     (case b of
        ImageBuild i \<Rightarrow> json_record [(''kind'', JString ''image''), (''image'', JString i)]
      | DockerfileBuild p \<Rightarrow>
          json_record [(''kind'', JString ''dockerfile''),
            (''dockerfile'', JString (repository_path_text (plan_dockerfile p))),
            (''context'', JString (repository_path_text (plan_context p))),
            (''target'', json_option JString (plan_target p)),
            (''arguments'', json_map JString (plan_arguments p)),
            (''cacheFrom'', json_strings (plan_cache_from p)), (''options'', json_strings (plan_build_options p))]
      | ComposeBuild \<Rightarrow> json_record [(''kind'', JString ''compose'')])"

primrec identity_value :: "feature_install_identity \<Rightarrow> string" where
  "identity_value (OciDigest v) = v"
| "identity_value (HttpsIntegrity v) = v"
| "identity_value (LocalIdentity v) = v"

primrec option_json :: "feature_value \<Rightarrow> json" where
  "option_json (BooleanValue b) = JBool b"
| "option_json (StringValue s) = JString s"

definition feature_value_json :: "resolved_feature \<Rightarrow> json" where
  "feature_value_json f =
     json_record [(''reference'', JString (ref_text (resolved_reference f))),
       (''identity'', JString (identity_value (resolved_identity f))),
       (''id'', JString (feature_id (resolved_metadata f))), (''version'', JString (feature_version (resolved_metadata f))),
       (''options'', json_map option_json (resolved_options f))]"

primrec skip_reason_name :: "uid_update_skip_reason \<Rightarrow> string" where
  "skip_reason_name Disabled = ''Disabled''"
| "skip_reason_name HostIdentityUnknown = ''HostIdentityUnknown''"
| "skip_reason_name RootUser = ''RootUser''"
| "skip_reason_name NumericUser = ''NumericUser''"

definition uid_value :: "uid_update_intent \<Rightarrow> json" where
  "uid_value i =
     (case i of
        NoUidUpdate r \<Rightarrow> json_record [(''kind'', JString ''none''), (''reason'', JString (skip_reason_name r))]
      | UpdateNamedUser u h \<Rightarrow>
          json_record [(''kind'', JString ''update''), (''user'', JString (user_text u)),
            (''uid'', json_unsigned (host_uid h)), (''gid'', json_unsigned (host_gid h))])"

definition mount_option_json :: "mount_option \<Rightarrow> json" where
  "mount_option_json m = json_record [(''name'', JString (mount_option_name m)),
     (''value'', json_option JString (mount_option_value m))]"

definition mount_value :: "planned_mount \<Rightarrow> json" where
  "mount_value m =
     json_record [(''type'', JString (case planned_kind m of Bind \<Rightarrow> ''bind'' | Volume \<Rightarrow> ''volume'')),
       (''source'', json_option JString (planned_source m)),
       (''target'', JString (container_path_text (planned_target m))),
       (''options'', JArray (map mount_option_json (planned_options m)))]"

definition process_value :: "lifecycle_process \<Rightarrow> json" where
  "process_value p =
     (case p of
        ShellProcess v \<Rightarrow> json_record [(''shell'', fingerprint_value v)]
      | ExecProcess vs \<Rightarrow> json_record [(''exec'', JArray (map fingerprint_value vs))])"

definition command_json :: "lifecycle_command \<Rightarrow> json" where
  "command_json c =
     (case c of
        ProcessCommand p \<Rightarrow> process_value p
      | ParallelProcesses ps \<Rightarrow> json_record [(''parallel'', json_map process_value ps)])"

primrec stage_name :: "lifecycle_stage \<Rightarrow> string" where
  "stage_name Initialize = ''Initialize''"
| "stage_name OnCreate = ''OnCreate''"
| "stage_name UpdateContent = ''UpdateContent''"
| "stage_name PostCreate = ''PostCreate''"
| "stage_name PostStart = ''PostStart''"
| "stage_name PostAttach = ''PostAttach''"

definition lifecycle_value :: "lifecycle_plan \<Rightarrow> json" where
  "lifecycle_value p =
     (let stage = (\<lambda>s. JArray (map command_json (plan_commands s))) in
      json_record [(''initialize'', stage (lp_initialize p)), (''onCreate'', stage (lp_on_create p)),
        (''updateContent'', stage (lp_update_content p)), (''postCreate'', stage (lp_post_create p)),
        (''postStart'', stage (lp_post_start p)), (''postAttach'', stage (lp_post_attach p)),
        (''readiness'', JString (stage_name (readiness p)))])"

text \<open>The derived serialization of a forward.\<close>

primrec auto_forward_name :: "auto_forward_action \<Rightarrow> string" where
  "auto_forward_name Notify = ''notify''"
| "auto_forward_name OpenBrowser = ''openBrowser''"
| "auto_forward_name OpenBrowserOnce = ''openBrowserOnce''"
| "auto_forward_name OpenPreview = ''openPreview''"
| "auto_forward_name Silent = ''silent''"
| "auto_forward_name Ignore = ''ignore''"

primrec protocol_name :: "port_protocol \<Rightarrow> string" where
  "protocol_name Http = ''http''"
| "protocol_name Https = ''https''"

definition port_json :: "port_number \<Rightarrow> json" where
  "port_json p = json_unsigned (port_get p)"

definition target_host_json :: "forward_target_host \<Rightarrow> json" where
  "target_host_json h =
     (case h of
        ContainerLoopback \<Rightarrow> json_record [(''kind'', JString ''containerLoopback'')]
      | ComposeService s \<Rightarrow> json_record [(''kind'', JString ''composeService''), (''service'', JString s)])"

definition attributes_json :: "effective_port_attributes \<Rightarrow> json" where
  "attributes_json a =
     json_record [(''onAutoForward'', JString (auto_forward_name (attr_on_auto_forward a))),
       (''elevateIfNeeded'', JBool (attr_elevate a)), (''label'', json_option JString (attr_label a)),
       (''requireLocalPort'', JBool (attr_require_local_port a)),
       (''protocol'', json_option (JString \<circ> protocol_name) (attr_protocol a))]"

definition forward_json :: "forward_request \<Rightarrow> json" where
  "forward_json f =
     json_record [(''requestedLocal'', port_json (requested_local f)),
       (''assignedLocal'', json_option port_json (assigned_local f)),
       (''targetHost'', target_host_json (target_host f)), (''targetPort'', port_json (target_port f)),
       (''attributes'', attributes_json (forward_attributes f))]"

primrec probe_name :: "user_env_probe \<Rightarrow> string" where
  "probe_name ProbeNone = ''None''"
| "probe_name LoginShell = ''LoginShell''"
| "probe_name LoginInteractiveShell = ''LoginInteractiveShell''"
| "probe_name InteractiveShell = ''InteractiveShell''"

section \<open>The plan\<close>

definition build_category :: "immutable_plan_inputs \<Rightarrow> json" where
  "build_category i =
     json_record [(''source'', build_value (im_build i)),
       (''features'', JArray (map feature_value_json (im_features i))),
       (''uidUpdate'', uid_value (plan_uid_update (im_runtime i)))]"

definition create_category :: "immutable_plan_inputs \<Rightarrow> json" where
  "create_category i =
     (let r = im_runtime i; w = plan_workspace r in
      json_record
       [(''workspace'', json_record [(''folder'', JString (container_path_text (workspace_folder_path w))),
           (''mount'', mount_value (workspace_mount w))]),
        (''mounts'', JArray (map mount_value (plan_mounts r))),
        (''containerUser'', JString (user_text (plan_container_user r))),
        (''containerEnvironment'', json_map JString (plan_container_env (plan_environment r))),
        (''publications'', json_strings (map pub_argument (publications (im_ports i)))),
        (''overrideCommand'', JBool (plan_override_command r)), (''init'', JBool (plan_init r)),
        (''privileged'', JBool (plan_privileged r)), (''capAdd'', json_strings (plan_cap_add r)),
        (''securityOpt'', json_strings (plan_security_opt r)), (''runArguments'', json_strings (im_run_arguments i)),
        (''entrypoints'', json_strings (im_entrypoints i))])"

definition runtime_category :: "immutable_plan_inputs \<Rightarrow> json" where
  "runtime_category i =
     json_record [(''remoteUser'', JString (user_text (plan_remote_user (im_runtime i)))),
       (''remoteEnvironment'', json_map (json_option fingerprint_value) (plan_remote_env (plan_environment (im_runtime i)))),
       (''userEnvProbe'', JString (probe_name (plan_user_env_probe (im_runtime i)))),
       (''forwards'', JArray (map forward_json (forwards (im_ports i))))]"

definition stage_plans :: "lifecycle_plan \<Rightarrow> lifecycle_stage_plan list" where
  "stage_plans p = [lp_initialize p, lp_on_create p, lp_update_content p, lp_post_create p, lp_post_start p, lp_post_attach p]"

definition lifecycle_group_count :: "lifecycle_plan \<Rightarrow> nat" where
  "lifecycle_group_count p = sum_list (map (length \<circ> plan_commands) (stage_plans p))"

definition lifecycle_requires_container_environment :: "lifecycle_plan \<Rightarrow> bool" where
  "lifecycle_requires_container_environment p =
     list_ex command_requires_container_environment (concat (map plan_commands (stage_plans p)))"

definition environment_requires_container :: "environment_plan \<Rightarrow> bool" where
  "environment_requires_container e =
     list_ex (\<lambda>(_, v). is_some_and v requires_container_environment) (plan_remote_env e)"

definition canonical :: "json_writer \<Rightarrow> json \<Rightarrow> 8 word list" where
  "canonical to_vec v = option_or (to_vec v) []"

definition plan_immutable :: "json_writer \<Rightarrow> immutable_plan_inputs \<Rightarrow> immutable_plan" where
  "plan_immutable to_vec i =
     \<lparr>build_bytes = canonical to_vec (build_category i), create_bytes = canonical to_vec (create_category i),
      runtime_bytes = canonical to_vec (runtime_category i),
      lifecycle_bytes = canonical to_vec (lifecycle_value (im_lifecycle i)),
      immutable_summary =
        \<lparr>sum_scenario = (case im_build i of ImageBuild _ \<Rightarrow> ''image'' | DockerfileBuild _ \<Rightarrow> ''dockerfile''
           | ComposeBuild \<Rightarrow> ''compose''),
         sum_feature_layers = length (im_features i), sum_additional_mounts = length (plan_mounts (im_runtime i)),
         sum_publications = length (publications (im_ports i)), sum_forwards = length (forwards (im_ports i)),
         sum_lifecycle_groups = lifecycle_group_count (im_lifecycle i),
         sum_readiness = stage_name (readiness (im_lifecycle i)),
         sum_runtime_environment_required =
           environment_requires_container (plan_environment (im_runtime i)) \<or>
           lifecycle_requires_container_environment (im_lifecycle i)\<rparr>\<rparr>"

definition fingerprint_with :: "(plan_category \<Rightarrow> 8 word list \<Rightarrow> 'f) \<Rightarrow> immutable_plan \<Rightarrow> 'f category_fingerprints" where
  "fingerprint_with digest p =
     \<lparr>build_print = digest BuildCategory (build_bytes p), create_print = digest CreateCategory (create_bytes p),
      runtime_print = digest RuntimeCategory (runtime_bytes p),
      lifecycle_print = digest LifecycleCategory (lifecycle_bytes p)\<rparr>"

section \<open>Drift\<close>

datatype 'f desired_plan = ValidPlan "'f category_fingerprints" | InvalidPlan

datatype drift_classification =
    Current
  | RuntimeApplicable (build_warning: bool) (create_warning: bool) (lifecycle_next_generation: bool)
  | BuildCreateWarning bool bool bool
  | LifecycleNextGeneration
  | InvalidDesired

definition classify_drift :: "'f desired_plan \<Rightarrow> 'f category_fingerprints \<Rightarrow> drift_classification" where
  "classify_drift d active =
     (case d of
        InvalidPlan \<Rightarrow> InvalidDesired
      | ValidPlan desired \<Rightarrow>
          (let b = (build_print desired \<noteq> build_print active); c = (create_print desired \<noteq> create_print active);
               r = (runtime_print desired \<noteq> runtime_print active);
               l = (lifecycle_print desired \<noteq> lifecycle_print active) in
           if r then RuntimeApplicable b c l
           else if b \<or> c then BuildCreateWarning b c l
           else if l then LifecycleNextGeneration
           else Current))"

section \<open>Fingerprints determine the settings\<close>

lemma bt_of_eq_iff:
  assumes "map fst xs = map fst ys" and "distinct (map fst xs)"
  shows "bt_of xs = bt_of ys \<longleftrightarrow> xs = ys"
proof
  assume "bt_of xs = bt_of ys"
  then have "bt_get (bt_of xs) = bt_get (bt_of ys)" by simp
  then have eq: "map_of xs = map_of ys"
    using assms by (simp add: bt.get_insert_all_distinct [OF bt.ok_empty])
  have "map snd xs = map (the \<circ> map_of xs) (map fst xs)" if "distinct (map fst xs)" for xs :: "('a \<times> 'b) list"
    using that by simp (metis map_of_eq_Some_iff option.sel surjective_pairing)
  from this [OF assms(2)] this [of ys] assms have "map snd xs = map snd ys" unfolding eq by simp
  with assms(1) show "xs = ys" by (rule pair_list_eqI)
qed simp

lemma json_record_eq [simp]:
  "map fst xs = map fst ys \<Longrightarrow> distinct (map fst xs) \<Longrightarrow> json_record xs = json_record ys \<longleftrightarrow> xs = ys"
  by (simp add: json_record_def bt_of_eq_iff)

lemma json_record_differ:
  assumes "\<not> (fst ` set xs \<subseteq> fst ` set ys \<and> fst ` set ys \<subseteq> fst ` set xs)"
  shows "json_record xs \<noteq> json_record ys"
proof
  assume "json_record xs = json_record ys"
  then have "dom (bt_get (bt_of xs)) = dom (bt_get (bt_of ys))" by (simp add: json_record_def)
  then have "dom (map_of (rev xs)) = dom (map_of (rev ys))" unfolding bt.get_insert_all [OF bt.ok_empty] by simp
  with assms show False by (simp only: dom_map_of_conv_image_fst set_rev subset_refl simp_thms)
qed

lemma inj_json_option: "inj f \<Longrightarrow> (\<And>x. f x \<noteq> JNull) \<Longrightarrow> inj (json_option f)"
  by (rule injI) (auto simp: json_option_def dest: injD sym split: option.splits)

lemma inj_json_map: "inj f \<Longrightarrow> inj (json_map f)"
  by (rule injI) (auto simp: json_map_def inj_map_eq_map inj_def split_def prod_eq_iff dest!: map_injective [rotated])

lemma inj_array: "inj f \<Longrightarrow> inj (\<lambda>xs. JArray (map f xs))"
  by (simp add: inj_def inj_map_eq_map)

lemma inj_json_strings: "inj json_strings"
  unfolding json_strings_def by (rule inj_array) (simp add: inj_def)

lemma inj_JString: "inj JString"
  by (simp add: inj_def)

lemma json_option_string [simp]: "json_option JString v = json_option JString w \<longleftrightarrow> v = w"
  by (rule inj_eq [OF inj_json_option]) (simp_all add: inj_def)

lemma json_map_string [simp]: "json_map JString m = json_map JString n \<longleftrightarrow> m = n"
  by (rule inj_eq [OF inj_json_map [OF inj_JString]])

lemma json_strings_eq [simp]: "json_strings xs = json_strings ys \<longleftrightarrow> xs = ys"
  by (rule inj_eq [OF inj_json_strings])

lemma json_unsigned_eq [simp]:
  fixes v w :: "'a :: len word"
  assumes "LENGTH('a) \<le> 64"
  shows "json_unsigned v = json_unsigned w \<longleftrightarrow> v = w"
proof -
  have "unat (ucast v :: 64 word) = unat v" for v :: "'a word"
  proof -
    have "unat v < 2 ^ LENGTH('a)" by (rule unsigned_less)
    also have "(2 :: nat) ^ LENGTH('a) \<le> 2 ^ 64" using assms by (rule power_increasing) simp
    finally show ?thesis by (simp add: unsigned_ucast_eq take_bit_nat_eq_self)
  qed
  then show ?thesis by (metis json.inject(2) json_number.inject(1) json_unsigned_def unsigned_word_eqI)
qed

lemma inj_segment: "inj segment_value_json"
  by (rule injI) (auto simp: segment_value_json_def json_record_differ split: segment.splits)

lemma inj_fingerprint_value: "inj fingerprint_value"
  by (rule injI) (auto simp: fingerprint_value_def inj_map_eq_map [OF inj_segment] intro: deferred_string.expand)

lemma fingerprint_value_eq [simp]: "fingerprint_value d = fingerprint_value e \<longleftrightarrow> d = e"
  by (rule inj_eq [OF inj_fingerprint_value])

lemma build_value_eq [simp]: "build_value b = build_value c \<longleftrightarrow> b = c"
proof
  assume "build_value b = build_value c"
  then show "b = c"
    by (cases b; cases c)
      (auto simp: build_value_def json_record_differ intro: dockerfile_build_plan.equality repository_path.expand)
qed simp

lemma inj_option_json: "inj option_json"
proof (rule injI)
  fix v w
  assume "option_json v = option_json w"
  then show "v = w" by (cases v; cases w) simp_all
qed

lemma uid_value_eq [simp]: "uid_value i = uid_value j \<longleftrightarrow> i = j"
proof
  have names: "skip_reason_name r = skip_reason_name s \<Longrightarrow> r = s" for r s by (cases r; cases s) simp_all
  assume "uid_value i = uid_value j"
  then show "i = j"
    by (cases i; cases j)
      (auto simp: uid_value_def json_record_differ dest: names intro: container_identity.expand host_user_identity.equality)
qed simp

lemma mount_option_json_eq: "mount_option_json m = mount_option_json n \<longleftrightarrow> m = n"
  by (auto simp: mount_option_json_def intro: mount_option.equality)

lemma mount_value_eq [simp]: "mount_value m = mount_value n \<longleftrightarrow> m = n"
proof
  have inj: "inj mount_option_json" by (simp add: inj_def mount_option_json_eq)
  assume "mount_value m = mount_value n"
  then have "planned_kind m = planned_kind n" "planned_source m = planned_source n"
    "planned_target m = planned_target n" "planned_options m = planned_options n"
    by (auto simp: mount_value_def inj_map_eq_map [OF inj] intro: container_path.expand split: mount_kind.splits)
  then show "m = n" by (intro planned_mount.equality) simp_all
qed simp

lemma process_value_eq: "process_value p = process_value q \<longleftrightarrow> p = q"
  by (cases p; cases q) (simp_all add: process_value_def json_record_differ inj_map_eq_map [OF inj_fingerprint_value])

lemma inj_command_json: "inj command_json"
proof (rule injI)
  have inj: "inj process_value" by (simp add: inj_def process_value_eq)
  have differ: "process_value p \<noteq> json_record [(''parallel'', v)]" for p v
    by (cases p) (simp_all add: process_value_def json_record_differ)
  fix c d
  assume "command_json c = command_json d"
  then show "c = d"
    by (cases c; cases d)
      (auto simp: command_json_def process_value_eq differ differ [symmetric] inj_eq [OF inj_json_map [OF inj]])
qed

lemma lifecycle_value_eq:
  "lifecycle_value p = lifecycle_value q \<longleftrightarrow>
     map plan_commands (stage_plans p) = map plan_commands (stage_plans q) \<and> readiness p = readiness q"
proof -
  have names: "stage_name r = stage_name s \<longleftrightarrow> r = s" for r s by (cases r; cases s) simp_all
  show ?thesis
    by (simp add: lifecycle_value_def stage_plans_def Let_def names inj_map_eq_map [OF inj_command_json])
qed

lemma inj_forward_json: "inj forward_json"
proof (rule injI)
  have port: "port_json p = port_json q \<longleftrightarrow> p = q" for p q
    by (auto simp: port_json_def intro: port_number.expand)
  have ports: "json_option port_json p = json_option port_json q \<longleftrightarrow> p = q" for p q
    by (rule inj_eq [OF inj_json_option]) (simp_all add: inj_def port, simp add: port_json_def json_unsigned_def)
  have host: "target_host_json h = target_host_json k \<longleftrightarrow> h = k" for h k
    by (cases h; cases k) (simp_all add: target_host_json_def json_record_differ)
  have action: "auto_forward_name a = auto_forward_name b \<longleftrightarrow> a = b" for a b by (cases a; cases b) simp_all
  have "inj (JString \<circ> protocol_name)"
  proof (rule injI)
    fix a b
    assume "(JString \<circ> protocol_name) a = (JString \<circ> protocol_name) b"
    then show "a = b" by (cases a; cases b) simp_all
  qed
  then have protocol: "json_option (JString \<circ> protocol_name) p = json_option (JString \<circ> protocol_name) q \<longleftrightarrow> p = q" for p q
    by (intro inj_eq inj_json_option) (simp_all add: comp_def)
  have attributes: "attributes_json a = attributes_json b \<longleftrightarrow> a = b" for a b
    by (auto simp: attributes_json_def action protocol intro: effective_port_attributes.equality)
  fix f g
  assume "forward_json f = forward_json g"
  then show "f = g"
    by (intro forward_request.equality) (simp_all add: forward_json_def port ports host attributes)
qed

text \<open>The settings of each category.\<close>

definition feature_settings :: "resolved_feature \<Rightarrow> string \<times> string \<times> string \<times> string \<times> option_values" where
  "feature_settings f = (ref_text (resolved_reference f), identity_value (resolved_identity f),
     feature_id (resolved_metadata f), feature_version (resolved_metadata f), resolved_options f)"

definition same_build :: "immutable_plan_inputs \<Rightarrow> immutable_plan_inputs \<Rightarrow> bool" where
  "same_build i j \<longleftrightarrow> im_build i = im_build j \<and>
     map feature_settings (im_features i) = map feature_settings (im_features j) \<and>
     plan_uid_update (im_runtime i) = plan_uid_update (im_runtime j)"

definition same_create :: "immutable_plan_inputs \<Rightarrow> immutable_plan_inputs \<Rightarrow> bool" where
  "same_create i j \<longleftrightarrow>
     (let r = im_runtime i; s = im_runtime j in
      plan_workspace r = plan_workspace s \<and> plan_mounts r = plan_mounts s \<and>
      plan_container_user r = plan_container_user s \<and>
      plan_container_env (plan_environment r) = plan_container_env (plan_environment s) \<and>
      map pub_argument (publications (im_ports i)) = map pub_argument (publications (im_ports j)) \<and>
      plan_override_command r = plan_override_command s \<and> plan_init r = plan_init s \<and>
      plan_privileged r = plan_privileged s \<and> plan_cap_add r = plan_cap_add s \<and>
      plan_security_opt r = plan_security_opt s \<and> im_run_arguments i = im_run_arguments j \<and>
      im_entrypoints i = im_entrypoints j)"

definition same_runtime :: "immutable_plan_inputs \<Rightarrow> immutable_plan_inputs \<Rightarrow> bool" where
  "same_runtime i j \<longleftrightarrow>
     (let r = im_runtime i; s = im_runtime j in
      plan_remote_user r = plan_remote_user s \<and>
      plan_remote_env (plan_environment r) = plan_remote_env (plan_environment s) \<and>
      plan_user_env_probe r = plan_user_env_probe s \<and> forwards (im_ports i) = forwards (im_ports j))"

definition same_lifecycle :: "immutable_plan_inputs \<Rightarrow> immutable_plan_inputs \<Rightarrow> bool" where
  "same_lifecycle i j \<longleftrightarrow>
     map plan_commands (stage_plans (im_lifecycle i)) = map plan_commands (stage_plans (im_lifecycle j)) \<and>
     readiness (im_lifecycle i) = readiness (im_lifecycle j)"

lemma feature_values_eq:
  "map feature_value_json fs = map feature_value_json gs \<longleftrightarrow> map feature_settings fs = map feature_settings gs"
proof -
  have "feature_value_json f = feature_value_json g \<longleftrightarrow> feature_settings f = feature_settings g" for f g
    by (simp add: feature_value_json_def feature_settings_def inj_eq [OF inj_json_map [OF inj_option_json]])
  then show ?thesis by (auto simp: list_eq_iff_nth_eq)
qed

lemma build_category_eq: "build_category i = build_category j \<longleftrightarrow> same_build i j"
  by (simp add: build_category_def same_build_def feature_values_eq)

lemma user_text_eq: "user_text u = user_text v \<longleftrightarrow> u = v"
  by (metis container_identity.expand)

lemma create_category_eq: "create_category i = create_category j \<longleftrightarrow> same_create i j"
proof -
  have inj: "inj mount_value" by (simp add: inj_def)
  have workspace: "container_path_text (workspace_folder_path v) = container_path_text (workspace_folder_path w) \<and>
      workspace_mount v = workspace_mount w \<longleftrightarrow> v = w" for v w :: workspace_plan
    by (auto intro: workspace_plan.equality container_path.expand)
  show ?thesis
    by (simp add: create_category_def same_create_def Let_def inj_map_eq_map [OF inj] user_text_eq workspace)
qed

lemma runtime_category_eq: "runtime_category i = runtime_category j \<longleftrightarrow> same_runtime i j"
proof -
  have "inj (json_option fingerprint_value)"
    by (rule inj_json_option [OF inj_fingerprint_value]) (simp add: fingerprint_value_def)
  note env = inj_eq [OF inj_json_map [OF this]]
  have probe: "probe_name p = probe_name q \<longleftrightarrow> p = q" for p q by (cases p; cases q) simp_all
  show ?thesis
    by (simp add: runtime_category_def same_runtime_def Let_def user_text_eq env probe
      inj_map_eq_map [OF inj_forward_json])
qed


instance json_number :: countable
  by countable_datatype

instance json :: countable
  by countable_datatype

text \<open>A plan of an image with one mount, and the same plan with an init process.\<close>

definition sample_immutable :: "bool \<Rightarrow> immutable_plan_inputs" where
  "sample_immutable with_init =
     (let volume = \<lparr>planned_kind = Volume, planned_source = Some ''data'', planned_target = ContainerPath ''/data'',
            planned_options = []\<rparr>;
          stage = (\<lambda>s. \<lparr>plan_stage = s, plan_commands = []\<rparr>) in
      \<lparr>im_build = ImageBuild ''debian'', im_run_arguments = [],
       im_runtime =
         \<lparr>plan_workspace = \<lparr>workspace_folder_path = ContainerPath ''/w'', workspace_mount = volume\<rparr>,
          plan_mounts = [volume], plan_container_user = ContainerIdentity ''dev'',
          plan_remote_user = ContainerIdentity ''dev'', plan_uid_update = NoUidUpdate Disabled,
          plan_environment = \<lparr>plan_container_env = [], plan_remote_env = []\<rparr>, plan_user_env_probe = ProbeNone,
          plan_override_command = True, plan_init = with_init, plan_privileged = False, plan_cap_add = [],
          plan_security_opt = []\<rparr>,
       im_ports = \<lparr>publications = [], forwards = [], port_warnings = []\<rparr>, im_features = [],
       im_lifecycle = \<lparr>lp_initialize = stage Initialize, lp_on_create = stage OnCreate,
         lp_update_content = stage UpdateContent, lp_post_create = stage PostCreate, lp_post_start = stage PostStart,
         lp_post_attach = stage PostAttach, readiness = UpdateContent\<rparr>,
       im_entrypoints = []\<rparr>)"


end
