(* ===== verification/State_Text.thy ===== *)
theory State_Text
  imports Identity Status
begin

text \<open>
  The validated texts of the workspace state (\<open>state.rs\<close>, first part, and \<open>KeyedDigest\<close> of
  \<open>installation.rs\<close>): keyed digests, sanitized sources and summaries, timestamps, configuration
  paths and the record of the foreground operation. Each is a newtype with its constructor and its
  deserializer. The URL library is a parameter.
\<close>

section \<open>Keyed digests\<close>

datatype keyed_digest = KeyedDigest (KeyedDigest_as_str: string)

datatype keyed_digest_error = KeyedDigestError

definition KeyedDigest_parse :: "string \<Rightarrow> (keyed_digest, keyed_digest_error) result" where
  "KeyedDigest_parse v =
     (case strip_prefix ''keyed:'' v of
        None \<Rightarrow> Err KeyedDigestError
      | Some hex \<Rightarrow>
          if length hex \<noteq> 64 \<or> \<not> list_all (\<lambda>c. is_lower_hex (byte c)) hex then Err KeyedDigestError
          else Ok (KeyedDigest v))"

definition KeyedDigest_deserialize :: "ser_value \<Rightarrow> (keyed_digest, keyed_digest_error de_error) result" where
  "KeyedDigest_deserialize v = and_then (de_string v) (\<lambda>s. map_err DeCustom (KeyedDigest_parse s))"

record plan_fingerprints =
  fp_build :: keyed_digest
  fp_create :: keyed_digest
  fp_runtime :: keyed_digest

section \<open>Replacing text\<close>

text \<open>\<^verbatim>\<open>str::replace\<close> with a predicate on characters, and with a nonempty string as pattern.\<close>

function replace_matching :: "(scalar \<Rightarrow> bool) \<Rightarrow> string \<Rightarrow> string \<Rightarrow> string" where
  "replace_matching P r [] = []"
| "replace_matching P r (a # s) =
     (if P (front_scalar (a # s)) then r else a # take (utf8_width a - 1) s) @
     replace_matching P r (drop (utf8_width a - 1) s)"
  by pat_completeness auto
termination
  by (relation "measure (\<lambda>(P, r, s). length s)") auto

function replace_str :: "string \<Rightarrow> string \<Rightarrow> string \<Rightarrow> string" where
  "replace_str p r s =
     (case find_str p s of
        None \<Rightarrow> s
      | Some i \<Rightarrow> if p = [] then s else take i s @ r @ replace_str p r (drop (i + length p) s))"
  by pat_completeness auto
termination
proof (relation "measure (\<lambda>(p, r, s). length s)")
  fix p r s :: string and i
  assume "find_str p s = Some i" "p \<noteq> []"
  with find_str_Some [of p s i] show "((p, r, drop (i + length p) s), p, r, s) \<in> measure (\<lambda>(p, r, s). length s)"
    by auto
qed simp

declare replace_str.simps [simp del]

definition is_char_boundary :: "string \<Rightarrow> nat \<Rightarrow> bool" where
  [str_simps]: "is_char_boundary s i \<longleftrightarrow>
     i = 0 \<or> (if i < length s then \<not> utf8_cont (s ! i) else i = length s)"

section \<open>Sanitized sources and summaries\<close>

record 'u url_library =
  url_parse :: "string \<Rightarrow> 'u option"
  url_scheme :: "'u \<Rightarrow> string"
  url_clear_username :: "'u \<Rightarrow> 'u"
  url_clear_password :: "'u \<Rightarrow> 'u"
  url_clear_query :: "'u \<Rightarrow> 'u"
  url_clear_fragment :: "'u \<Rightarrow> 'u"
  url_text :: "'u \<Rightarrow> string"

datatype sanitized_source = SanitizedRepositorySource (source_as_str: string)

definition sanitize :: "'u url_library \<Rightarrow> string \<Rightarrow> sanitized_source" where
  "sanitize lib source =
     (let source = replace_matching is_control [] source in
      case url_parse lib source of
        None \<Rightarrow> SanitizedRepositorySource source
      | Some url \<Rightarrow>
          (let url = (if url_scheme lib url \<in> {''http'', ''https''} then url_clear_username lib url else url)
           in SanitizedRepositorySource (url_text lib
                (url_clear_fragment lib (url_clear_query lib (url_clear_password lib url))))))"

datatype source_error = NotSanitized

definition SanitizedRepositorySource_deserialize ::
    "'u url_library \<Rightarrow> ser_value \<Rightarrow> (sanitized_source, source_error de_error) result" where
  "SanitizedRepositorySource_deserialize lib v = and_then (de_string v) (\<lambda>value.
     (let sanitized = sanitize lib value in
      if source_as_str sanitized \<noteq> value then Err (DeCustom NotSanitized) else Ok sanitized))"

definition MAX_SUMMARY_BYTES :: nat where
  "MAX_SUMMARY_BYTES = 1024"

datatype sanitized_summary = SanitizedSummary (summary_as_str: string)

text \<open>The loop that walks back to a character boundary, which offset 0 always is.\<close>

fun boundary_before :: "string \<Rightarrow> nat \<Rightarrow> nat" where
  "boundary_before s 0 = 0"
| "boundary_before s (Suc n) = (if is_char_boundary s (Suc n) then Suc n else boundary_before s n)"

definition redact :: "string \<Rightarrow> string list \<Rightarrow> sanitized_summary" where
  "redact summary secrets =
     (let sanitized = replace_matching is_control '' '' summary;
          sanitized = fold (\<lambda>secret s. if secret \<noteq> [] then replace_str secret ''[REDACTED]'' s else s)
            secrets sanitized
      in SanitizedSummary
           (if length sanitized > MAX_SUMMARY_BYTES
            then take (boundary_before sanitized MAX_SUMMARY_BYTES) sanitized else sanitized))"

datatype summary_error = UnboundedSummary

definition SanitizedSummary_deserialize ::
    "ser_value \<Rightarrow> (sanitized_summary, summary_error de_error) result" where
  "SanitizedSummary_deserialize v = and_then (de_string v) (\<lambda>value.
     if length value > MAX_SUMMARY_BYTES \<or> list_ex is_control (chars value)
     then Err (DeCustom UnboundedSummary) else Ok (SanitizedSummary value))"

section \<open>Timestamps, configuration paths and operations\<close>

datatype state_timestamp = StateTimestamp (timestamp_as_str: string)

datatype state_timestamp_error = StateTimestampError

definition has_zone :: "string \<Rightarrow> bool" where
  "has_zone v \<longleftrightarrow> suffix ''Z'' v \<or>
     (is_char_boundary v 10 \<and> (CHR ''+'' \<in> set (drop 10 v) \<or> CHR ''-'' \<in> set (drop 10 v)))"

definition StateTimestamp_parse :: "string \<Rightarrow> (state_timestamp, state_timestamp_error) result" where
  "StateTimestamp_parse v =
     (if length v < 20 \<or> v ! 4 \<noteq> CHR ''-'' \<or> v ! 7 \<noteq> CHR ''-'' \<or> v ! 10 \<noteq> CHR ''T'' \<or>
         list_ex is_control (chars v) \<or> \<not> has_zone v
      then Err StateTimestampError else Ok (StateTimestamp v))"

definition StateTimestamp_deserialize ::
    "ser_value \<Rightarrow> (state_timestamp, state_timestamp_error de_error) result" where
  "StateTimestamp_deserialize v =
     and_then (de_string v) (\<lambda>s. map_err DeCustom (StateTimestamp_parse s))"

text \<open>\<^verbatim>\<open>Path::components\<close> of a relative path: empty components vanish, and so do current-directory
  components except at the start.\<close>

datatype path_component = CurDir | ParentDir | NormalComponent string

definition relative_components :: "string \<Rightarrow> path_component list" where
  "relative_components v =
     (let parts = split_on (CHR ''/'') v in
      (if hd parts = ''.'' then [CurDir] else []) @
      map (\<lambda>c. if c = ''..'' then ParentDir else NormalComponent c) (filter (\<lambda>c. c \<noteq> [] \<and> c \<noteq> ''.'') parts))"

datatype desired_config_path = DesiredConfigPath (config_as_str: string)

datatype desired_config_path_error = ConfigEmpty | ConfigAbsolute | ParentTraversal | ConfigControl

fun scan_components :: "bool \<Rightarrow> path_component list \<Rightarrow> (bool, desired_config_path_error) result" where
  "scan_components found [] = Ok found"
| "scan_components found (ParentDir # cs) = Err ParentTraversal"
| "scan_components found (NormalComponent _ # cs) = scan_components True cs"
| "scan_components found (CurDir # cs) = scan_components found cs"

definition DesiredConfigPath_parse :: "string \<Rightarrow> (desired_config_path, desired_config_path_error) result" where
  "DesiredConfigPath_parse v =
     (if v = [] then Err ConfigEmpty
      else if list_ex is_control (chars v) then Err ConfigControl
      else if prefix ''/'' v then Err ConfigAbsolute
      else and_then (scan_components False (relative_components v)) (\<lambda>has_file_component.
        if \<not> has_file_component then Err ConfigEmpty else Ok (DesiredConfigPath v)))"

definition DesiredConfigPath_deserialize ::
    "ser_value \<Rightarrow> (desired_config_path, desired_config_path_error de_error) result" where
  "DesiredConfigPath_deserialize v =
     and_then (de_string v) (\<lambda>s. map_err DeCustom (DesiredConfigPath_parse s))"

record operation_state =
  op_kind :: foreground_operation
  op_id :: "string option"
  op_started_at :: "state_timestamp option"

datatype operation_state_error = IdleHasDetails | ActiveMissingDetails | InvalidId

definition OperationState_idle :: operation_state where
  "OperationState_idle = \<lparr>op_kind = Idle, op_id = None, op_started_at = None\<rparr>"

definition OperationState_active ::
    "foreground_operation \<Rightarrow> string \<Rightarrow> state_timestamp \<Rightarrow> (operation_state, operation_state_error) result" where
  "OperationState_active kind ident started =
     (if kind = Idle then Err IdleHasDetails
      else if ident = [] \<or> list_ex is_control (chars ident) then Err InvalidId
      else Ok \<lparr>op_kind = kind, op_id = Some ident, op_started_at = Some started\<rparr>)"

text \<open>The last step of the deserializer, on the three fields read from the document.\<close>

definition OperationState_deserialize ::
    "foreground_operation \<Rightarrow> string option \<Rightarrow> state_timestamp option \<Rightarrow>
     (operation_state, operation_state_error) result" where
  "OperationState_deserialize kind ident started =
     (if kind = Idle
      then if ident = None \<and> started = None then Ok OperationState_idle else Err IdleHasDetails
      else case (ident, started) of
        (Some i, Some t) \<Rightarrow> OperationState_active kind i t
      | _ \<Rightarrow> Err ActiveMissingDetails)"

section \<open>Redacted summaries\<close>

text \<open>Text that a persisted summary may hold: UTF-8 without control characters.\<close>

definition plain_text :: "string \<Rightarrow> bool" where
  "plain_text s \<longleftrightarrow> valid_utf8 s \<and> \<not> list_ex is_control (chars s)"

lemma plain_text_Nil [simp]: "plain_text []"
  by (simp add: plain_text_def)

lemma plain_text_append: "plain_text a \<Longrightarrow> plain_text b \<Longrightarrow> plain_text (a @ b)"
  by (simp add: plain_text_def chars_append)

lemma plain_text_left: "plain_text (a @ b) \<Longrightarrow> valid_utf8 a \<Longrightarrow> plain_text a"
  by (simp add: plain_text_def chars_append)

lemma plain_text_right: "plain_text (a @ b) \<Longrightarrow> valid_utf8 a \<Longrightarrow> plain_text b"
  by (simp add: plain_text_def chars_append)

lemma first_byte: "valid_utf8 (c # s) \<Longrightarrow> \<not> utf8_cont c"
  by (auto simp: utf8_cont_def split: if_splits)

text \<open>The first character of a well-formed string, and the rest.\<close>

lemma front_character:
  assumes "valid_utf8 (a # s)"
  shows "valid_utf8 (a # take (utf8_width a - 1) s)" "chars (a # take (utf8_width a - 1) s) = [front_scalar (a # s)]"
proof -
  have "chars (a # take (utf8_width a - 1) s) = [front_scalar (a # take (utf8_width a - 1) s)]"
    by (simp add: chars_Cons)
  moreover have "valid_utf8 (a # take (utf8_width a - 1) s) \<and>
      front_scalar (a # take (utf8_width a - 1) s) = front_scalar (a # s)"
    using assms by (auto simp: utf8_width_def front_scalar_def byte_at_def Let_def split: if_splits list.splits)
  ultimately show "valid_utf8 (a # take (utf8_width a - 1) s)"
    "chars (a # take (utf8_width a - 1) s) = [front_scalar (a # s)]" by metis+
qed

lemma replace_matching_plain: "valid_utf8 s \<Longrightarrow> plain_text r \<Longrightarrow> plain_text (replace_matching is_control r s)"
proof (induction "is_control :: scalar \<Rightarrow> bool" r s rule: replace_matching.induct)
  case (2 r a s)
  have "plain_text (if is_control (front_scalar (a # s)) then r else a # take (utf8_width a - 1) s)"
    using "2.prems"(2) front_character [OF "2.prems"(1)] unfolding plain_text_def
    by (auto simp del: valid_utf8.simps)
  then show ?case
    unfolding replace_matching.simps
    by (intro plain_text_append "2.hyps" [OF valid_utf8_drop_front [OF "2.prems"(1)] "2.prems"(2)])
qed simp

lemma replace_str_plain:
  "plain_text s \<Longrightarrow> valid_utf8 p \<Longrightarrow> plain_text r \<Longrightarrow> plain_text (replace_str p r s)"
proof (induction p r s rule: replace_str.induct)
  case (1 p r s)
  show ?case
  proof (cases "find_str p s")
    case (Some i)
    show ?thesis
    proof (cases p)
      case (Cons c q)
      from find_str_Some [OF Some] obtain a b where s: "s = a @ p @ b" "length a = i" by blast
      have "valid_utf8 (a @ c # q @ b)" "\<not> utf8_cont c"
        using "1.prems"(1,2) s(1) first_byte [of c q] by (simp_all add: plain_text_def Cons)
      then have a: "valid_utf8 a" by (rule valid_utf8_boundary)
      have "plain_text (replace_str p r (drop (i + length p) s))"
        using "1.IH" [OF Some _ _ "1.prems"(2,3)] plain_text_right [OF plain_text_right [OF "1.prems"(1) [unfolded s(1)] a] "1.prems"(2)]
        by (simp add: s Cons)
      then show ?thesis
        unfolding replace_str.simps [of p r s]
        using Some Cons plain_text_left [OF "1.prems"(1) [unfolded s(1)] a] "1.prems"(3)
        by (simp add: s(1) s(2) [symmetric] plain_text_append)
    qed (use "1.prems"(1) Some in \<open>simp add: replace_str.simps [of "[]" r s]\<close>)
  qed (use "1.prems"(1) in \<open>simp add: replace_str.simps [of p r s]\<close>)
qed

lemma boundary_before:
  "n \<le> length s \<Longrightarrow> is_char_boundary s (boundary_before s n) \<and> boundary_before s n \<le> n"
  by (induction n) (auto simp: is_char_boundary_def)

lemma plain_text_take:
  assumes "plain_text s" "is_char_boundary s i"
  shows "plain_text (take i s)"
proof (cases "i = 0 \<or> i \<ge> length s")
  case False
  then have s: "s = take i s @ s ! i # drop (Suc i) s" by (simp add: id_take_nth_drop)
  have "valid_utf8 (take i s)"
    by (rule valid_utf8_boundary [of _ "s ! i" "drop (Suc i) s"])
      (use assms False s in \<open>auto simp: plain_text_def is_char_boundary_def\<close>)
  with plain_text_left [of "take i s" "drop i s"] assms(1) show ?thesis by simp
qed (use assms in auto)

lemma redact_plain:
  assumes "valid_utf8 summary" "list_all valid_utf8 secrets"
  shows "plain_text (summary_as_str (redact summary secrets))"
    "length (summary_as_str (redact summary secrets)) \<le> MAX_SUMMARY_BYTES"
proof -
  define replaced where "replaced = fold (\<lambda>secret s. if secret \<noteq> [] then replace_str secret ''[REDACTED]'' s else s)
    secrets (replace_matching is_control '' '' summary)"
  have "plain_text '' ''" "plain_text ''[REDACTED]''"
    by (simp_all add: plain_text_def chars_ascii is_control_def ascii_valid_utf8)
  then have replaced: "plain_text replaced"
    unfolding replaced_def using assms(2) replace_matching_plain [OF assms(1)]
    by (induction secrets rule: rev_induct) (simp_all add: replace_str_plain)
  have shape: "summary_as_str (redact summary secrets) =
      (if length replaced > MAX_SUMMARY_BYTES then take (boundary_before replaced MAX_SUMMARY_BYTES) replaced else replaced)"
    by (simp add: redact_def Let_def replaced_def)
  show "plain_text (summary_as_str (redact summary secrets))"
    using replaced plain_text_take [OF replaced] boundary_before [of MAX_SUMMARY_BYTES replaced] by (simp add: shape)
  show "length (summary_as_str (redact summary secrets)) \<le> MAX_SUMMARY_BYTES"
    using boundary_before [of MAX_SUMMARY_BYTES replaced] by (auto simp: shape)
qed

text \<open>A redacted summary is accepted again when the state is loaded.\<close>

lemma summary_persists:
  "valid_utf8 summary \<Longrightarrow> list_all valid_utf8 secrets \<Longrightarrow>
     SanitizedSummary_deserialize (SerStr (summary_as_str (redact summary secrets))) = Ok (redact summary secrets)"
  using redact_plain [of summary secrets]
  by (simp add: SanitizedSummary_deserialize_def de_string_def plain_text_def)

text \<open>A secret that holds a control character is not found in the summary: the control characters
  of the summary are replaced first.\<close>

lemma control_secret_kept: "redact (''token a'' @ CHR 0x0A # ''b'') [''a'' @ CHR 0x0A # ''b''] = SanitizedSummary ''token a b''"
  by code_simp

end
