(* ===== verification/Compose_Partial.thy ===== *)
theory Compose_Partial
  imports Identity Ordered_Map
begin

text \<open>
  The evidence of an interrupted Compose replacement (\<open>compose_rebuild.rs\<close>, first part): observed
  services are classified without selecting among duplicates, and the complete healthy set is
  read off the classification.
\<close>

section \<open>Evidence\<close>

datatype compose_service_health = HealthUnknown | Healthy | Unhealthy

record observed_compose_service =
  obs_service :: string
  obs_container :: container_id
  obs_running :: bool
  obs_health :: compose_service_health

datatype compose_partial_service =
    ServiceMissing
  | ServicePresent container_id bool compose_service_health
  | ServiceAmbiguous "container_id list"

record compose_partial_state =
  partial_generation :: generation_id
  partial_services :: "(string, compose_partial_service) btree"

datatype compose_rebuild_phase =
    BuildFirst | Recreation | ManagedSet | Readiness | ForwardingPhase | ActiveCommit

record compose_rebuild_recovery =
  recovery_generation :: generation_id
  recovery_phase :: compose_rebuild_phase
  recovery_partial :: "compose_partial_state option"

fun running_healthy :: "compose_partial_service \<Rightarrow> bool" where
  "running_healthy (ServicePresent _ running health) \<longleftrightarrow> running \<and> health = Healthy"
| "running_healthy _ \<longleftrightarrow> False"

definition is_complete_healthy :: "compose_partial_state \<Rightarrow> bool" where
  "is_complete_healthy p \<longleftrightarrow> list_all (\<lambda>(_, state). running_healthy state) (partial_services p)"

fun present_container :: "string \<times> compose_partial_service \<Rightarrow> (string \<times> container_id) option" where
  "present_container (service, ServicePresent container _ _) = Some (service, container)"
| "present_container (service, _) = None"

definition healthy_managed_set :: "compose_partial_state \<Rightarrow> (string, container_id) btree option" where
  "healthy_managed_set p =
     (if is_complete_healthy p then Some (bt_of (List.map_filter present_container (partial_services p))) else None)"

section \<open>Classification\<close>

definition group_step ::
    "observed_compose_service \<Rightarrow> (string, observed_compose_service list) btree \<Rightarrow>
     (string, observed_compose_service list) btree" where
  "group_step ob m = bt_insert (obs_service ob) (option_or (bt_get m (obs_service ob)) [] @ [ob]) m"

fun service_state :: "observed_compose_service list option \<Rightarrow> compose_partial_service" where
  "service_state None = ServiceMissing"
| "service_state (Some []) = ServiceMissing"
| "service_state (Some [ob]) = ServicePresent (obs_container ob) (obs_running ob) (obs_health ob)"
| "service_state (Some obs) = ServiceAmbiguous (sort_key ContainerId_as_str (map obs_container obs))"

definition classify_compose_partial_state ::
    "generation_id \<Rightarrow> string list \<Rightarrow> observed_compose_service list \<Rightarrow> compose_partial_state" where
  "classify_compose_partial_state generation desired_services observed =
     (let grouped = fold group_step observed []
      in \<lparr>partial_generation = generation,
          partial_services = bt_of (map (\<lambda>service. (service, service_state (bt_get grouped service))) desired_services)\<rparr>)"

section \<open>Lemmas\<close>

lemma grouped_get:
  "bt_get (fold group_step observed m) service =
     (let found = filter (\<lambda>ob. obs_service ob = service) observed in
      if found = [] then bt_get m service else Some (option_or (bt_get m service) [] @ found))"
proof (induction observed arbitrary: m)
  case (Cons ob observed)
  have "bt_get (group_step ob m) = (bt_get m)(obs_service ob \<mapsto> option_or (bt_get m (obs_service ob)) [] @ [ob])"
    by (simp add: group_step_def)
  with Cons.IH [of "group_step ob m"] show ?case by (simp add: Let_def option_or_def)
qed simp

lemma map_of_graph: "map_of (map (\<lambda>x. (x, f x)) xs) x = (if x \<in> set xs then Some (f x) else None)"
  by (induction xs) auto

lemma classified_get:
  "bt_get (partial_services (classify_compose_partial_state g desired observed)) service =
     (if service \<in> set desired
      then Some (service_state (let found = filter (\<lambda>ob. obs_service ob = service) observed in
        if found = [] then None else Some found))
      else None)"
  by (simp add: classify_compose_partial_state_def Let_def bt.get_insert_all [OF bt.ok_empty] rev_map map_of_graph
      grouped_get option_or_def)

lemma classified_ok: "bt_ok (partial_services (classify_compose_partial_state g desired observed))"
  by (simp add: classify_compose_partial_state_def Let_def bt_of_facts(1))

lemma bt_entry: "bt_ok m \<Longrightarrow> (k, v) \<in> set m \<longleftrightarrow> bt_get m k = Some v"
  by (simp add: bt_ok_distinct)

lemma running_healthy_found:
  "running_healthy (service_state (if found = [] then None else Some found)) \<longleftrightarrow>
     (\<exists>ob. found = [ob] \<and> obs_running ob \<and> obs_health ob = Healthy)"
  by (cases found; cases "tl found") auto

definition healthy_service :: "observed_compose_service list \<Rightarrow> string \<Rightarrow> container_id \<Rightarrow> bool" where
  "healthy_service observed service container \<longleftrightarrow>
     (\<exists>ob. filter (\<lambda>ob. obs_service ob = service) observed = [ob] \<and> obs_running ob \<and> obs_health ob = Healthy \<and>
        obs_container ob = container)"

lemma complete_healthy_iff:
  "is_complete_healthy (classify_compose_partial_state g desired observed) \<longleftrightarrow>
     (\<forall>service \<in> set desired. \<exists>c. healthy_service observed service c)"
proof -
  let ?p = "classify_compose_partial_state g desired observed"
  have "is_complete_healthy ?p \<longleftrightarrow>
      (\<forall>k v. bt_get (partial_services ?p) k = Some v \<longrightarrow> running_healthy v)"
    by (auto simp: is_complete_healthy_def list_all_iff bt_entry [OF classified_ok] simp flip: bt_entry [OF classified_ok])
  also have "\<dots> \<longleftrightarrow> (\<forall>service \<in> set desired. \<exists>c. healthy_service observed service c)"
    by (auto simp: classified_get Let_def running_healthy_found healthy_service_def)
  finally show ?thesis .
qed

text \<open>The managed set is found exactly when every desired service has one running healthy container,
  and then holds that container for each desired service and nothing else.\<close>

lemma healthy_managed_set_classified:
  "healthy_managed_set (classify_compose_partial_state g desired observed) = Some managed \<Longrightarrow>
     bt_get managed service = Some c \<longleftrightarrow> service \<in> set desired \<and> healthy_service observed service c"
proof -
  let ?services = "partial_services (classify_compose_partial_state g desired observed)"
  let ?found = "\<lambda>s. filter (\<lambda>ob. obs_service ob = s) observed"
  assume "healthy_managed_set (classify_compose_partial_state g desired observed) = Some managed"
  then have managed: "managed = bt_of (List.map_filter present_container ?services)"
    and healthy: "\<forall>s \<in> set desired. \<exists>c. healthy_service observed s c"
    by (auto simp: healthy_managed_set_def complete_healthy_iff split: if_splits)
  have keys: "map fst (List.map_filter present_container m) = map fst (filter (\<lambda>e. present_container e \<noteq> None) m)" for m
    by (induction m rule: list.induct) (auto simp: List.map_filter_def elim!: present_container.elims)
  have "distinct (map fst (List.map_filter present_container ?services))"
    using bt_ok_distinct [OF classified_ok] by (simp add: keys distinct_map_filter)
  then have "bt_get managed service = Some c \<longleftrightarrow> (service, c) \<in> set (List.map_filter present_container ?services)"
    by (simp add: managed bt.get_insert_all_distinct [OF bt.ok_empty])
  also have "\<dots> \<longleftrightarrow> (\<exists>r h. (service, ServicePresent c r h) \<in> set ?services)"
    by (force simp: List.map_filter_def elim!: present_container.elims)
  also have "\<dots> \<longleftrightarrow> (\<exists>r h. service \<in> set desired \<and> service_state (if ?found service = [] then None else Some (?found service)) = ServicePresent c r h)"
    by (simp add: bt_entry [OF classified_ok] classified_get Let_def)
  also have "\<dots> \<longleftrightarrow> service \<in> set desired \<and> healthy_service observed service c"
    using healthy by (auto simp: healthy_service_def)
  finally show ?thesis .
qed

end
