(* ===== verification/Storage.thy ===== *)
theory Storage
  imports Prelude
begin

text \<open>
  Managed files (\<open>storage.rs\<close> and the inspection of \<open>paths.rs\<close>): secure inspection and atomic
  replacement. An absolute path is the list of its components, a file system maps paths to
  objects, and what the operating system answers to the calls of one operation is a record of
  possible failures. An operation returns the file systems it goes through, so that a crash at any
  moment is an element of that list.
\<close>

section \<open>File systems\<close>

type_synonym path = "string list"

type_synonym io_error = string

datatype file_kind = RegularFile | DirectoryKind | SymbolicLink | SocketKind | OtherKind

record file_node =
  node_kind :: file_kind
  node_owner :: "32 word"
  node_mode :: nat
  node_content :: "8 word list"

type_synonym file_system = "path \<rightharpoonup> file_node"

datatype managed_mode = PrivateDirectory | PrivateFile | PublicFile

primrec unix_bits :: "managed_mode \<Rightarrow> nat" where
  "unix_bits PrivateDirectory = 448"
| "unix_bits PrivateFile = 384"
| "unix_bits PublicFile = 420"

datatype atomic_write_stage =
    CreateTemporary | SetPermissions | WriteContent | FlushContent | SyncFile | RenameFile | SyncParent

text \<open>
  Answers of the operating system during one operation: the user, failures of metadata, random
  and open calls, the mode a new file gets under the umask, the failure of each stage, how many
  bytes a failed write leaves, whether removing the temporary file fails, and the failure of a
  read.
\<close>

record os_answers =
  os_user :: "32 word"
  os_stat_fault :: "path \<Rightarrow> io_error option"
  os_random :: "nat \<Rightarrow> (8 word list, io_error) result"
  os_open_fault :: "nat \<Rightarrow> io_error option"
  os_created_mode :: nat
  os_fault :: "atomic_write_stage \<Rightarrow> io_error option"
  os_written :: nat
  os_remove_fails :: bool
  os_read_fault :: "io_error option"

section \<open>Inspection\<close>

datatype managed_path_state = MissingPath | ValidPath

datatype managed_path_error =
    InspectFailed path io_error
  | SymlinkPath path
  | WrongKind path file_kind
  | OwnershipMismatch path "32 word" "32 word"

definition inspect_managed_path ::
    "os_answers \<Rightarrow> file_system \<Rightarrow> path \<Rightarrow> file_kind \<Rightarrow> (managed_path_state, managed_path_error) result" where
  "inspect_managed_path os fs path expected =
     (case os_stat_fault os path of
        Some e \<Rightarrow> Err (InspectFailed path e)
      | None \<Rightarrow>
          (case fs path of
             None \<Rightarrow> Ok MissingPath
           | Some n \<Rightarrow>
               if node_kind n = SymbolicLink then Err (SymlinkPath path)
               else if node_kind n \<noteq> expected then Err (WrongKind path expected)
               else if node_owner n \<noteq> os_user os then Err (OwnershipMismatch path (os_user os) (node_owner n))
               else Ok ValidPath))"

datatype storage_error =
    StorageManagedPath managed_path_error
  | InvalidDestination path
  | ParentSymlink path
  | ParentNotDirectory path
  | RandomFailed io_error
  | TemporaryNameExhausted path
  | StorageIo atomic_write_stage path io_error

fun inspect_ancestors :: "os_answers \<Rightarrow> file_system \<Rightarrow> path list \<Rightarrow> (unit, storage_error) result" where
  "inspect_ancestors os fs [] = Ok ()"
| "inspect_ancestors os fs (p # ps) =
     (case os_stat_fault os p of
        Some e \<Rightarrow> Err (StorageIo CreateTemporary p e)
      | None \<Rightarrow>
          (case fs p of
             None \<Rightarrow> inspect_ancestors os fs ps
           | Some n \<Rightarrow>
               if node_kind n = SymbolicLink then Err (ParentSymlink p)
               else if node_kind n \<noteq> DirectoryKind then Err (ParentNotDirectory p)
               else inspect_ancestors os fs ps))"

definition inspect_parent_components :: "os_answers \<Rightarrow> file_system \<Rightarrow> path \<Rightarrow> (unit, storage_error) result" where
  "inspect_parent_components os fs path =
     (if path = [] then Ok ()
      else inspect_ancestors os fs (map (\<lambda>n. take n path) (rev [0..<length path])))"

section \<open>Atomic replacement\<close>

definition MAX_ATTEMPTS :: nat where
  "MAX_ATTEMPTS = 128"

definition temporary_name :: "string \<Rightarrow> 8 word list \<Rightarrow> string" where
  "temporary_name filename random = ''.'' @ filename @ ''.cdenv-tmp-'' @ lower_hex random"

fun unique_temporary :: "os_answers \<Rightarrow> path \<Rightarrow> file_system \<Rightarrow> nat list \<Rightarrow> (path, storage_error) result" where
  "unique_temporary os path fs [] = Err (TemporaryNameExhausted path)"
| "unique_temporary os path fs (i # is) =
     (case os_random os i of
        Err e \<Rightarrow> Err (RandomFailed e)
      | Ok random \<Rightarrow>
          (let candidate = butlast path @ [temporary_name (last path) random] in
           if fs candidate \<noteq> None then unique_temporary os path fs is
           else case os_open_fault os i of
             Some e \<Rightarrow> Err (StorageIo CreateTemporary path e)
           | None \<Rightarrow> Ok candidate))"

definition create_unique_temporary :: "os_answers \<Rightarrow> path \<Rightarrow> file_system \<Rightarrow> (path, storage_error) result" where
  "create_unique_temporary os path fs = unique_temporary os path fs [0..<MAX_ATTEMPTS]"

text \<open>What a stage that succeeds does, and what one that fails leaves behind.\<close>

definition stage_effect ::
    "path \<Rightarrow> path \<Rightarrow> 8 word list \<Rightarrow> managed_mode \<Rightarrow> atomic_write_stage \<Rightarrow> file_system \<Rightarrow> file_system" where
  "stage_effect temporary path content mode stage fs =
     (case stage of
        SetPermissions \<Rightarrow> fs(temporary := map_option (\<lambda>n. n\<lparr>node_mode := unix_bits mode\<rparr>) (fs temporary))
      | WriteContent \<Rightarrow> fs(temporary := map_option (\<lambda>n. n\<lparr>node_content := content\<rparr>) (fs temporary))
      | RenameFile \<Rightarrow> fs(path := fs temporary, temporary := None)
      | _ \<Rightarrow> fs)"

definition failed_effect ::
    "os_answers \<Rightarrow> path \<Rightarrow> 8 word list \<Rightarrow> atomic_write_stage \<Rightarrow> file_system \<Rightarrow> file_system list" where
  "failed_effect os temporary content stage fs =
     (let left = (if stage = WriteContent
                  then fs(temporary := map_option (\<lambda>n. n\<lparr>node_content := take (os_written os) content\<rparr>) (fs temporary))
                  else fs) in
      if stage = SyncParent \<or> os_remove_fails os then [left] else [left, left(temporary := None)])"

fun write_stages ::
    "os_answers \<Rightarrow> path \<Rightarrow> path \<Rightarrow> 8 word list \<Rightarrow> managed_mode \<Rightarrow> atomic_write_stage list \<Rightarrow> file_system \<Rightarrow>
     file_system list \<times> (unit, storage_error) result" where
  "write_stages os temporary path content mode [] fs = ([], Ok ())"
| "write_stages os temporary path content mode (stage # stages) fs =
     (case os_fault os stage of
        Some e \<Rightarrow> (failed_effect os temporary content stage fs, Err (StorageIo stage path e))
      | None \<Rightarrow>
          (let fs' = stage_effect temporary path content mode stage fs;
               (trace, r) = write_stages os temporary path content mode stages fs' in
           (fs' # trace, r)))"

definition replace_through ::
    "os_answers \<Rightarrow> path \<Rightarrow> 8 word list \<Rightarrow> managed_mode \<Rightarrow> file_system \<Rightarrow> path \<Rightarrow>
     file_system list \<times> (unit, storage_error) result" where
  "replace_through os path content mode fs temporary =
     (let created = fs(temporary \<mapsto> \<lparr>node_kind = RegularFile, node_owner = os_user os,
            node_mode = os_created_mode os, node_content = []\<rparr>);
          (trace, r) = write_stages os temporary path content mode
            [SetPermissions, WriteContent, FlushContent, SyncFile, RenameFile, SyncParent] created in
      (created # trace, r))"

definition atomic_write ::
    "os_answers \<Rightarrow> path \<Rightarrow> 8 word list \<Rightarrow> managed_mode \<Rightarrow> file_system \<Rightarrow>
     file_system list \<times> (unit, storage_error) result" where
  "atomic_write os path content mode fs =
     (if path = [] then ([], Err (InvalidDestination path))
      else case inspect_parent_components os fs path of
        Err e \<Rightarrow> ([], Err e)
      | Ok _ \<Rightarrow>
     (case inspect_managed_path os fs (butlast path) DirectoryKind of
        Err e \<Rightarrow> ([], Err (StorageManagedPath e))
      | Ok _ \<Rightarrow>
     (case inspect_managed_path os fs path RegularFile of
        Err e \<Rightarrow> ([], Err (StorageManagedPath e))
      | Ok _ \<Rightarrow>
     (case create_unique_temporary os path fs of
        Err e \<Rightarrow> ([], Err e)
      | Ok temporary \<Rightarrow> replace_through os path content mode fs temporary))))"

section \<open>Atomicity\<close>

lemma unique_temporary_Ok:
  "unique_temporary os path fs is = Ok temporary \<Longrightarrow>
     fs temporary = None \<and> (\<exists>random. temporary = butlast path @ [temporary_name (last path) random])"
  by (induction "is") (auto simp: Let_def split: result.splits if_splits option.splits)

lemma temporary_differs: "path \<noteq> [] \<Longrightarrow> butlast path @ [temporary_name (last path) random] \<noteq> path"
proof
  assume "path \<noteq> []" and "butlast path @ [temporary_name (last path) random] = path"
  then have "last path = temporary_name (last path) random" by (metis last_snoc)
  then have "length (last path) = length (temporary_name (last path) random)" by simp
  then show False by (simp add: temporary_name_def)
qed

definition new_node :: "os_answers \<Rightarrow> 8 word list \<Rightarrow> managed_mode \<Rightarrow> file_node" where
  "new_node os content mode =
     \<lparr>node_kind = RegularFile, node_owner = os_user os, node_mode = unix_bits mode, node_content = content\<rparr>"

text \<open>A file system between the old and the new one: the destination is the old file or the complete new
  one, and nothing else that existed is changed.\<close>

definition between :: "file_system \<Rightarrow> path \<Rightarrow> file_node \<Rightarrow> file_system \<Rightarrow> bool" where
  "between fs path new f \<longleftrightarrow> (f path = fs path \<or> f path = Some new) \<and>
     (\<forall>p. p \<noteq> path \<longrightarrow> fs p \<noteq> None \<longrightarrow> f p = fs p)"

definition sync_failed :: "(unit, storage_error) result \<Rightarrow> bool" where
  "sync_failed r \<longleftrightarrow> (\<exists>path e. r = Err (StorageIo SyncParent path e))"

text \<open>
  The file systems a replacement goes through and its answer: all of them are between the old and
  the new one; after success, and after a failure to sync the directory, the new file is in place
  and the temporary one is gone; after any other failure the old file is, and the temporary one is
  gone unless its removal failed too.
\<close>

definition write_outcome ::
    "os_answers \<Rightarrow> file_system \<Rightarrow> path \<Rightarrow> file_node \<Rightarrow> file_system list \<times> (unit, storage_error) result \<Rightarrow> bool" where
  "write_outcome os fs path new = (\<lambda>(trace, r).
     (\<forall>f \<in> set trace. between fs path new f) \<and>
     (if r = Ok () \<or> sync_failed r then last (fs # trace) = fs(path \<mapsto> new)
      else last (fs # trace) path = fs path \<and> (os_remove_fails os \<or> last (fs # trace) = fs)))"

lemma write_outcome_Cons:
  "between fs path new f \<Longrightarrow> write_outcome os fs path new (trace, r) \<Longrightarrow> trace \<noteq> [] \<Longrightarrow>
     write_outcome os fs path new (f # trace, r)"
  by (auto simp: write_outcome_def split: if_splits)

lemma with_temporary:
  assumes "temporary \<noteq> path" "fs temporary = None" "f = fs(temporary \<mapsto> n)"
  shows "between fs path new f" "f path = fs path" "f(temporary := None) = fs"
    "\<exists>m. f(temporary := map_option g (f temporary)) = fs(temporary \<mapsto> m)"
  using assms by (auto simp: between_def)

lemma failed_outcome:
  assumes "temporary \<noteq> path" "fs temporary = None" "f = fs(temporary \<mapsto> n)" "stage \<noteq> SyncParent"
  shows "write_outcome os fs path new (failed_effect os temporary content stage f, Err (StorageIo stage path e))"
proof -
  define left where "left = (if stage = WriteContent
    then f(temporary := map_option (\<lambda>n. n\<lparr>node_content := take (os_written os) content\<rparr>) (f temporary)) else f)"
  have "\<exists>m. left = fs(temporary \<mapsto> m)"
    using assms(3) with_temporary(4) [OF assms(1-3)] by (auto simp: left_def)
  then obtain m where left: "left = fs(temporary \<mapsto> m)" by (rule exE)
  have "between fs path new fs" by (simp add: between_def)
  then show ?thesis using assms(4) with_temporary(1,2,3) [OF assms(1,2) left]
    by (simp add: failed_effect_def left_def [symmetric] Let_def write_outcome_def sync_failed_def)
qed

lemma write_stages_step:
  assumes "temporary \<noteq> path" "fs temporary = None" "f = fs(temporary \<mapsto> n)" "stage \<noteq> SyncParent"
    and "stage_effect temporary path content mode stage f = g" "between fs path new g"
    and "write_outcome os fs path new (write_stages os temporary path content mode (next # stages) g)"
  shows "write_outcome os fs path new (write_stages os temporary path content mode (stage # next # stages) f)"
proof (cases "os_fault os stage")
  case None
  have "fst (write_stages os temporary path content mode (next # stages) g) \<noteq> []"
    by (auto simp: failed_effect_def Let_def split: option.splits prod.splits)
  with None assms(5-7) show ?thesis
    by (cases "write_stages os temporary path content mode (next # stages) g")
      (simp del: write_stages.simps add: write_stages.simps(2) [of os temporary path content mode stage] write_outcome_Cons)
next
  case (Some e)
  with failed_outcome [OF assms(1-4)] show ?thesis by simp
qed

lemma write_stages_outcome:
  assumes "temporary \<noteq> path" "fs temporary = None"
  shows "write_outcome os fs path (new_node os content mode) (write_stages os temporary path content mode
      [SetPermissions, WriteContent, FlushContent, SyncFile, RenameFile, SyncParent]
      (fs(temporary \<mapsto> \<lparr>node_kind = RegularFile, node_owner = os_user os, node_mode = m, node_content = []\<rparr>)))"
proof -
  let ?new = "new_node os content mode"
  note step = write_stages_step [of temporary path fs, OF assms]
  define permitted where "permitted = (new_node os content mode)\<lparr>node_content := []\<rparr>"
  have placed: "write_outcome os fs path ?new (write_stages os temporary path content mode [SyncParent] (fs(path \<mapsto> ?new)))"
    by (cases "os_fault os SyncParent")
      (simp_all add: write_outcome_def stage_effect_def failed_effect_def Let_def between_def sync_failed_def)
  have renaming: "write_outcome os fs path ?new
      (write_stages os temporary path content mode [RenameFile, SyncParent] (fs(temporary \<mapsto> ?new)))"
    using assms by (intro step [OF refl _ _ _ placed]) (auto simp: stage_effect_def between_def fun_eq_iff)
  have syncing: "write_outcome os fs path ?new
      (write_stages os temporary path content mode [FlushContent, SyncFile, RenameFile, SyncParent] (fs(temporary \<mapsto> ?new)))"
    using with_temporary(1) [of temporary path fs, OF assms refl] by (intro step [OF refl _ _ _ step [OF refl _ _ _ renaming]]) (simp_all add: stage_effect_def)
  have writing: "write_outcome os fs path ?new (write_stages os temporary path content mode
      [WriteContent, FlushContent, SyncFile, RenameFile, SyncParent] (fs(temporary \<mapsto> permitted)))"
    using with_temporary(1) [of temporary path fs, OF assms refl]
    by (intro step [OF refl _ _ _ syncing]) (simp_all add: stage_effect_def new_node_def permitted_def)
  show ?thesis
    using with_temporary(1) [of temporary path fs, OF assms refl]
    by (intro step [OF refl _ _ _ writing]) (simp_all add: stage_effect_def new_node_def permitted_def)
qed

lemma inspect_ancestors_Err: "inspect_ancestors os fs ps = Err e \<Longrightarrow> \<not> sync_failed (Err e)"
  by (induction ps) (auto simp: sync_failed_def split: option.splits if_splits)

lemma unique_temporary_Err: "unique_temporary os path fs is = Err e \<Longrightarrow> \<not> sync_failed (Err e)"
  by (induction "is") (auto simp: sync_failed_def Let_def split: option.splits result.splits if_splits)

lemma atomic_write_outcome:
  "write_outcome os fs path (new_node os content mode) (atomic_write os path content mode fs)"
proof -
  let ?outcome = "write_outcome os fs path (new_node os content mode)"
  have untouched: "?outcome ([], Err e)" if "\<not> sync_failed (Err e)" for e
    using that by (simp add: write_outcome_def)
  have parents: "\<not> sync_failed (Err e)" if "inspect_parent_components os fs path = Err e" for e
    using that inspect_ancestors_Err by (auto simp: inspect_parent_components_def split: if_splits)
  have others: "\<not> sync_failed (Err (InvalidDestination p))" "\<not> sync_failed (Err (StorageManagedPath m))"
    "\<not> sync_failed (Err (StorageIo CreateTemporary p e))" for p m e by (simp_all add: sync_failed_def)
  have run: "?outcome (replace_through os path content mode fs temporary)"
    if "path \<noteq> []" "create_unique_temporary os path fs = Ok temporary" for temporary
  proof -
    have temporary: "temporary \<noteq> path" "fs temporary = None"
      using unique_temporary_Ok [OF that(2) [unfolded create_unique_temporary_def]] temporary_differs [OF that(1)] by auto
    define created where "created = fs(temporary \<mapsto> \<lparr>node_kind = RegularFile, node_owner = os_user os,
      node_mode = os_created_mode os, node_content = []\<rparr>)"
    obtain trace r where run: "write_stages os temporary path content mode
        [SetPermissions, WriteContent, FlushContent, SyncFile, RenameFile, SyncParent] created = (trace, r)"
      by (rule prod.exhaust)
    have "?outcome (created # trace, r)"
    proof (rule write_outcome_Cons)
      show "between fs path (new_node os content mode) created"
        by (rule with_temporary(1) [of temporary path fs, OF temporary created_def])
      show "?outcome (trace, r)"
        using write_stages_outcome [of temporary path fs, OF temporary] run unfolding created_def by metis
      show "trace \<noteq> []"
        using run by (auto simp: failed_effect_def Let_def split: option.splits prod.splits if_splits)
    qed
    then show ?thesis by (simp only: replace_through_def Let_def created_def [symmetric] run prod.case)
  qed
  have temporary: "\<not> sync_failed (Err e)" if "create_unique_temporary os path fs = Err e" for e
    using that unique_temporary_Err by (simp add: create_unique_temporary_def)
  show ?thesis
  proof (cases "path = []")
    case False
    then show ?thesis
      unfolding atomic_write_def
      by (cases "inspect_parent_components os fs path"; cases "inspect_managed_path os fs (butlast path) DirectoryKind";
          cases "inspect_managed_path os fs path RegularFile"; cases "create_unique_temporary os path fs")
        (auto intro: untouched [OF parents] untouched [OF temporary] untouched [OF others(2)] run)
  qed (use untouched others in \<open>auto simp: atomic_write_def\<close>)
qed

text \<open>C14: replacing a managed file is atomic. At every moment, so also after a crash, the destination holds the old
  file or the complete new one with its final mode, and no other file is touched. A call that
  succeeds leaves exactly the new file, and so does one that fails only to sync the directory;
  any other failure leaves the old file, and nothing else unless the temporary file could not be
  removed.\<close>

theorem replacement_atomic:
  "write_outcome os fs path (new_node os content mode) (atomic_write os path content mode fs)"
  by (rule atomic_write_outcome)

end
