(* ===== verification/Workspace_State.thy ===== *)
theory Workspace_State
  imports Workspace State_Text Compose_Partial Storage
begin

text \<open>
  The persisted workspace state (\<open>state.rs\<close>, second part): desired intent, the last generation that
  became ready, schema migration, loading and atomic persistence. The JSON codec is a parameter;
  \<open>codec_ok\<close> says that what the writer wrote for a well-formed state, the readers return.
\<close>

section \<open>Records\<close>

datatype active_scenario = ScenarioImage | ScenarioDockerfile | ScenarioCompose string "string list"

fun ActiveScenario_compose :: "active_scenario \<Rightarrow> (string \<times> string list) option" where
  "ActiveScenario_compose (ScenarioCompose project services) = Some (project, services)"
| "ActiveScenario_compose _ = None"

datatype persisted_stage =
    InitializeCommand | OnCreateCommand | UpdateContentCommand | PostCreateCommand | PostStartCommand
  | PostAttachCommand

record lifecycle_record =
  completed_through :: "persisted_stage option"
  running_stage :: "persisted_stage option"
  indeterminate :: bool

definition record_runner_stopped :: "bool \<Rightarrow> lifecycle_record \<Rightarrow> lifecycle_record" where
  "record_runner_stopped unknown c = c\<lparr>running_stage := None, indeterminate := indeterminate c \<or> unknown\<rparr>"

datatype forward_protocol = TcpForward | HttpForward | HttpsForward

record declared_forward =
  forward_requested :: forwarding_endpoint
  forward_target_host :: string
  forward_target_port :: tcp_port
  forward_require_local_port :: bool
  forward_label :: "string option"
  forward_protocol :: forward_protocol

record active_forwarding =
  supervisor_build_id :: "agent_build_id option"
  forwarding_requested :: "declared_forward list"
  forwarding_assigned :: "forwarding_endpoint_assignment list"

record provisioned_state =
  prov_remote_user :: string
  prov_remote_workspace_folder :: string
  prov_container_architecture :: container_architecture
  prov_agent_path :: string
  prov_agent_build_id :: agent_build_id
  prov_protocol_version :: protocol_version
  prov_environment_path :: string

record active_generation =
  active_generation_id :: generation_id
  active_scenario :: active_scenario
  active_container_id :: container_id
  active_image_id :: string
  active_fingerprints :: plan_fingerprints
  active_feature_digests :: "(string, string) btree"
  active_lifecycle :: lifecycle_record
  active_forwarding :: active_forwarding
  active_provisioned :: provisioned_state

definition commit_runtime_fingerprint :: "keyed_digest \<Rightarrow> active_generation \<Rightarrow> active_generation" where
  "commit_runtime_fingerprint runtime a =
     a\<lparr>active_fingerprints := (active_fingerprints a)\<lparr>fp_runtime := runtime\<rparr>\<rparr>"

definition record_lifecycle_stopped :: "bool \<Rightarrow> active_generation \<Rightarrow> active_generation" where
  "record_lifecycle_stopped unknown a = a\<lparr>active_lifecycle := record_runner_stopped unknown (active_lifecycle a)\<rparr>"

record workspace_state =
  schema_version :: "32 word"
  ws_installation_id :: installation_id
  ws_name :: workspace_name
  ws_repository_source :: sanitized_source
  ws_profile :: profile_id
  ws_config :: desired_config_path
  ws_fingerprints :: plan_fingerprints
  ws_created_at :: state_timestamp
  ws_last_up_at :: "state_timestamp option"
  ws_operation :: operation_state
  ws_last_error :: "sanitized_summary option"
  ws_interrupted :: "compose_rebuild_recovery option"
  ws_active :: "active_generation option"

definition WORKSPACE_STATE_SCHEMA_VERSION :: "32 word" where
  "WORKSPACE_STATE_SCHEMA_VERSION = 1"

definition LEGACY_SCHEMA_VERSION :: "32 word" where
  "LEGACY_SCHEMA_VERSION = 0"

definition WorkspaceState_new ::
    "installation_id \<Rightarrow> workspace_name \<Rightarrow> sanitized_source \<Rightarrow> profile_id \<Rightarrow> desired_config_path \<Rightarrow>
     plan_fingerprints \<Rightarrow> state_timestamp \<Rightarrow> workspace_state" where
  "WorkspaceState_new installation name source profile config fingerprints created =
     \<lparr>schema_version = WORKSPACE_STATE_SCHEMA_VERSION, ws_installation_id = installation, ws_name = name,
      ws_repository_source = source, ws_profile = profile, ws_config = config,
      ws_fingerprints = fingerprints, ws_created_at = created, ws_last_up_at = None,
      ws_operation = OperationState_idle, ws_last_error = None, ws_interrupted = None, ws_active = None\<rparr>"

definition set_interrupted_compose_rebuild ::
    "compose_rebuild_recovery option \<Rightarrow> workspace_state \<Rightarrow> workspace_state" where
  "set_interrupted_compose_rebuild recovery s = s\<lparr>ws_interrupted := recovery\<rparr>"

definition update_desired ::
    "profile_id \<Rightarrow> desired_config_path \<Rightarrow> plan_fingerprints \<Rightarrow> workspace_state \<Rightarrow> workspace_state" where
  "update_desired profile config fingerprints s =
     s\<lparr>ws_profile := profile, ws_config := config, ws_fingerprints := fingerprints\<rparr>"

definition set_operation :: "operation_state \<Rightarrow> workspace_state \<Rightarrow> workspace_state" where
  "set_operation operation s = s\<lparr>ws_operation := operation\<rparr>"

definition set_last_error :: "sanitized_summary option \<Rightarrow> workspace_state \<Rightarrow> workspace_state" where
  "set_last_error e s = s\<lparr>ws_last_error := e\<rparr>"

definition commit_active :: "active_generation \<Rightarrow> state_timestamp \<Rightarrow> workspace_state \<Rightarrow> workspace_state" where
  "commit_active active completed s =
     s\<lparr>ws_active := Some active, ws_last_up_at := Some completed, ws_operation := OperationState_idle,
       ws_last_error := None, ws_interrupted := None\<rparr>"

record workspace_state_v0 =
  v0_schema_version :: "32 word"
  v0_installation_id :: installation_id
  v0_name :: workspace_name
  v0_repository_source :: sanitized_source
  v0_devcontainer_config :: desired_config_path
  v0_desired_fingerprints :: plan_fingerprints
  v0_created_at :: state_timestamp
  v0_operation :: operation_state
  v0_last_error :: "sanitized_summary option"
  v0_active :: "active_generation option"

section \<open>Loading and persisting\<close>

type_synonym json_error = string

record state_codec =
  codec_write :: "workspace_state \<Rightarrow> (8 word list, json_error) result"
  codec_read_header :: "8 word list \<Rightarrow> (32 word, json_error) result"
  codec_read_state :: "8 word list \<Rightarrow> (workspace_state, json_error) result"
  codec_read_legacy :: "8 word list \<Rightarrow> (workspace_state_v0, json_error) result"

datatype migration_status = StateCurrent | StateMigrated "32 word"

text \<open>\<open>StatePanic\<close> stands for the panic of \<^verbatim>\<open>migrate\<close> on a pinned profile name that does not parse; lemma
  \<open>migrate_total\<close> shows that it does parse.\<close>

datatype workspace_state_error =
    StateManagedPath managed_path_error
  | StateRead path io_error
  | StateMissing path
  | StateCorrupt path json_error
  | NewerSchema path "32 word" "32 word"
  | UnsupportedOlderSchema path "32 word"
  | InvalidInMemorySchema "32 word" "32 word"
  | StateSerialize json_error
  | StateStorage storage_error
  | StatePanic

definition migrate :: "workspace_state_v0 \<Rightarrow> (workspace_state, workspace_state_error) result" where
  "migrate v =
     (case ProfileId_parse ''cdenv-devcontainer-v1'' of
        Err _ \<Rightarrow> Err StatePanic
      | Ok profile \<Rightarrow> Ok
          \<lparr>schema_version = WORKSPACE_STATE_SCHEMA_VERSION, ws_installation_id = v0_installation_id v,
           ws_name = v0_name v, ws_repository_source = v0_repository_source v, ws_profile = profile,
           ws_config = v0_devcontainer_config v, ws_fingerprints = v0_desired_fingerprints v,
           ws_created_at = v0_created_at v, ws_last_up_at = None, ws_operation = v0_operation v,
           ws_last_error = v0_last_error v, ws_interrupted = None, ws_active = v0_active v\<rparr>)"

definition decode_workspace_state ::
    "state_codec \<Rightarrow> path \<Rightarrow> 8 word list \<Rightarrow> (workspace_state \<times> migration_status, workspace_state_error) result" where
  "decode_workspace_state codec path bytes =
     (case codec_read_header codec bytes of
        Err e \<Rightarrow> Err (StateCorrupt path e)
      | Ok version \<Rightarrow>
          if version > WORKSPACE_STATE_SCHEMA_VERSION
          then Err (NewerSchema path version WORKSPACE_STATE_SCHEMA_VERSION)
          else if version = WORKSPACE_STATE_SCHEMA_VERSION
          then (case codec_read_state codec bytes of
                  Err e \<Rightarrow> Err (StateCorrupt path e)
                | Ok s \<Rightarrow> Ok (s, StateCurrent))
          else if version = LEGACY_SCHEMA_VERSION
          then (case codec_read_legacy codec bytes of
                  Err e \<Rightarrow> Err (StateCorrupt path e)
                | Ok v \<Rightarrow> map_ok (\<lambda>s. (s, StateMigrated LEGACY_SCHEMA_VERSION)) (migrate v))
          else Err (UnsupportedOlderSchema path version))"

definition load_workspace_state ::
    "state_codec \<Rightarrow> os_answers \<Rightarrow> path \<Rightarrow> file_system \<Rightarrow>
     (workspace_state \<times> migration_status, workspace_state_error) result" where
  "load_workspace_state codec os path fs =
     (case inspect_managed_path os fs path RegularFile of
        Err e \<Rightarrow> Err (StateManagedPath e)
      | Ok MissingPath \<Rightarrow> Err (StateMissing path)
      | Ok ValidPath \<Rightarrow>
          (case os_read_fault os of
             Some e \<Rightarrow> Err (StateRead path e)
           | None \<Rightarrow> decode_workspace_state codec path (node_content (the (fs path)))))"

definition persist_workspace_state ::
    "state_codec \<Rightarrow> os_answers \<Rightarrow> path \<Rightarrow> workspace_state \<Rightarrow> file_system \<Rightarrow>
     file_system list \<times> (unit, workspace_state_error) result" where
  "persist_workspace_state codec os path s fs =
     (if schema_version s \<noteq> WORKSPACE_STATE_SCHEMA_VERSION
      then ([], Err (InvalidInMemorySchema (schema_version s) WORKSPACE_STATE_SCHEMA_VERSION))
      else case codec_write codec s of
        Err e \<Rightarrow> ([], Err (StateSerialize e))
      | Ok bytes \<Rightarrow>
          (let (trace, r) = atomic_write os path (bytes @ [10]) PrivateFile fs
           in (trace, map_err StateStorage r)))"

section \<open>Well-formed states\<close>

text \<open>What the Rust types guarantee: strings are UTF-8, and every newtype holds what its constructor
  accepts. Each condition is the check of the deserializer of that field.\<close>

primrec option_all :: "('a \<Rightarrow> bool) \<Rightarrow> 'a option \<Rightarrow> bool" where
  "option_all P None \<longleftrightarrow> True"
| "option_all P (Some x) \<longleftrightarrow> P x"

definition fingerprints_ok :: "plan_fingerprints \<Rightarrow> bool" where
  "fingerprints_ok f \<longleftrightarrow>
     (\<forall>d \<in> {fp_build f, fp_create f, fp_runtime f}. KeyedDigest_parse (KeyedDigest_as_str d) = Ok d)"

definition timestamp_ok :: "state_timestamp \<Rightarrow> bool" where
  "timestamp_ok t \<longleftrightarrow> valid_utf8 (timestamp_as_str t) \<and> StateTimestamp_parse (timestamp_as_str t) = Ok t"

definition config_ok :: "desired_config_path \<Rightarrow> bool" where
  "config_ok c \<longleftrightarrow> valid_utf8 (config_as_str c) \<and> DesiredConfigPath_parse (config_as_str c) = Ok c"

definition operation_ok :: "operation_state \<Rightarrow> bool" where
  "operation_ok op \<longleftrightarrow> OperationState_deserialize (op_kind op) (op_id op) (op_started_at op) = Ok op \<and>
     option_all valid_utf8 (op_id op) \<and> option_all timestamp_ok (op_started_at op)"

definition summary_ok :: "sanitized_summary \<Rightarrow> bool" where
  "summary_ok m \<longleftrightarrow> plain_text (summary_as_str m) \<and> length (summary_as_str m) \<le> MAX_SUMMARY_BYTES"

definition generation_ok :: "generation_id \<Rightarrow> bool" where
  "generation_ok g \<longleftrightarrow> generation_get g \<noteq> 0"

definition container_ok :: "container_id \<Rightarrow> bool" where
  "container_ok c \<longleftrightarrow> validate_container_id (ContainerId_as_str c) = Ok ()"

primrec partial_service_ok :: "compose_partial_service \<Rightarrow> bool" where
  "partial_service_ok ServiceMissing \<longleftrightarrow> True"
| "partial_service_ok (ServicePresent c _ _) \<longleftrightarrow> container_ok c"
| "partial_service_ok (ServiceAmbiguous cs) \<longleftrightarrow> list_all container_ok cs"

definition partial_ok :: "compose_partial_state \<Rightarrow> bool" where
  "partial_ok p \<longleftrightarrow> generation_ok (partial_generation p) \<and> bt_ok (partial_services p) \<and>
     list_all (\<lambda>(k, v). valid_utf8 k \<and> partial_service_ok v) (partial_services p)"

definition recovery_ok :: "compose_rebuild_recovery \<Rightarrow> bool" where
  "recovery_ok r \<longleftrightarrow> generation_ok (recovery_generation r) \<and> option_all partial_ok (recovery_partial r)"

primrec scenario_ok :: "active_scenario \<Rightarrow> bool" where
  "scenario_ok ScenarioImage \<longleftrightarrow> True"
| "scenario_ok ScenarioDockerfile \<longleftrightarrow> True"
| "scenario_ok (ScenarioCompose project services) \<longleftrightarrow> valid_utf8 project \<and> list_all valid_utf8 services"

definition forward_ok :: "declared_forward \<Rightarrow> bool" where
  "forward_ok f \<longleftrightarrow> endpoint_ok (forward_requested f) \<and> valid_utf8 (forward_target_host f) \<and>
     tcp_port_get (forward_target_port f) \<noteq> 0 \<and> option_all valid_utf8 (forward_label f)"

definition forwarding_ok :: "active_forwarding \<Rightarrow> bool" where
  "forwarding_ok f \<longleftrightarrow>
     option_all (\<lambda>b. identity_token (AgentBuildId_as_str b)) (supervisor_build_id f) \<and>
     list_all forward_ok (forwarding_requested f) \<and>
     list_all (\<lambda>a. endpoint_ok (assignment_requested a) \<and> option_all endpoint_ok (assignment_assigned a))
       (forwarding_assigned f)"

definition provisioned_ok :: "provisioned_state \<Rightarrow> bool" where
  "provisioned_ok p \<longleftrightarrow>
     list_all valid_utf8 [prov_remote_user p, prov_remote_workspace_folder p, prov_agent_path p, prov_environment_path p] \<and>
     identity_token (AgentBuildId_as_str (prov_agent_build_id p)) \<and> protocol_get (prov_protocol_version p) \<noteq> 0"

definition active_ok :: "active_generation \<Rightarrow> bool" where
  "active_ok a \<longleftrightarrow> generation_ok (active_generation_id a) \<and> scenario_ok (active_scenario a) \<and>
     container_ok (active_container_id a) \<and> valid_utf8 (active_image_id a) \<and>
     fingerprints_ok (active_fingerprints a) \<and> bt_ok (active_feature_digests a) \<and>
     list_all (\<lambda>(k, v). valid_utf8 k \<and> valid_utf8 v) (active_feature_digests a) \<and>
     forwarding_ok (active_generation.active_forwarding a) \<and> provisioned_ok (active_provisioned a)"

definition state_ok :: "'u url_library \<Rightarrow> workspace_state \<Rightarrow> bool" where
  "state_ok lib s \<longleftrightarrow> schema_version s = WORKSPACE_STATE_SCHEMA_VERSION \<and>
     identity_token (InstallationId_as_str (ws_installation_id s)) \<and>
     workspace_label (WorkspaceName_as_str (ws_name s)) \<and>
     valid_utf8 (source_as_str (ws_repository_source s)) \<and>
     sanitize lib (source_as_str (ws_repository_source s)) = ws_repository_source s \<and>
     identity_token (ProfileId_as_str (ws_profile s)) \<and> config_ok (ws_config s) \<and>
     fingerprints_ok (ws_fingerprints s) \<and> timestamp_ok (ws_created_at s) \<and>
     option_all timestamp_ok (ws_last_up_at s) \<and> operation_ok (ws_operation s) \<and>
     option_all summary_ok (ws_last_error s) \<and> option_all recovery_ok (ws_interrupted s) \<and>
     option_all active_ok (ws_active s)"

lemma idle_ok: "operation_ok OperationState_idle"
  by (simp add: operation_ok_def OperationState_idle_def OperationState_deserialize_def)

lemma active_operation_ok:
  "OperationState_active kind ident started = Ok op \<Longrightarrow> valid_utf8 ident \<Longrightarrow> timestamp_ok started \<Longrightarrow> operation_ok op"
  by (auto simp: OperationState_active_def operation_ok_def OperationState_deserialize_def split: if_splits)

lemma redact_ok: "valid_utf8 summary \<Longrightarrow> list_all valid_utf8 secrets \<Longrightarrow> summary_ok (redact summary secrets)"
  by (simp add: summary_ok_def redact_plain)

text \<open>Every operation on a state keeps it well formed.\<close>

lemma state_ok_operations:
  "state_ok lib s \<Longrightarrow> identity_token (ProfileId_as_str profile) \<Longrightarrow> config_ok config \<Longrightarrow> fingerprints_ok f \<Longrightarrow>
     state_ok lib (update_desired profile config f s)"
  "state_ok lib s \<Longrightarrow> operation_ok op \<Longrightarrow> state_ok lib (set_operation op s)"
  "state_ok lib s \<Longrightarrow> option_all summary_ok e \<Longrightarrow> state_ok lib (set_last_error e s)"
  "state_ok lib s \<Longrightarrow> option_all recovery_ok r \<Longrightarrow> state_ok lib (set_interrupted_compose_rebuild r s)"
  "state_ok lib s \<Longrightarrow> active_ok a \<Longrightarrow> timestamp_ok t \<Longrightarrow> state_ok lib (commit_active a t s)"
  by (simp_all add: state_ok_def update_desired_def set_operation_def set_last_error_def
      set_interrupted_compose_rebuild_def commit_active_def idle_ok)

lemma active_ok_operations:
  "active_ok a \<Longrightarrow> fingerprints_ok f \<Longrightarrow> active_ok (commit_runtime_fingerprint (fp_runtime f) a)"
  "active_ok a \<Longrightarrow> active_ok (record_lifecycle_stopped unknown a)"
  by (simp_all add: active_ok_def commit_runtime_fingerprint_def record_lifecycle_stopped_def fingerprints_ok_def)

lemma pinned_profile: "ProfileId_parse ''cdenv-devcontainer-v1'' = Ok (ProfileId ''cdenv-devcontainer-v1'')"
  by code_simp

lemma migrate_total: "\<exists>s. migrate v = Ok s"
  by (simp add: migrate_def pinned_profile)

lemma decode_never_panics: "decode_workspace_state codec path bytes \<noteq> Err StatePanic"
  by (simp add: decode_workspace_state_def migrate_def pinned_profile split: result.splits)

section \<open>Durability\<close>

text \<open>
  A store in which saving is atomic: whatever happens during a save, what is stored is what was
  stored before or the saved value, and after a save that succeeds it is the saved value.
\<close>

locale durable_store =
  fixes kept :: "'f \<Rightarrow> 's option"
    and save :: "'o \<Rightarrow> 's \<Rightarrow> 'f \<Rightarrow> 'f list \<times> (unit, 'e) result"
    and savable :: "'o \<Rightarrow> 's \<Rightarrow> bool"
  assumes save_trace: "savable os s \<Longrightarrow> g \<in> set (fst (save os s f)) \<Longrightarrow> kept g = kept f \<or> kept g = Some s"
    and save_Ok: "savable os s \<Longrightarrow> snd (save os s f) = Ok () \<Longrightarrow> kept (last (f # fst (save os s f))) = Some s"
begin

lemma save_last: "savable os s \<Longrightarrow> kept (last (f # fst (save os s f))) = kept f \<or> kept (last (f # fst (save os s f))) = Some s"
  using save_trace [of os s _ f] by (cases "fst (save os s f) = []") auto

text \<open>A sequence of saves, each from what the one before left.\<close>

fun save_all :: "('o \<times> 's) list \<Rightarrow> 'f \<Rightarrow> 'f list" where
  "save_all [] f = []"
| "save_all ((os, s) # rest) f = fst (save os s f) @ save_all rest (last (f # fst (save os s f)))"

lemma save_all_kept:
  "(\<forall>(os, s) \<in> set saves. savable os s) \<Longrightarrow> g \<in> set (save_all saves f) \<Longrightarrow>
     kept g = kept f \<or> (\<exists>(os, s) \<in> set saves. kept g = Some s)"
proof (induction saves f rule: save_all.induct)
  case (2 os s rest f)
  show ?case
  proof (cases "g \<in> set (fst (save os s f))")
    case True
    with save_trace [of os s g f] "2.prems" show ?thesis by auto
  next
    case False
    with "2.IH" "2.prems" save_last [of os s f] show ?thesis by auto
  qed
qed simp

end

definition stored :: "state_codec \<Rightarrow> 32 word \<Rightarrow> path \<Rightarrow> file_system \<Rightarrow> workspace_state option" where
  "stored codec user path fs =
     (case fs path of
        None \<Rightarrow> None
      | Some n \<Rightarrow>
          if node_kind n = RegularFile \<and> node_owner n = user
          then (case decode_workspace_state codec path (node_content n) of Ok (s, _) \<Rightarrow> Some s | Err _ \<Rightarrow> None)
          else None)"

definition codec_ok :: "'u url_library \<Rightarrow> state_codec \<Rightarrow> bool" where
  "codec_ok lib codec \<longleftrightarrow>
     (\<forall>s bytes. state_ok lib s \<longrightarrow> codec_write codec s = Ok bytes \<longrightarrow>
        codec_read_header codec (bytes @ [10]) = Ok (schema_version s) \<and>
        codec_read_state codec (bytes @ [10]) = Ok s)"

lemma load_stored:
  "load_workspace_state codec os path fs = Ok (s, m) \<Longrightarrow> stored codec (os_user os) path fs = Some s"
  by (auto simp: load_workspace_state_def stored_def inspect_managed_path_def
      split: option.splits result.splits if_splits managed_path_state.splits)

lemma stored_load:
  "stored codec (os_user os) path fs = Some s \<Longrightarrow> os_stat_fault os path = None \<Longrightarrow> os_read_fault os = None \<Longrightarrow>
     \<exists>m. load_workspace_state codec os path fs = Ok (s, m)"
  by (auto simp: load_workspace_state_def stored_def inspect_managed_path_def
      split: option.splits result.splits if_splits)

lemma stored_new:
  assumes "codec_ok lib codec" "state_ok lib s" "codec_write codec s = Ok bytes"
    and "fs path = Some (new_node os (bytes @ [10]) PrivateFile)"
  shows "stored codec (os_user os) path fs = Some s"
  using assms by (auto simp: stored_def new_node_def codec_ok_def decode_workspace_state_def state_ok_def)

lemma persist_cases:
  assumes "persist_workspace_state codec os path s fs = (trace, r)"
  shows "trace = [] \<and> r \<noteq> Ok () \<or>
    (\<exists>bytes. codec_write codec s = Ok bytes \<and>
      (\<forall>f \<in> set trace. f path = fs path \<or> f path = Some (new_node os (bytes @ [10]) PrivateFile)) \<and>
      (r = Ok () \<longrightarrow> last (fs # trace) path = Some (new_node os (bytes @ [10]) PrivateFile)))"
proof (cases "schema_version s = WORKSPACE_STATE_SCHEMA_VERSION")
  case True
  show ?thesis
  proof (cases "codec_write codec s")
    case (Ok bytes)
    obtain r' where w: "atomic_write os path (bytes @ [10]) PrivateFile fs = (trace, r')" and r: "r = map_err StateStorage r'"
      using assms True Ok by (auto simp: persist_workspace_state_def split: prod.splits)
    have "(\<forall>f \<in> set trace. f path = fs path \<or> f path = Some (new_node os (bytes @ [10]) PrivateFile)) \<and>
        (r' = Ok () \<longrightarrow> last (fs # trace) path = Some (new_node os (bytes @ [10]) PrivateFile))"
      using atomic_write_outcome [of os fs path "bytes @ [10]" PrivateFile]
      unfolding w write_outcome_def between_def prod.case by (cases "r' = Ok ()") simp_all
    with Ok r show ?thesis by (cases r') auto
  qed (use assms True in \<open>auto simp: persist_workspace_state_def\<close>)
qed (use assms in \<open>auto simp: persist_workspace_state_def\<close>)

lemma stored_unchanged: "f path = fs path \<Longrightarrow> stored codec user path f = stored codec user path fs"
  by (simp add: stored_def)

interpretation st: durable_store "stored codec user path" "\<lambda>os. persist_workspace_state codec os path"
  "\<lambda>os s. codec_ok lib codec \<and> state_ok lib s \<and> os_user os = user" for codec user path and lib :: "'u url_library"
proof
  fix os :: os_answers and s g f
  assume ok: "codec_ok lib codec \<and> state_ok lib s \<and> os_user os = user"
  obtain trace r where run: "persist_workspace_state codec os path s f = (trace, r)" by (rule prod.exhaust)
  note cases = persist_cases [OF run] and new = stored_new [of lib codec s _ _ path os]
  show "stored codec user path g = stored codec user path f \<or> stored codec user path g = Some s"
    if "g \<in> set (fst (persist_workspace_state codec os path s f))"
    using that ok cases new stored_unchanged [of g path f codec user] run by auto
  show "stored codec user path (last (f # fst (persist_workspace_state codec os path s f))) = Some s"
    if "snd (persist_workspace_state codec os path s f) = Ok ()"
    using that ok cases new run by auto
qed

section \<open>A codec for finitely many states\<close>

text \<open>A codec that writes the states of a table as their position; it satisfies \<open>codec_ok\<close>.\<close>

fun position :: "'a \<Rightarrow> 'a list \<Rightarrow> nat option" where
  "position x [] = None"
| "position x (y # ys) = (if x = y then Some 0 else map_option Suc (position x ys))"

lemma position_Some: "position x ys = Some i \<Longrightarrow> i < length ys \<and> ys ! i = x"
  by (induction ys arbitrary: i) (auto split: if_splits)

definition table_codec :: "workspace_state list \<Rightarrow> state_codec" where
  "table_codec table =
     \<lparr>codec_write = (\<lambda>s. case position s table of None \<Rightarrow> Err [] | Some i \<Rightarrow> Ok (replicate i 0)),
      codec_read_header = (\<lambda>bytes. Ok WORKSPACE_STATE_SCHEMA_VERSION),
      codec_read_state = (\<lambda>bytes. if length bytes - 1 < length table then Ok (table ! (length bytes - 1)) else Err []),
      codec_read_legacy = (\<lambda>bytes. Err [])\<rparr>"

lemma table_codec_ok: "codec_ok lib (table_codec table)"
  using position_Some [of _ table] by (auto simp: codec_ok_def table_codec_def state_ok_def split: option.splits)

text \<open>A state and operating system for examples.\<close>

definition calm_os :: os_answers where
  "calm_os = \<lparr>os_user = 1000, os_stat_fault = (\<lambda>_. None), os_random = (\<lambda>_. Ok [0]), os_open_fault = (\<lambda>_. None),
     os_created_mode = 384, os_fault = (\<lambda>_. None), os_written = 0, os_remove_fails = False, os_read_fault = None\<rparr>"

definition sample_digest :: keyed_digest where
  "sample_digest = KeyedDigest (''keyed:'' @ replicate 64 (CHR ''0''))"

definition sample_fingerprints :: plan_fingerprints where
  "sample_fingerprints = \<lparr>fp_build = sample_digest, fp_create = sample_digest, fp_runtime = sample_digest\<rparr>"

definition sample_state :: workspace_state where
  "sample_state = WorkspaceState_new (InstallationId ''install'') (WorkspaceName ''demo'')
     (SanitizedRepositorySource ''https://example.com/demo.git'') (ProfileId ''cdenv-devcontainer-v1'')
     (DesiredConfigPath ''.devcontainer/devcontainer.json'') sample_fingerprints
     (StateTimestamp ''2024-01-01T00:00:00Z'')"

definition no_urls :: "unit url_library" where
  "no_urls = \<lparr>url_parse = (\<lambda>_. None), url_scheme = (\<lambda>_. []), url_clear_username = id, url_clear_password = id,
     url_clear_query = id, url_clear_fragment = id, url_text = (\<lambda>_. [])\<rparr>"

lemma sample_state_ok: "state_ok no_urls sample_state"
  by code_simp

section \<open>Crash safety\<close>

lemma load_new:
  assumes "codec_ok lib codec" "state_ok lib s" "codec_write codec s = Ok bytes"
    and "f path = Some (new_node os (bytes @ [10]) PrivateFile)"
    and "os_user os' = os_user os" "os_stat_fault os' path = None" "os_read_fault os' = None"
  shows "load_workspace_state codec os' path f = Ok (s, StateCurrent)"
  using assms by (simp add: load_workspace_state_def inspect_managed_path_def new_node_def codec_ok_def
      decode_workspace_state_def state_ok_def)

lemma load_unchanged:
  assumes "f path = fs path"
  shows "load_workspace_state codec os path f = load_workspace_state codec os path fs"
  unfolding load_workspace_state_def inspect_managed_path_def assms by (rule refl)

text \<open>C10: persisting a workspace state is crash safe: whenever a later process loads the state without failures of its own,
  after a crash at any moment of the write or after its end, it gets what it would have got before, or the complete new
  state; and after a write that succeeds it gets the new state. The codec is assumed to read back what it wrote
  for a well-formed state.\<close>

theorem state_crash_safe:
  assumes "codec_ok lib codec" and "state_ok lib s"
    and "persist_workspace_state codec os path s fs = (trace, r)"
    and "os_user reader = os_user os" and "os_stat_fault reader path = None" and "os_read_fault reader = None"
  shows "(\<forall>f \<in> set trace. load_workspace_state codec reader path f \<in>
            {load_workspace_state codec reader path fs, Ok (s, StateCurrent)}) \<and>
         (r = Ok () \<longrightarrow> load_workspace_state codec reader path (last (fs # trace)) = Ok (s, StateCurrent))"
proof -
  note new = load_new [OF assms(1,2) _ _ assms(4-6)]
  consider "trace = []" "r \<noteq> Ok ()"
    | (written) bytes where "codec_write codec s = Ok bytes"
        "\<forall>f \<in> set trace. f path = fs path \<or> f path = Some (new_node os (bytes @ [10]) PrivateFile)"
        "r = Ok () \<longrightarrow> last (fs # trace) path = Some (new_node os (bytes @ [10]) PrivateFile)"
    using persist_cases [OF assms(3)] by blast
  then show ?thesis
  proof cases
    case written
    then show ?thesis using new [OF written(1)] load_unchanged [of _ path fs codec reader] by blast
  qed simp
qed

text \<open>Witness of \<open>state_crash_safe\<close>: persisting the sample state in an existing directory.\<close>

definition sample_files :: file_system where
  "sample_files = [[''w''] \<mapsto> \<lparr>node_kind = DirectoryKind, node_owner = 1000, node_mode = 448, node_content = []\<rparr>]"

theorem state_crash_safe_witness:
  "snd (persist_workspace_state (table_codec [sample_state]) calm_os [''w'', ''state.json''] sample_state sample_files) = Ok () \<and>
   load_workspace_state (table_codec [sample_state]) calm_os [''w'', ''state.json'']
     (last (sample_files # fst (persist_workspace_state (table_codec [sample_state]) calm_os
        [''w'', ''state.json''] sample_state sample_files))) = Ok (sample_state, StateCurrent)"
proof -
  let ?run = "persist_workspace_state (table_codec [sample_state]) calm_os [''w'', ''state.json''] sample_state sample_files"
  have "is_ok (snd ?run)"
    by code_simp
  then have ok: "snd ?run = Ok ()" by (cases "snd ?run") auto
  with state_crash_safe [OF table_codec_ok sample_state_ok, of "[sample_state]" calm_os "[''w'', ''state.json'']"
      sample_files "fst ?run" "snd ?run" calm_os]
  show ?thesis by (simp add: calm_os_def)
qed

end
