(* ===== verification/Transaction.thy ===== *)
theory Transaction
  imports Workspace_State
begin

text \<open>
  What the workspace transactions (\<open>up\<close>, \<open>rebuild\<close>, \<open>down\<close>) share: the managed paths of a workspace
  (\<open>paths.rs\<close>), and a host on which a transaction runs step by step. The adapters of a transaction
  act on a world that is a parameter; the state file is written only through
  \<open>persist_workspace_state\<close>, with the answers of the operating system given per call. The host logs
  every adapter call and every save with the file systems it went through.
\<close>

section \<open>Paths of a workspace\<close>

definition workspaces_dir :: "path \<Rightarrow> path" where
  "workspaces_dir root = root @ [''workspaces'']"

definition workspace_root :: "path \<Rightarrow> workspace_name \<Rightarrow> path" where
  "workspace_root root name = workspaces_dir root @ [WorkspaceName_as_str name]"

definition checkout_dir :: "path \<Rightarrow> workspace_name \<Rightarrow> path" where
  "checkout_dir root name = workspace_root root name @ [''checkout'']"

definition checkout :: "path \<Rightarrow> workspace_name \<Rightarrow> path" where
  "checkout root name = checkout_dir root name @ [WorkspaceName_as_str name]"

definition state_file :: "path \<Rightarrow> workspace_name \<Rightarrow> path" where
  "state_file root name = workspace_root root name @ [''state.json'']"

section \<open>Hosts and steps\<close>

datatype adapter_call =
    Prepare | Preflight | ReconcileEnvironment
  | ValidateFrozen | CheckoutChanges | Build | Quiesce | Backup | CreateReady | Handoff | Rollback | Cleanup
  | StopForwarding | CancelLifecycle | StopEnvironment

datatype event = Did adapter_call | Saved workspace_state "file_system list"

record 'w host =
  host_files :: file_system
  host_world :: 'w
  host_log :: "event list"

type_synonym ('w, 'a, 'e) step = "'w host \<Rightarrow> 'w host \<times> ('a, 'e) result"

type_synonym lock_error = string

definition succeed :: "'a \<Rightarrow> ('w, 'a, 'e) step" where
  "succeed a h = (h, Ok a)"

definition fail :: "'e \<Rightarrow> ('w, 'a, 'e) step" where
  "fail e h = (h, Err e)"

definition attempt ::
    "('w, 'a, 'e) step \<Rightarrow> ('e \<Rightarrow> ('w, 'b, 'f) step) \<Rightarrow> ('a \<Rightarrow> ('w, 'b, 'f) step) \<Rightarrow> ('w, 'b, 'f) step" where
  "attempt m handle k h = (case m h of (h', Ok a) \<Rightarrow> k a h' | (h', Err e) \<Rightarrow> handle e h')"

definition perform :: "adapter_call \<Rightarrow> ('w \<Rightarrow> 'w \<times> ('a, 'e) result) \<Rightarrow> ('w, 'a, 'e) step" where
  "perform c f h =
     (let (w, r) = f (host_world h) in (h\<lparr>host_world := w, host_log := host_log h @ [Did c]\<rparr>, r))"

text \<open>The exclusive lock is acquired before anything else; \<open>None\<close> is success.\<close>

definition acquire :: "lock_error option \<Rightarrow> ('w, unit, lock_error) step" where
  "acquire lock h = (h, case lock of None \<Rightarrow> Ok () | Some e \<Rightarrow> Err e)"

definition load_state :: "state_codec \<Rightarrow> os_answers \<Rightarrow> path \<Rightarrow> ('w, workspace_state, workspace_state_error) step" where
  "load_state codec os path h = (h, map_ok fst (load_workspace_state codec os path (host_files h)))"

definition save_state ::
    "state_codec \<Rightarrow> os_answers \<Rightarrow> path \<Rightarrow> workspace_state \<Rightarrow> ('w, unit, workspace_state_error) step" where
  "save_state codec os path s h =
     (let (trace, r) = persist_workspace_state codec os path s (host_files h)
      in (h\<lparr>host_files := last (host_files h # trace), host_log := host_log h @ [Saved s trace]\<rparr>, r))"

section \<open>Reasoning about steps\<close>

definition wp :: "('w, 'a, 'e) step \<Rightarrow> ('w host \<Rightarrow> ('a, 'e) result \<Rightarrow> bool) \<Rightarrow> 'w host \<Rightarrow> bool" where
  "wp m R h \<longleftrightarrow> R (fst (m h)) (snd (m h))"

lemma wp_run: "wp m R h \<Longrightarrow> m h = (h', r) \<Longrightarrow> R h' r"
  by (simp add: wp_def)

lemma wp_attempt:
  "wp m (\<lambda>h' r. (\<forall>a. r = Ok a \<longrightarrow> wp (k a) R h') \<and> (\<forall>e. r = Err e \<longrightarrow> wp (handle e) R h')) h \<Longrightarrow>
     wp (attempt m handle k) R h"
  by (auto simp: wp_def attempt_def split: prod.splits result.splits)

lemma wp_if: "(b \<Longrightarrow> wp m R h) \<Longrightarrow> (\<not> b \<Longrightarrow> wp k R h) \<Longrightarrow> wp (if b then m else k) R h"
  by simp

lemma wp_succeed: "R h (Ok a) \<Longrightarrow> wp (succeed a) R h"
  by (simp add: wp_def succeed_def)

lemma wp_fail: "R h (Err e) \<Longrightarrow> wp (fail e) R h"
  by (simp add: wp_def fail_def)

lemma wp_acquire: "(\<And>r. R h r) \<Longrightarrow> wp (acquire lock) R h"
  by (simp add: wp_def acquire_def)

lemma wp_perform:
  "(\<And>w r. f (host_world h) = (w, r) \<Longrightarrow> R (h\<lparr>host_world := w, host_log := host_log h @ [Did c]\<rparr>) r) \<Longrightarrow>
     wp (perform c f) R h"
  by (simp add: wp_def perform_def split: prod.splits)

lemma wp_load:
  assumes "stored codec (os_user os) path (host_files h) = Some s"
    and "R h (Ok s)" and "\<And>e. R h (Err e)"
  shows "wp (load_state codec os path) R h"
proof (cases "load_workspace_state codec os path (host_files h)")
  case (Ok loaded)
  obtain s' m where "loaded = (s', m)" by (rule prod.exhaust)
  with Ok load_stored [of codec os path "host_files h" s' m] assms(1,2) show ?thesis
    by (simp add: wp_def load_state_def)
qed (simp add: wp_def load_state_def assms(3))

text \<open>The rules for a step in an \<open>attempt\<close>.\<close>

lemma wp_attempt_acquire:
  "wp (k ()) R h \<Longrightarrow> (\<And>e. wp (handle e) R h) \<Longrightarrow> wp (attempt (acquire lock) handle k) R h"
  by (rule wp_attempt, rule wp_acquire) simp

lemma wp_attempt_load:
  "stored codec (os_user os) path (host_files h) = Some s \<Longrightarrow> wp (k s) R h \<Longrightarrow> (\<And>e. wp (handle e) R h) \<Longrightarrow>
     wp (attempt (load_state codec os path) handle k) R h"
  by (rule wp_attempt, rule wp_load) simp_all

lemma wp_attempt_perform:
  "(\<And>w a. f (host_world h) = (w, Ok a) \<Longrightarrow> wp (k a) R (h\<lparr>host_world := w, host_log := host_log h @ [Did c]\<rparr>)) \<Longrightarrow>
     (\<And>w e. f (host_world h) = (w, Err e) \<Longrightarrow> wp (handle e) R (h\<lparr>host_world := w, host_log := host_log h @ [Did c]\<rparr>)) \<Longrightarrow>
     wp (attempt (perform c f) handle k) R h"
  by (rule wp_attempt, rule wp_perform) simp

text \<open>
  The effect of a run since a host \<open>h0\<close>: the labels of its events, and that every file system it
  went through, and the one it left, holds a state that satisfies \<open>P\<close>.
\<close>

datatype label = Called adapter_call | Save workspace_state

primrec label_of :: "event \<Rightarrow> label" where
  "label_of (Did c) = Called c"
| "label_of (Saved s _) = Save s"

primrec passed_by :: "event \<Rightarrow> file_system list" where
  "passed_by (Did _) = []"
| "passed_by (Saved _ trace) = trace"

definition passed :: "event list \<Rightarrow> file_system list" where
  "passed evs = concat (map passed_by evs)"

definition ran ::
    "(file_system \<Rightarrow> workspace_state option) \<Rightarrow> (workspace_state \<Rightarrow> bool) \<Rightarrow> 'w host \<Rightarrow> label list \<Rightarrow> 'w host \<Rightarrow> bool" where
  "ran kept P h0 labels h \<longleftrightarrow>
     (\<exists>evs. host_log h = host_log h0 @ evs \<and> map label_of evs = labels \<and>
        (\<forall>f \<in> insert (host_files h) (set (passed evs)). \<exists>s. kept f = Some s \<and> P s))"

lemma ran_start: "kept (host_files h) = Some s \<Longrightarrow> P s \<Longrightarrow> ran kept P h [] h"
  by (simp add: ran_def passed_def)

lemma ran_perform:
  "ran kept P h0 labels h \<Longrightarrow> ran kept P h0 (labels @ [Called c]) (h\<lparr>host_world := w, host_log := host_log h @ [Did c]\<rparr>)"
  unfolding ran_def by (elim exE, rule_tac x = "evs @ [Did c]" in exI) (simp add: passed_def)

lemma ran_weaken: "ran kept P h0 labels h \<Longrightarrow> (\<And>s. P s \<Longrightarrow> Q s) \<Longrightarrow> ran kept Q h0 labels h"
  by (fastforce simp: ran_def)

text \<open>A state of the same workspace: no transaction changes what identifies it.\<close>

definition same_workspace :: "workspace_state \<Rightarrow> workspace_state \<Rightarrow> bool" where
  "same_workspace s0 s \<longleftrightarrow> ws_installation_id s = ws_installation_id s0 \<and> ws_name s = ws_name s0 \<and>
     ws_repository_source s = ws_repository_source s0 \<and> ws_created_at s = ws_created_at s0"

lemma same_workspace_operations [simp]:
  "same_workspace s s"
  "same_workspace s0 (update_desired profile config f s) = same_workspace s0 s"
  "same_workspace s0 (set_operation op s) = same_workspace s0 s"
  "same_workspace s0 (set_last_error e s) = same_workspace s0 s"
  "same_workspace s0 (commit_active a t s) = same_workspace s0 s"
  "same_workspace s0 (s\<lparr>ws_active := active\<rparr>) = same_workspace s0 s"
  by (simp_all add: same_workspace_def update_desired_def set_operation_def set_last_error_def commit_active_def)

abbreviation continues :: "'u url_library \<Rightarrow> workspace_state \<Rightarrow> workspace_state \<Rightarrow> bool" where
  "continues lib s0 s \<equiv> state_ok lib s \<and> same_workspace s0 s"

text \<open>A save: afterwards the host holds the saved state or what it held before, and after success the
  saved state.\<close>

lemma wp_save:
  assumes "codec_ok lib codec" "state_ok lib s" "os_user os = user"
    and "ran (stored codec user path) P h0 labels h" "P s" "stored codec user path (host_files h) = Some old"
    and "\<And>h'. ran (stored codec user path) P h0 (labels @ [Save s]) h' \<Longrightarrow>
           stored codec user path (host_files h') = Some s \<Longrightarrow> host_world h' = host_world h \<Longrightarrow> R h' (Ok ())"
    and "\<And>h' e. ran (stored codec user path) P h0 (labels @ [Save s]) h' \<Longrightarrow>
           stored codec user path (host_files h') = Some old \<or> stored codec user path (host_files h') = Some s \<Longrightarrow>
           host_world h' = host_world h \<Longrightarrow> R h' (Err e)"
  shows "wp (save_state codec os path s) R h"
proof -
  let ?kept = "stored codec user path"
  obtain trace r where run: "persist_workspace_state codec os path s (host_files h) = (trace, r)" by (rule prod.exhaust)
  define h' where "h' = h\<lparr>host_files := last (host_files h # trace), host_log := host_log h @ [Saved s trace]\<rparr>"
  have ok: "codec_ok lib codec \<and> state_ok lib s \<and> os_user os = user" using assms(1-3) by simp
  have in_trace: "?kept f = Some old \<or> ?kept f = Some s" if "f \<in> set trace" for f
    using st.save_trace [OF ok, of f path "host_files h"] that run assms(6) by simp
  then have left: "?kept (host_files h') = Some old \<or> ?kept (host_files h') = Some s"
    using assms(6) by (simp add: h'_def)
  from assms(4,6) have "P old" by (auto simp: ran_def)
  have "ran ?kept P h0 (labels @ [Save s]) h'"
  proof -
    from assms(4) obtain evs where evs: "host_log h = host_log h0 @ evs" "map label_of evs = labels"
      "\<forall>f \<in> set (passed evs). \<exists>s. ?kept f = Some s \<and> P s" by (auto simp: ran_def)
    have "\<exists>s. ?kept f = Some s \<and> P s" if "f \<in> insert (host_files h') (set (passed (evs @ [Saved s trace])))" for f
      using that left in_trace [of f] evs(3) \<open>P old\<close> \<open>P s\<close> by (auto simp: passed_def)
    with evs(1,2) show ?thesis unfolding ran_def by (intro exI [of _ "evs @ [Saved s trace]"]) (simp add: h'_def)
  qed
  moreover have "?kept (host_files h') = Some s" if "r = Ok ()"
    using st.save_Ok [OF ok, of path "host_files h"] that run by (simp add: h'_def)
  ultimately have "R h' r"
    using assms(7,8) left by (cases r) (simp_all add: h'_def)
  then show ?thesis by (simp add: wp_def save_state_def run h'_def)
qed

section \<open>A host for examples\<close>

definition sample_active :: active_generation where
  "sample_active = \<lparr>active_generation_id = GenerationId 1, active_scenario = ScenarioImage,
     active_container_id = ContainerId (replicate 64 (CHR ''a'')), active_image_id = ''sha256:0'',
     active_fingerprints = sample_fingerprints, active_feature_digests = [],
     active_lifecycle = \<lparr>completed_through = None, running_stage = None, indeterminate = False\<rparr>,
     active_forwarding = \<lparr>supervisor_build_id = None, forwarding_requested = [], forwarding_assigned = []\<rparr>,
     active_provisioned = \<lparr>prov_remote_user = ''dev'', prov_remote_workspace_folder = ''/workspaces/demo'',
       prov_container_architecture = X86_64, prov_agent_path = ''/agent'', prov_agent_build_id = AgentBuildId ''build'',
       prov_protocol_version = ProtocolVersion 1, prov_environment_path = ''/environment''\<rparr>\<rparr>"

definition sample_host :: "workspace_name \<Rightarrow> unit host" where
  "sample_host name = \<lparr>host_files = [state_file [] name \<mapsto>
       \<lparr>node_kind = RegularFile, node_owner = 1000, node_mode = 384, node_content = [10]\<rparr>],
     host_world = (), host_log = []\<rparr>"

lemma sample_active_ok: "active_ok sample_active"
  by code_simp

lemma sample_stored:
  "stored (table_codec (s # table)) 1000 (state_file [] name) (host_files (sample_host name)) = Some s"
  by (simp add: stored_def sample_host_def decode_workspace_state_def table_codec_def)

end
