(* ===== verification/Reconciliation.thy ===== *)
theory Reconciliation
  imports Transaction
begin

text \<open>
  The shared transaction of \<open>create\<close> and \<open>up\<close> (\<open>reconciliation.rs\<close>): desired intent is persisted,
  the environment adapter reconciles, its readiness is checked against the categories of the active
  generation, and only then is the active record replaced. Planner and environment are parameters.
\<close>

section \<open>Requests and answers\<close>

datatype feature_source_policy = ResolveForCreation | FrozenOffline

record category_drift =
  drift_build :: bool
  drift_create :: bool
  drift_runtime :: bool

definition no_drift :: category_drift where
  "no_drift = \<lparr>drift_build = False, drift_create = False, drift_runtime = False\<rparr>"

definition CategoryDrift_between :: "plan_fingerprints \<Rightarrow> plan_fingerprints \<Rightarrow> category_drift" where
  "CategoryDrift_between desired active =
     \<lparr>drift_build = (fp_build desired \<noteq> fp_build active), drift_create = (fp_create desired \<noteq> fp_create active),
      drift_runtime = (fp_runtime desired \<noteq> fp_runtime active)\<rparr>"

datatype reconciliation_warning = BuildDrift | CreateDrift

datatype environment_transition = EnvironmentCreated | EnvironmentStarted | AlreadyRunning

datatype runtime_reconciliation = RuntimeUpToDate | RuntimeInstalled

record 'p prepared_plan =
  plan_profile :: profile_id
  plan_config :: desired_config_path
  plan_prints :: plan_fingerprints
  plan_effective :: 'p

record reconciliation_request =
  req_workspace :: workspace_name
  req_config :: "path option"
  req_operation :: operation_state
  req_completed_at :: state_timestamp

record ready_environment =
  ready_active :: active_generation
  ready_transition :: environment_transition
  ready_runtime :: runtime_reconciliation

record ('p, 'pe, 'fe, 'w) reconciliation_planner =
  planner_prepare :: "path \<Rightarrow> path option \<Rightarrow> workspace_state \<Rightarrow> feature_source_policy \<Rightarrow>
     'w \<Rightarrow> 'w \<times> ('p prepared_plan, 'pe) result"
  planner_preflight :: "'p prepared_plan \<Rightarrow> feature_source_policy \<Rightarrow> 'w \<Rightarrow> 'w \<times> (unit, 'fe) result"
  planner_preflight_text :: "'fe \<Rightarrow> string"

record ('p, 'ee, 'w) environment_reconciler =
  environment_reconcile :: "'p prepared_plan \<Rightarrow> active_generation option \<Rightarrow> category_drift \<Rightarrow>
     'w \<Rightarrow> 'w \<times> (ready_environment, 'ee) result"
  environment_text :: "'ee \<Rightarrow> string"

record reconciliation_outcome =
  outcome_generation :: generation_id
  outcome_transition :: environment_transition
  outcome_runtime :: runtime_reconciliation
  outcome_warnings :: "reconciliation_warning list"

datatype ('pe, 'fe, 'ee) reconciliation_error =
    ReconcileLock lock_error
  | ReconcileState workspace_state_error
  | DesiredInvalid 'pe
  | PreflightFailed 'fe
  | IndeterminateLifecycle
  | EnvironmentFailed 'ee
  | ImplicitReplacement
  | InvalidReadiness
  | FailureRecord string workspace_state_error

section \<open>The transaction\<close>

datatype readiness_boundary_error = BoundaryReplacement | BoundaryCategories

primrec boundary_message :: "readiness_boundary_error \<Rightarrow> string" where
  "boundary_message BoundaryReplacement = ''ordinary reconciliation attempted an implicit generation replacement''"
| "boundary_message BoundaryCategories = ''environment readiness violated the category commit boundary''"

definition validate_readiness ::
    "active_generation option \<Rightarrow> 'p prepared_plan \<Rightarrow> category_drift \<Rightarrow> ready_environment \<Rightarrow>
     (ready_environment, readiness_boundary_error) result" where
  "validate_readiness previous desired drift ready =
     (if is_some_and previous (\<lambda>a. active_generation_id a \<noteq> active_generation_id (ready_active ready))
      then Err BoundaryReplacement
      else if \<not> (case previous of
          None \<Rightarrow> active_fingerprints (ready_active ready) = plan_prints desired
        | Some a \<Rightarrow>
            fp_build (active_fingerprints (ready_active ready)) = fp_build (active_fingerprints a) \<and>
            fp_create (active_fingerprints (ready_active ready)) = fp_create (active_fingerprints a) \<and>
            ready_runtime ready = (if drift_runtime drift then RuntimeInstalled else RuntimeUpToDate))
      then Err BoundaryCategories
      else Ok (if drift_runtime drift
               then ready\<lparr>ready_active := commit_runtime_fingerprint (fp_runtime (plan_prints desired)) (ready_active ready)\<rparr>
               else ready))"

definition failed_state :: "workspace_state \<Rightarrow> string \<Rightarrow> workspace_state" where
  "failed_state s message = set_last_error (Some (redact message [])) (set_operation OperationState_idle s)"

definition record_failure ::
    "state_codec \<Rightarrow> os_answers \<Rightarrow> path \<Rightarrow> workspace_state \<Rightarrow> string \<Rightarrow> ('w, unit, workspace_state_error) step" where
  "record_failure codec os path s message = save_state codec os path (failed_state s message)"

definition drift_of :: "workspace_state \<Rightarrow> 'p prepared_plan \<Rightarrow> category_drift" where
  "drift_of s desired =
     (case ws_active s of
        None \<Rightarrow> no_drift
      | Some a \<Rightarrow> CategoryDrift_between (plan_prints desired) (active_fingerprints a))"

definition intent :: "reconciliation_request \<Rightarrow> workspace_state \<Rightarrow> 'p prepared_plan \<Rightarrow> workspace_state" where
  "intent request s desired = set_last_error None (set_operation (req_operation request)
     (update_desired (plan_profile desired) (plan_config desired) (plan_prints desired) s))"

definition warnings_of :: "category_drift \<Rightarrow> reconciliation_warning list" where
  "warnings_of drift = (if drift_build drift then [BuildDrift] else []) @ (if drift_create drift then [CreateDrift] else [])"

text \<open>\<open>finish_reconciliation\<close> is the part of the transaction after the environment adapter answered.\<close>

definition finish_reconciliation ::
    "state_codec \<Rightarrow> (nat \<Rightarrow> os_answers) \<Rightarrow> path \<Rightarrow> reconciliation_request \<Rightarrow> workspace_state \<Rightarrow> workspace_state \<Rightarrow>
     'p prepared_plan \<Rightarrow> ready_environment \<Rightarrow> ('w, reconciliation_outcome, ('pe, 'fe, 'ee) reconciliation_error) step" where
  "finish_reconciliation codec oss path request loaded state desired answer =
     (let drift = drift_of loaded desired in
      case validate_readiness (ws_active loaded) desired drift answer of
        Err boundary \<Rightarrow>
          attempt (record_failure codec (oss 2) path state (boundary_message boundary))
            (\<lambda>e. fail (ReconcileState e))
            (\<lambda>_. fail (case boundary of BoundaryReplacement \<Rightarrow> ImplicitReplacement | BoundaryCategories \<Rightarrow> InvalidReadiness))
      | Ok ready \<Rightarrow>
          attempt (save_state codec (oss 2) path (commit_active (ready_active ready) (req_completed_at request) state))
            (\<lambda>e. fail (ReconcileState e))
            (\<lambda>_. succeed \<lparr>outcome_generation = active_generation_id (ready_active ready),
               outcome_transition = ready_transition ready, outcome_runtime = ready_runtime ready,
               outcome_warnings = warnings_of drift\<rparr>))"

definition reconcile_workspace ::
    "state_codec \<Rightarrow> (nat \<Rightarrow> os_answers) \<Rightarrow> lock_error option \<Rightarrow> path \<Rightarrow> reconciliation_request \<Rightarrow>
     ('p, 'pe, 'fe, 'w) reconciliation_planner \<Rightarrow> ('p, 'ee, 'w) environment_reconciler \<Rightarrow>
     ('w, reconciliation_outcome, ('pe, 'fe, 'ee) reconciliation_error) step" where
  "reconcile_workspace codec oss lock root request planner environment =
     (let path = state_file root (req_workspace request) in
      attempt (acquire lock) (\<lambda>e. fail (ReconcileLock e)) (\<lambda>_.
      attempt (load_state codec (oss 0) path) (\<lambda>e. fail (ReconcileState e)) (\<lambda>loaded.
      (let policy = (if ws_active loaded \<noteq> None then FrozenOffline else ResolveForCreation) in
      attempt (perform Prepare (planner_prepare planner (checkout root (req_workspace request))
          (req_config request) loaded policy)) (\<lambda>e. fail (DesiredInvalid e)) (\<lambda>desired.
      if is_some_and (ws_active loaded) (\<lambda>a. indeterminate (active_lifecycle a)) then fail IndeterminateLifecycle
      else
      (let state = intent request loaded desired in
      attempt (save_state codec (oss 1) path state) (\<lambda>e. fail (ReconcileState e)) (\<lambda>_.
      attempt (perform Preflight (planner_preflight planner desired policy))
        (\<lambda>source. (let message = planner_preflight_text planner source in
           attempt (record_failure codec (oss 2) path state message)
             (\<lambda>e. fail (FailureRecord message e)) (\<lambda>_. fail (PreflightFailed source)))) (\<lambda>_.
      attempt (perform ReconcileEnvironment (environment_reconcile environment desired (ws_active loaded)
          (drift_of loaded desired)))
        (\<lambda>source. (let message = environment_text environment source in
           attempt (record_failure codec (oss 2) path state message)
             (\<lambda>e. fail (FailureRecord message e)) (\<lambda>_. fail (EnvironmentFailed source))))
        (finish_reconciliation codec oss path request loaded state desired)))))))))"

section \<open>What a transaction commits\<close>

text \<open>The state an \<open>up\<close> commits over \<open>s0\<close>: the first generation has the desired fingerprints; an existing
  one keeps its generation, build and create fingerprints, and has the desired runtime fingerprint
  where that drifted.\<close>

definition up_successor :: "workspace_state \<Rightarrow> workspace_state \<Rightarrow> bool" where
  "up_successor s0 s \<longleftrightarrow>
     (\<exists>b. ws_active s = Some b \<and> ws_operation s = OperationState_idle \<and> ws_last_error s = None \<and>
        (case ws_active s0 of
           None \<Rightarrow> active_fingerprints b = ws_fingerprints s
         | Some a \<Rightarrow> active_generation_id b = active_generation_id a \<and>
             fp_build (active_fingerprints b) = fp_build (active_fingerprints a) \<and>
             fp_create (active_fingerprints b) = fp_create (active_fingerprints a) \<and>
             (fp_runtime (active_fingerprints a) \<noteq> fp_runtime (ws_fingerprints s) \<longrightarrow>
                fp_runtime (active_fingerprints b) = fp_runtime (ws_fingerprints s))))"

text \<open>The values adapters return satisfy the guarantees of their Rust types.\<close>

definition plan_ok :: "'p prepared_plan \<Rightarrow> bool" where
  "plan_ok desired \<longleftrightarrow> identity_token (ProfileId_as_str (plan_profile desired)) \<and> config_ok (plan_config desired) \<and>
     fingerprints_ok (plan_prints desired)"

definition reconciliation_typed ::
    "reconciliation_request \<Rightarrow> ('p, 'pe, 'fe, 'w) reconciliation_planner \<Rightarrow> ('p, 'ee, 'w) environment_reconciler \<Rightarrow> bool" where
  "reconciliation_typed request planner environment \<longleftrightarrow>
     operation_ok (req_operation request) \<and> timestamp_ok (req_completed_at request) \<and>
     (\<forall>p c s f w w' desired. planner_prepare planner p c s f w = (w', Ok desired) \<longrightarrow> plan_ok desired) \<and>
     (\<forall>e. valid_utf8 (planner_preflight_text planner e)) \<and> (\<forall>e. valid_utf8 (environment_text environment e)) \<and>
     (\<forall>desired p d w w' ready. environment_reconcile environment desired p d w = (w', Ok ready) \<longrightarrow>
        active_ok (ready_active ready))"

lemma validate_readiness_typed:
  "validate_readiness previous desired drift ready = Ok ready' \<Longrightarrow> active_ok (ready_active ready) \<Longrightarrow> plan_ok desired \<Longrightarrow>
     active_ok (ready_active ready')"
  by (auto simp: validate_readiness_def active_ok_operations plan_ok_def split: if_splits)

lemma validate_readiness_Ok:
  assumes "validate_readiness previous desired drift ready = Ok ready'"
  shows "case previous of
        None \<Rightarrow> drift = no_drift \<longrightarrow> active_fingerprints (ready_active ready') = plan_prints desired
      | Some a \<Rightarrow> active_generation_id (ready_active ready') = active_generation_id a \<and>
          fp_build (active_fingerprints (ready_active ready')) = fp_build (active_fingerprints a) \<and>
          fp_create (active_fingerprints (ready_active ready')) = fp_create (active_fingerprints a) \<and>
          (drift_runtime drift \<longrightarrow> fp_runtime (active_fingerprints (ready_active ready')) = fp_runtime (plan_prints desired))"
  using assms
  by (auto simp: validate_readiness_def no_drift_def commit_runtime_fingerprint_def
      is_some_and_def split: if_splits option.splits)

lemma commit_up_successor:
  assumes "validate_readiness (ws_active s0) desired (drift_of s0 desired) ready = Ok ready'"
  shows "up_successor s0 (commit_active (ready_active ready') t (intent request s0 desired))"
  using validate_readiness_Ok [OF assms]
  by (auto simp: up_successor_def commit_active_def intent_def set_last_error_def set_operation_def update_desired_def
      drift_of_def CategoryDrift_between_def split: option.splits)

lemma intent_same [simp]:
  "same_workspace s0 (intent request s desired) = same_workspace s0 s"
  "same_workspace s0 (failed_state s message) = same_workspace s0 s"
  by (simp_all add: intent_def failed_state_def)

lemma intent_facts:
  "ws_active (intent request s desired) = ws_active s"
  "state_ok lib s \<Longrightarrow> plan_ok desired \<Longrightarrow> operation_ok (req_operation request) \<Longrightarrow> state_ok lib (intent request s desired)"
  by (simp_all add: intent_def plan_ok_def state_ok_operations)
    (simp add: set_last_error_def set_operation_def update_desired_def)

lemma failed_state_facts:
  "ws_active (failed_state s message) = ws_active s"
  "ws_operation (failed_state s message) = OperationState_idle"
  "ws_last_error (failed_state s message) = Some (redact message [])"
  "state_ok lib s \<Longrightarrow> valid_utf8 message \<Longrightarrow> state_ok lib (failed_state s message)"
  by (simp_all add: failed_state_def state_ok_operations idle_ok redact_ok)
    (simp_all add: set_last_error_def set_operation_def)

section \<open>The commit point\<close>

abbreviation retained_or_committed :: "'u url_library \<Rightarrow> workspace_state \<Rightarrow> workspace_state \<Rightarrow> bool" where
  "retained_or_committed lib s0 s \<equiv> continues lib s0 s \<and> (ws_active s = ws_active s0 \<or> up_successor s0 s)"

text \<open>The order of the calls and saves of a run, and what its answer says of the stored state.\<close>

definition up_order :: "label list \<Rightarrow> bool" where
  "up_order labels \<longleftrightarrow>
     (\<exists>i c. prefix labels [Called Prepare, Save i, Called Preflight, Called ReconcileEnvironment, Save c] \<or>
        labels = [Called Prepare, Save i, Called Preflight, Save c])"

definition recorded_failure :: "workspace_state \<Rightarrow> string \<Rightarrow> workspace_state \<Rightarrow> bool" where
  "recorded_failure s0 message s \<longleftrightarrow> ws_active s = ws_active s0 \<and> ws_operation s = OperationState_idle \<and>
     ws_last_error s = Some (redact message [])"

definition up_answer ::
    "('p, 'pe, 'fe, 'w) reconciliation_planner \<Rightarrow> ('p, 'ee, 'w) environment_reconciler \<Rightarrow> workspace_state \<Rightarrow>
     (reconciliation_outcome, ('pe, 'fe, 'ee) reconciliation_error) result \<Rightarrow> workspace_state \<Rightarrow> bool" where
  "up_answer planner environment s0 r s =
     (case r of
        Ok outcome \<Rightarrow> up_successor s0 s \<and> map_option active_generation_id (ws_active s) = Some (outcome_generation outcome)
      | Err e \<Rightarrow>
          (case e of
             ReconcileState _ \<Rightarrow> ws_active s = ws_active s0 \<or> up_successor s0 s
           | PreflightFailed source \<Rightarrow> recorded_failure s0 (planner_preflight_text planner source) s
           | EnvironmentFailed source \<Rightarrow> recorded_failure s0 (environment_text environment source) s
           | ImplicitReplacement \<Rightarrow> recorded_failure s0 (boundary_message BoundaryReplacement) s
           | InvalidReadiness \<Rightarrow> recorded_failure s0 (boundary_message BoundaryCategories) s
           | FailureRecord _ _ \<Rightarrow> ws_active s = ws_active s0
           | _ \<Rightarrow> s = s0))"

definition up_run ::
    "'u url_library \<Rightarrow> (file_system \<Rightarrow> workspace_state option) \<Rightarrow> ('p, 'pe, 'fe, 'w) reconciliation_planner \<Rightarrow>
     ('p, 'ee, 'w) environment_reconciler \<Rightarrow> workspace_state \<Rightarrow> 'w host \<Rightarrow> 'w host \<Rightarrow>
     (reconciliation_outcome, ('pe, 'fe, 'ee) reconciliation_error) result \<Rightarrow> bool" where
  "up_run lib kept planner environment s0 h0 h r \<longleftrightarrow>
     (\<exists>labels s. ran kept (retained_or_committed lib s0) h0 labels h \<and> up_order labels \<and>
        kept (host_files h) = Some s \<and> up_answer planner environment s0 r s)"

lemma up_runI:
  "ran kept (retained_or_committed lib s0) h0 labels h \<Longrightarrow> up_order labels \<Longrightarrow> kept (host_files h) = Some s \<Longrightarrow>
     up_answer planner environment s0 r s \<Longrightarrow> up_run lib kept planner environment s0 h0 h r"
  by (auto simp: up_run_def)

lemma up_orders:
  "up_order []" "up_order [Called Prepare]" "up_order [Called Prepare, Save i]"
  "up_order [Called Prepare, Save i, Called Preflight]" "up_order [Called Prepare, Save i, Called Preflight, Save c]"
  "up_order [Called Prepare, Save i, Called Preflight, Called ReconcileEnvironment, Save c]"
  by (auto simp: up_order_def)

text \<open>Recording a failure keeps the active record.\<close>

lemma record_failure_run:
  assumes "codec_ok lib codec" "os_user os = user" "state_ok lib s" "valid_utf8 message" "ws_active s = ws_active s0"
    and "ran (stored codec user path) (retained_or_committed lib s0) h0 labels h"
    and "stored codec user path (host_files h) = Some s"
    and "up_order (labels @ [Save (failed_state s message)])"
    and "\<And>s'. recorded_failure s0 message s' \<Longrightarrow> up_answer planner environment s0 (Err e) s'"
    and "\<And>e' s'. ws_active s' = ws_active s0 \<Longrightarrow> up_answer planner environment s0 (Err (f e')) s'"
  shows "wp (attempt (record_failure codec os path s message) (\<lambda>e'. fail (f e')) (\<lambda>_. fail e))
     (up_run lib (stored codec user path) planner environment s0 h0) h"
proof (rule wp_attempt, unfold record_failure_def,
    rule wp_save [OF assms(1) failed_state_facts(4) [OF assms(3,4)] assms(2,6) _ assms(7)])
  fix h'
  assume h': "ran (stored codec user path) (retained_or_committed lib s0) h0 (labels @ [Save (failed_state s message)]) h'"
    "stored codec user path (host_files h') = Some (failed_state s message)"
  then show "(\<forall>a. Ok () = Ok a \<longrightarrow> wp (fail e) (up_run lib (stored codec user path) planner environment s0 h0) h') \<and>
      (\<forall>e'. Ok () = Err e' \<longrightarrow> wp (fail (f e')) (up_run lib (stored codec user path) planner environment s0 h0) h')"
    by (auto intro!: wp_fail up_runI [OF _ assms(8)] assms(9) simp: recorded_failure_def failed_state_facts assms(5))
next
  fix h' e''
  assume h': "ran (stored codec user path) (retained_or_committed lib s0) h0 (labels @ [Save (failed_state s message)]) h'"
    "stored codec user path (host_files h') = Some s \<or> stored codec user path (host_files h') = Some (failed_state s message)"
  from h'(2) obtain s' where s': "stored codec user path (host_files h') = Some s'" "ws_active s' = ws_active s0"
    using failed_state_facts(1) assms(5) by auto
  have "up_run lib (stored codec user path) planner environment s0 h0 h' (Err (f e'))" for e'
    by (rule up_runI [OF h'(1) assms(8) s'(1) assms(10) [OF s'(2)]])
  then show "(\<forall>a. Err e'' = Ok a \<longrightarrow> wp (fail e) (up_run lib (stored codec user path) planner environment s0 h0) h') \<and>
      (\<forall>e'. Err e'' = Err e' \<longrightarrow> wp (fail (f e')) (up_run lib (stored codec user path) planner environment s0 h0) h')"
    by (auto intro: wp_fail)
qed (use assms(3,4,6,7) in \<open>auto simp: failed_state_facts assms(5) ran_def\<close>)

lemma boundary_message_utf8: "valid_utf8 (boundary_message b)"
  by (cases b) (simp_all add: ascii_valid_utf8)

lemma finish_reconciliation_run:
  assumes "codec_ok lib codec" "\<And>i. os_user (oss i) = user" "state_ok lib s0" "plan_ok desired"
    and "operation_ok (req_operation request)" "timestamp_ok (req_completed_at request)"
    and "active_ok (ready_active answer)"
    and "ran (stored codec user path) (retained_or_committed lib s0) h0
      [Called Prepare, Save (intent request s0 desired), Called Preflight, Called ReconcileEnvironment] h"
    and "stored codec user path (host_files h) = Some (intent request s0 desired)"
  shows "wp (finish_reconciliation codec oss path request s0 (intent request s0 desired) desired answer)
     (up_run lib (stored codec user path) planner environment s0 h0) h"
proof (cases "validate_readiness (ws_active s0) desired (drift_of s0 desired) answer")
  case (Err boundary)
  have intent_ok: "state_ok lib (intent request s0 desired)" using intent_facts(2) assms(3-5) by blast
  show ?thesis
    unfolding finish_reconciliation_def Let_def Err result.case
    by (rule record_failure_run [OF assms(1) assms(2) intent_ok boundary_message_utf8 intent_facts(1) assms(8,9)])
      (auto simp: up_answer_def recorded_failure_def intro: up_orders split: readiness_boundary_error.splits)
next
  case (Ok ready)
  define final where "final = commit_active (ready_active ready) (req_completed_at request) (intent request s0 desired)"
  have "state_ok lib (intent request s0 desired)" using intent_facts(2) assms(3-5) by blast
  then have final_ok: "state_ok lib final"
    unfolding final_def using validate_readiness_typed [OF Ok assms(7,4)] assms(6) by (rule state_ok_operations(5))
  have successor: "up_successor s0 final" unfolding final_def by (rule commit_up_successor [OF Ok])
  have active: "ws_active final = Some (ready_active ready)" by (simp add: final_def commit_active_def)
  show ?thesis
    unfolding finish_reconciliation_def Let_def Ok result.case final_def [symmetric]
  proof (rule wp_attempt, rule wp_save [OF assms(1) final_ok assms(2,8) _ assms(9)])
    show "retained_or_committed lib s0 final" using successor final_ok by (simp add: final_def)
  qed (use successor active intent_facts(1) [of request s0 desired] in
      \<open>auto intro!: wp_fail wp_succeed intro!: up_runI up_orders(6) simp: up_answer_def\<close>)
qed

text \<open>The transaction from the persisted intent on, and from the loaded state on.\<close>

lemma reconcile_environment_run:
  assumes "codec_ok lib codec" "\<And>i. os_user (oss i) = user" "state_ok lib s0" "plan_ok desired"
    and typed: "reconciliation_typed request planner environment"
    and run: "ran (stored codec user path) (retained_or_committed lib s0) h0
      [Called Prepare, Save (intent request s0 desired), Called Preflight] h"
    and now: "stored codec user path (host_files h) = Some (intent request s0 desired)"
  shows "wp (attempt (perform ReconcileEnvironment (environment_reconcile environment desired (ws_active s0) (drift_of s0 desired)))
        (\<lambda>source. attempt (record_failure codec (oss 2) path (intent request s0 desired) (environment_text environment source))
             (\<lambda>e. fail (FailureRecord (environment_text environment source) e)) (\<lambda>_. fail (EnvironmentFailed source)))
        (finish_reconciliation codec oss path request s0 (intent request s0 desired) desired))
     (up_run lib (stored codec user path) planner environment s0 h0) h"
proof (rule wp_attempt, rule wp_perform, intro conjI allI impI)
  fix w r
  let ?h = "h\<lparr>host_world := w, host_log := host_log h @ [Did ReconcileEnvironment]\<rparr>"
  assume call: "environment_reconcile environment desired (ws_active s0) (drift_of s0 desired) (host_world h) = (w, r)"
  have op: "operation_ok (req_operation request)" "timestamp_ok (req_completed_at request)"
    using typed by (simp_all add: reconciliation_typed_def)
  have run': "ran (stored codec user path) (retained_or_committed lib s0) h0
      [Called Prepare, Save (intent request s0 desired), Called Preflight, Called ReconcileEnvironment] ?h"
    using ran_perform [OF run, of ReconcileEnvironment w] by simp
  have now': "stored codec user path (host_files ?h) = Some (intent request s0 desired)" using now by simp
  show "wp (finish_reconciliation codec oss path request s0 (intent request s0 desired) desired answer)
      (up_run lib (stored codec user path) planner environment s0 h0) ?h" if "r = Ok answer" for answer
    by (rule finish_reconciliation_run [OF assms(1-4) op _ run' now'])
      (use typed call that in \<open>simp add: reconciliation_typed_def\<close>)
  show "wp (attempt (record_failure codec (oss 2) path (intent request s0 desired) (environment_text environment source))
         (\<lambda>e. fail (FailureRecord (environment_text environment source) e)) (\<lambda>_. fail (EnvironmentFailed source)))
      (up_run lib (stored codec user path) planner environment s0 h0) ?h" if "r = Err source" for source
    by (rule record_failure_run [OF assms(1) assms(2) intent_facts(2) [OF assms(3,4) op(1)] _ intent_facts(1) run' now'])
      (use typed in \<open>auto simp: up_answer_def reconciliation_typed_def intro: up_orders\<close>)
qed

lemma reconcile_intent_run:
  assumes "codec_ok lib codec" "\<And>i. os_user (oss i) = user" "state_ok lib s0" "plan_ok desired"
    and typed: "reconciliation_typed request planner environment"
    and run: "ran (stored codec user path) (retained_or_committed lib s0) h0 [Called Prepare, Save (intent request s0 desired)] h"
    and now: "stored codec user path (host_files h) = Some (intent request s0 desired)"
  shows "wp (attempt (perform Preflight (planner_preflight planner desired policy))
        (\<lambda>source. attempt (record_failure codec (oss 2) path (intent request s0 desired) (planner_preflight_text planner source))
             (\<lambda>e. fail (FailureRecord (planner_preflight_text planner source) e)) (\<lambda>_. fail (PreflightFailed source)))
        (\<lambda>_. attempt (perform ReconcileEnvironment (environment_reconcile environment desired (ws_active s0) (drift_of s0 desired)))
          (\<lambda>source. attempt (record_failure codec (oss 2) path (intent request s0 desired) (environment_text environment source))
             (\<lambda>e. fail (FailureRecord (environment_text environment source) e)) (\<lambda>_. fail (EnvironmentFailed source)))
          (finish_reconciliation codec oss path request s0 (intent request s0 desired) desired)))
     (up_run lib (stored codec user path) planner environment s0 h0) h"
proof (rule wp_attempt, rule wp_perform, intro conjI allI impI)
  fix w r
  let ?h = "h\<lparr>host_world := w, host_log := host_log h @ [Did Preflight]\<rparr>"
  have op: "operation_ok (req_operation request)" using typed by (simp add: reconciliation_typed_def)
  have run': "ran (stored codec user path) (retained_or_committed lib s0) h0
      [Called Prepare, Save (intent request s0 desired), Called Preflight] ?h"
    using ran_perform [OF run, of Preflight w] by simp
  have now': "stored codec user path (host_files ?h) = Some (intent request s0 desired)" using now by simp
  show "wp (attempt (perform ReconcileEnvironment (environment_reconcile environment desired (ws_active s0) (drift_of s0 desired)))
          (\<lambda>source. attempt (record_failure codec (oss 2) path (intent request s0 desired) (environment_text environment source))
             (\<lambda>e. fail (FailureRecord (environment_text environment source) e)) (\<lambda>_. fail (EnvironmentFailed source)))
          (finish_reconciliation codec oss path request s0 (intent request s0 desired) desired))
     (up_run lib (stored codec user path) planner environment s0 h0) ?h"
    by (rule reconcile_environment_run [OF assms(1-4) typed run' now'])
  show "wp (attempt (record_failure codec (oss 2) path (intent request s0 desired) (planner_preflight_text planner source))
         (\<lambda>e. fail (FailureRecord (planner_preflight_text planner source) e)) (\<lambda>_. fail (PreflightFailed source)))
      (up_run lib (stored codec user path) planner environment s0 h0) ?h" for source
    by (rule record_failure_run [OF assms(1) assms(2) intent_facts(2) [OF assms(3,4) op] _ intent_facts(1) run' now'])
      (use typed in \<open>auto simp: up_answer_def reconciliation_typed_def intro: up_orders\<close>)
qed

lemma reconcile_run:
  fixes h :: "'w host"
  assumes "codec_ok lib codec" "\<And>i. os_user (oss i) = user" "state_ok lib s0"
    and typed: "reconciliation_typed request planner environment"
    and start: "stored codec user (state_file root (req_workspace request)) (host_files h) = Some s0"
  shows "wp (reconcile_workspace codec oss lock root request planner environment)
     (up_run lib (stored codec user (state_file root (req_workspace request))) planner environment s0 h) h"
proof -
  define path where "path = state_file root (req_workspace request)"
  note start = start [folded path_def]
  let ?R = "up_run lib (stored codec user path) planner environment s0 h"
  have begun: "ran (stored codec user path) (retained_or_committed lib s0) h [] h" by (rule ran_start [of "stored codec user path" h s0, OF start]) (simp add: assms(3))
  have early: "?R h (Err (ReconcileLock e))" "?R h (Err (ReconcileState e'))" for e e'
    by (rule up_runI [OF begun up_orders(1) start], simp add: up_answer_def)+
  have prepared: "wp (attempt (perform Prepare f) (\<lambda>e. fail (DesiredInvalid e)) (\<lambda>desired.
      if is_some_and (ws_active s0) (\<lambda>a. indeterminate (active_lifecycle a)) then fail IndeterminateLifecycle
      else attempt (save_state codec (oss 1) path (intent request s0 desired)) (\<lambda>e. fail (ReconcileState e)) (\<lambda>_. k desired))) ?R h"
    if k: "\<And>desired h'. plan_ok desired \<Longrightarrow>
        ran (stored codec user path) (retained_or_committed lib s0) h [Called Prepare, Save (intent request s0 desired)] h' \<Longrightarrow>
        stored codec user path (host_files h') = Some (intent request s0 desired) \<Longrightarrow> wp (k desired) ?R h'"
      and f: "\<And>w w' desired. f w = (w', Ok desired) \<Longrightarrow> plan_ok desired" for f k
  proof (rule wp_attempt, rule wp_perform, intro conjI allI impI)
    fix w r
    let ?h = "h\<lparr>host_world := w, host_log := host_log h @ [Did Prepare]\<rparr>"
    assume call: "f (host_world h) = (w, r)"
    have run: "ran (stored codec user path) (retained_or_committed lib s0) h [Called Prepare] ?h"
      using ran_perform [OF begun, of Prepare w] by simp
    have now: "stored codec user path (host_files ?h) = Some s0" using start by simp
    show "wp (fail (DesiredInvalid e)) ?R ?h" for e
      by (rule wp_fail, rule up_runI [OF run up_orders(2) now]) (simp add: up_answer_def)
    fix desired
    assume "r = Ok desired"
    with call f have ok: "plan_ok desired" by blast
    have intent_ok: "state_ok lib (intent request s0 desired)"
      using intent_facts(2) [OF assms(3) ok] typed by (simp add: reconciliation_typed_def)
    show "wp (if is_some_and (ws_active s0) (\<lambda>a. indeterminate (active_lifecycle a)) then fail IndeterminateLifecycle
        else attempt (save_state codec (oss 1) path (intent request s0 desired)) (\<lambda>e. fail (ReconcileState e)) (\<lambda>_. k desired)) ?R ?h"
    proof (cases "is_some_and (ws_active s0) (\<lambda>a. indeterminate (active_lifecycle a))")
      case True
      have "wp (fail IndeterminateLifecycle) ?R ?h"
        by (rule wp_fail, rule up_runI [OF run up_orders(2) now]) (simp add: up_answer_def)
      with True show ?thesis by simp
    next
      case False
      have "wp (attempt (save_state codec (oss 1) path (intent request s0 desired)) (\<lambda>e. fail (ReconcileState e)) (\<lambda>_. k desired)) ?R ?h"
        by (rule wp_attempt, rule wp_save [OF assms(1) intent_ok assms(2) run _ now])
          (auto intro!: wp_fail k [OF ok] up_runI up_orders(3) simp: up_answer_def intent_facts(1) intent_ok)
      with False show ?thesis by simp
    qed
  qed
  show ?thesis
    unfolding reconcile_workspace_def Let_def path_def [symmetric]
    by (rule wp_attempt, rule wp_acquire, intro conjI allI impI, rule wp_attempt, rule wp_load,
        rule start [folded assms(2) [of 0]], intro conjI allI impI, clarify, rule prepared,
        rule reconcile_intent_run [OF assms(1-3) _ typed])
      (use typed in \<open>auto intro: wp_fail early simp: reconciliation_typed_def\<close>)
qed

text \<open>C1: the reconciliation of a workspace replaces the active record only at its commit point. At every moment of the
  run, so also after a crash, the stored state has the active record it started with, or the
  committed one: the first generation with the desired fingerprints, or the same generation with its
  build and create fingerprints kept and the drifted runtime fingerprint installed. The intent is stored before the
  preflight and the environment is only touched after it; success means that the commit is stored, a
  preflight, environment or boundary failure that the old record is, with the idle operation and the redacted
  message. The codec reads back what it wrote, and adapters return values of their types.\<close>

theorem reconciliation_commit_point:
  assumes "codec_ok lib codec" and "\<forall>i. os_user (oss i) = user" and "state_ok lib s0"
    and "reconciliation_typed request planner environment"
    and "stored codec user (state_file root (req_workspace request)) (host_files h) = Some s0"
    and "reconcile_workspace codec oss lock root request planner environment h = (h', r)"
  shows "up_run lib (stored codec user (state_file root (req_workspace request))) planner environment s0 h h' r"
  using assms(2) by (intro wp_run [OF reconcile_run [OF assms(1) _ assms(3-5)] assms(6)]) simp

text \<open>Witness of \<open>reconciliation_commit_point\<close>: the first \<open>up\<close> of the sample workspace.\<close>

definition sample_request :: reconciliation_request where
  "sample_request = \<lparr>req_workspace = WorkspaceName ''demo'', req_config = None,
     req_operation = \<lparr>op_kind = StartingOp, op_id = Some ''op'', op_started_at = Some (StateTimestamp ''2024-01-01T00:00:00Z'')\<rparr>,
     req_completed_at = StateTimestamp ''2024-01-01T00:00:00Z''\<rparr>"

definition sample_plan :: "unit prepared_plan" where
  "sample_plan = \<lparr>plan_profile = ProfileId ''cdenv-devcontainer-v1'',
     plan_config = DesiredConfigPath ''.devcontainer/devcontainer.json'', plan_prints = sample_fingerprints, plan_effective = ()\<rparr>"

definition sample_planner :: "(unit, unit, unit, unit) reconciliation_planner" where
  "sample_planner = \<lparr>planner_prepare = (\<lambda>_ _ _ _ w. (w, Ok sample_plan)), planner_preflight = (\<lambda>_ _ w. (w, Ok ())),
     planner_preflight_text = (\<lambda>_. [])\<rparr>"

definition sample_environment :: "(unit, unit, unit) environment_reconciler" where
  "sample_environment = \<lparr>environment_reconcile = (\<lambda>_ _ _ w. (w, Ok \<lparr>ready_active = sample_active,
     ready_transition = EnvironmentCreated, ready_runtime = RuntimeUpToDate\<rparr>)), environment_text = (\<lambda>_. [])\<rparr>"

definition sample_codec :: state_codec where
  "sample_codec = table_codec [sample_state, intent sample_request sample_state sample_plan,
     commit_active sample_active (req_completed_at sample_request) (intent sample_request sample_state sample_plan)]"

definition sample_up :: "unit host \<times> (reconciliation_outcome, (unit, unit, unit) reconciliation_error) result" where
  "sample_up = reconcile_workspace sample_codec (\<lambda>_. calm_os) None [] sample_request sample_planner sample_environment
     (sample_host (WorkspaceName ''demo''))"

lemma sample_request_ok: "operation_ok (req_operation sample_request) \<and> timestamp_ok (req_completed_at sample_request)"
  by code_simp

lemma sample_plan_ok: "plan_ok sample_plan"
  by code_simp

theorem reconciliation_commit_point_witness:
  "is_ok (snd sample_up) \<and>
   up_run no_urls (stored sample_codec 1000 (state_file [] (WorkspaceName ''demo''))) sample_planner sample_environment sample_state
     (sample_host (WorkspaceName ''demo'')) (fst sample_up) (snd sample_up)"
proof
  show "is_ok (snd sample_up)" by code_simp
  have codec: "codec_ok no_urls sample_codec" by (simp add: sample_codec_def table_codec_ok)
  have user: "\<forall>i :: nat. os_user calm_os = 1000" by (simp add: calm_os_def)
  have typed: "reconciliation_typed sample_request sample_planner sample_environment"
    by (auto simp: reconciliation_typed_def sample_request_ok sample_planner_def sample_environment_def sample_plan_ok sample_active_ok)
  have held: "stored sample_codec 1000 (state_file [] (req_workspace sample_request))
      (host_files (sample_host (WorkspaceName ''demo''))) = Some sample_state"
    by (simp add: sample_codec_def sample_request_def sample_stored)
  have run: "reconcile_workspace sample_codec (\<lambda>_. calm_os) None [] sample_request sample_planner sample_environment
      (sample_host (WorkspaceName ''demo'')) = (fst sample_up, snd sample_up)"
    by (simp add: sample_up_def)
  show "up_run no_urls (stored sample_codec 1000 (state_file [] (WorkspaceName ''demo''))) sample_planner sample_environment sample_state
     (sample_host (WorkspaceName ''demo'')) (fst sample_up) (snd sample_up)"
    using reconciliation_commit_point [of no_urls sample_codec "\<lambda>_. calm_os", OF codec user sample_state_ok typed held run]
    by (simp add: sample_request_def)
qed

end
