(* ===== verification/Rebuild.thy ===== *)
theory Rebuild
  imports Reconciliation "HOL-Library.Multiset"
begin

text \<open>
  The build-first replacement transaction (\<open>rebuild.rs\<close>): the desired plan and its frozen inputs are
  checked, intent is persisted, the replacement is built, the old environment is quiesced and backed
  up, the candidate is made ready and takes over forwarding, and then the active record is replaced.
  A failure after the build rolls back. Planner, checkout probe and environment are parameters.
\<close>

section \<open>Requests and answers\<close>

definition GENERATED_IMAGE_HISTORY :: nat where
  "GENERATED_IMAGE_HISTORY = 2"

record ('p, 'pe, 'fe, 'w) rebuild_planner =
  rebuild_prepare :: "path \<Rightarrow> path option \<Rightarrow> workspace_state \<Rightarrow> 'w \<Rightarrow> 'w \<times> ('p prepared_plan, 'pe) result"
  rebuild_validate_frozen :: "'p prepared_plan \<Rightarrow> 'w \<Rightarrow> 'w \<times> (unit, 'fe) result"

type_synonym ('se, 'w) checkout_status = "path \<Rightarrow> 'w \<Rightarrow> 'w \<times> (bool, 'se) result"

datatype rebuild_phase = Built | Quiescing | BackupRenamed | CandidateReady | ForwardingHandedOff

record 'b rollback_request =
  rollback_build :: 'b
  rollback_generation :: generation_id
  rollback_previous :: "active_generation option"
  rollback_candidate :: "active_generation option"
  rollback_backup_name :: string
  rollback_phase :: rebuild_phase

record 'b cleanup_request =
  cleanup_previous :: "active_generation option"
  cleanup_replacement :: active_generation
  cleanup_build :: 'b
  cleanup_backup_name :: string

record ('p, 'b, 'e, 'w) rebuild_environment =
  env_build :: "'p prepared_plan \<Rightarrow> generation_id \<Rightarrow> bool \<Rightarrow> 'w \<Rightarrow> 'w \<times> ('b, 'e) result"
  env_quiesce :: "active_generation option \<Rightarrow> 'w \<Rightarrow> 'w \<times> (unit, 'e) result"
  env_backup :: "active_generation \<Rightarrow> string \<Rightarrow> 'w \<Rightarrow> 'w \<times> (unit, 'e) result"
  env_create_ready :: "'p prepared_plan \<Rightarrow> 'b \<Rightarrow> generation_id \<Rightarrow> 'w \<Rightarrow> 'w \<times> (active_generation, 'e) result"
  env_handoff :: "active_generation option \<Rightarrow> active_generation \<Rightarrow> 'w \<Rightarrow> 'w \<times> (unit, 'e) result"
  env_rollback :: "'b rollback_request \<Rightarrow> 'w \<Rightarrow> 'w \<times> (unit, 'e) result"
  env_cleanup :: "'b cleanup_request \<Rightarrow> 'w \<Rightarrow> 'w \<times> (unit, 'e) result"
  env_text :: "'e \<Rightarrow> string"

record rebuild_request =
  rb_workspace :: workspace_name
  rb_config :: "path option"
  rb_operation :: operation_state
  rb_backup_name :: string
  rb_no_cache :: bool
  rb_completed_at :: state_timestamp

record 'e rebuild_outcome =
  rebuilt_generation :: generation_id
  rebuilt_container :: container_id
  rebuilt_checkout_has_changes :: bool
  rebuilt_cleanup_warning :: "'e option"

datatype rebuild_invariant_error = GenerationOverflow | WrongGeneration | ReusedContainer

primrec invariant_message :: "rebuild_invariant_error \<Rightarrow> string" where
  "invariant_message GenerationOverflow = ''active generation cannot be incremented''"
| "invariant_message WrongGeneration = ''replacement returned an unexpected generation''"
| "invariant_message ReusedContainer = ''replacement primary container ID did not change''"

datatype 'e replacement_failure =
    AdapterFailure 'e | InvariantFailure rebuild_invariant_error | StateFailure workspace_state_error

datatype ('pe, 'fe, 'se, 'e) rebuild_error =
    RebuildInvalid
  | RebuildLock lock_error
  | RebuildState workspace_state_error
  | RebuildDesired 'pe
  | RebuildPreflight 'fe
  | RebuildCheckoutStatus 'se
  | RebuildGeneration rebuild_invariant_error
  | Replacement rebuild_phase "'e replacement_failure" "'e option"
  | RebuildFailureRecord rebuild_phase "'e replacement_failure" "'e option" workspace_state_error

text \<open>The text of a failure; how a state error prints is a parameter.\<close>

primrec failure_text ::
    "(workspace_state_error \<Rightarrow> string) \<Rightarrow> ('e \<Rightarrow> string) \<Rightarrow> 'e replacement_failure \<Rightarrow> string" where
  "failure_text state_text adapter_text (AdapterFailure e) = adapter_text e"
| "failure_text state_text adapter_text (InvariantFailure i) = invariant_message i"
| "failure_text state_text adapter_text (StateFailure e) = state_text e"

section \<open>The transaction\<close>

definition saturating_succ :: "64 word \<Rightarrow> 64 word" where
  "saturating_succ g = (if g = - 1 then g else g + 1)"

definition next_generation :: "active_generation option \<Rightarrow> (generation_id, rebuild_invariant_error) result" where
  "next_generation previous =
     (let value = (case previous of None \<Rightarrow> 1 | Some a \<Rightarrow> saturating_succ (generation_get (active_generation_id a))) in
      if value = 0 \<or> is_some_and previous (\<lambda>a. value = generation_get (active_generation_id a))
      then Err GenerationOverflow
      else map_err (\<lambda>_. GenerationOverflow) (GenerationId_new value))"

definition valid_backup_name :: "string \<Rightarrow> bool" where
  "valid_backup_name v \<longleftrightarrow> prefix ''cdenv-backup-'' v \<and> \<not> prefix ''-'' v \<and> \<not> list_ex is_control (chars v) \<and> length v \<le> 255"

definition fail_without_rollback ::
    "state_codec \<Rightarrow> os_answers \<Rightarrow> path \<Rightarrow> workspace_state \<Rightarrow> rebuild_phase \<Rightarrow> 'e replacement_failure \<Rightarrow> string \<Rightarrow>
     ('w, 'a, ('pe, 'fe, 'se, 'e) rebuild_error) step" where
  "fail_without_rollback codec os path state phase primary message =
     attempt (save_state codec os path (failed_state state message))
       (\<lambda>e. fail (RebuildFailureRecord phase primary None e)) (\<lambda>_. fail (Replacement phase primary None))"

definition rolled_back :: "workspace_state \<Rightarrow> 'e option \<Rightarrow> string \<Rightarrow> workspace_state" where
  "rolled_back state rollback message =
     set_last_error (Some (redact (if rollback = None then message else ''rebuild failed and rollback was incomplete'') []))
       (set_operation (if rollback = None then OperationState_idle else ws_operation state) state)"

definition fail_with_rollback ::
    "state_codec \<Rightarrow> os_answers \<Rightarrow> path \<Rightarrow> workspace_state \<Rightarrow> ('p, 'b, 'e, 'w) rebuild_environment \<Rightarrow> 'b \<Rightarrow>
     active_generation option \<Rightarrow> active_generation option \<Rightarrow> string \<Rightarrow> rebuild_phase \<Rightarrow> 'e replacement_failure \<Rightarrow> string \<Rightarrow>
     ('w, 'a, ('pe, 'fe, 'se, 'e) rebuild_error) step" where
  "fail_with_rollback codec os path state environment build previous candidate backup_name phase primary message =
     (case next_generation previous of
        Err e \<Rightarrow> fail (RebuildGeneration e)
      | Ok generation \<Rightarrow>
          (let recorded = (\<lambda>rollback.
             attempt (save_state codec os path (rolled_back state rollback message))
               (\<lambda>e. fail (RebuildFailureRecord phase primary rollback e))
               (\<lambda>_. fail (Replacement phase primary rollback)))
           in attempt (perform Rollback (env_rollback environment
                \<lparr>rollback_build = build, rollback_generation = generation, rollback_previous = previous,
                 rollback_candidate = candidate, rollback_backup_name = backup_name, rollback_phase = phase\<rparr>))
              (\<lambda>e. recorded (Some e)) (\<lambda>_. recorded None)))"

definition candidate_invariant ::
    "active_generation option \<Rightarrow> generation_id \<Rightarrow> active_generation \<Rightarrow> rebuild_invariant_error option" where
  "candidate_invariant previous generation candidate =
     (if active_generation_id candidate \<noteq> generation then Some WrongGeneration
      else if is_some_and previous (\<lambda>old. active_container_id old = active_container_id candidate) then Some ReusedContainer
      else None)"

definition rebuild_intent :: "rebuild_request \<Rightarrow> workspace_state \<Rightarrow> 'p prepared_plan \<Rightarrow> workspace_state" where
  "rebuild_intent request s desired = set_last_error None (set_operation (rb_operation request)
     (update_desired (plan_profile desired) (plan_config desired) (plan_prints desired) s))"

definition clean_replacement ::
    "rebuild_request \<Rightarrow> ('p, 'b, 'e, 'w) rebuild_environment \<Rightarrow> active_generation option \<Rightarrow> bool \<Rightarrow> 'b \<Rightarrow>
     active_generation \<Rightarrow> generation_id \<Rightarrow> ('w, 'e rebuild_outcome, ('pe, 'fe, 'se, 'e) rebuild_error) step" where
  "clean_replacement request environment previous changes build candidate generation =
     (let outcome = (\<lambda>warning. \<lparr>rebuilt_generation = generation, rebuilt_container = active_container_id candidate,
          rebuilt_checkout_has_changes = changes, rebuilt_cleanup_warning = warning\<rparr>) in
      attempt (perform Cleanup (env_cleanup environment
           \<lparr>cleanup_previous = previous, cleanup_replacement = candidate, cleanup_build = build,
            cleanup_backup_name = rb_backup_name request\<rparr>))
        (\<lambda>warning. succeed (outcome (Some warning))) (\<lambda>_. succeed (outcome None)))"

text \<open>The part of the transaction after the candidate is ready: handoff, commit, cleanup.\<close>

definition commit_replacement ::
    "state_codec \<Rightarrow> (nat \<Rightarrow> os_answers) \<Rightarrow> path \<Rightarrow> (workspace_state_error \<Rightarrow> string) \<Rightarrow> rebuild_request \<Rightarrow>
     ('p, 'b, 'e, 'w) rebuild_environment \<Rightarrow> workspace_state \<Rightarrow> active_generation option \<Rightarrow> bool \<Rightarrow> 'b \<Rightarrow>
     active_generation \<Rightarrow> generation_id \<Rightarrow> ('w, 'e rebuild_outcome, ('pe, 'fe, 'se, 'e) rebuild_error) step" where
  "commit_replacement codec oss path state_text request environment state previous changes build candidate generation =
     (let rollback = (\<lambda>os phase primary. fail_with_rollback codec os path state environment build previous
        (Some candidate) (rb_backup_name request) phase primary (failure_text state_text (env_text environment) primary)) in
      case candidate_invariant previous generation candidate of
        Some i \<Rightarrow> rollback (oss 2) CandidateReady (InvariantFailure i)
      | None \<Rightarrow>
     attempt (perform Handoff (env_handoff environment previous candidate))
       (\<lambda>source. rollback (oss 2) CandidateReady (AdapterFailure source)) (\<lambda>_.
     attempt (save_state codec (oss 2) path (commit_active candidate (rb_completed_at request) state))
       (\<lambda>source. rollback (oss 3) ForwardingHandedOff (StateFailure source)) (\<lambda>_.
     clean_replacement request environment previous changes build candidate generation)))"

text \<open>A failed adapter call before the candidate is ready.\<close>

definition abandon ::
    "state_codec \<Rightarrow> (nat \<Rightarrow> os_answers) \<Rightarrow> path \<Rightarrow> (workspace_state_error \<Rightarrow> string) \<Rightarrow> rebuild_request \<Rightarrow>
     ('p, 'b, 'e, 'w) rebuild_environment \<Rightarrow> workspace_state \<Rightarrow> active_generation option \<Rightarrow> 'b \<Rightarrow> rebuild_phase \<Rightarrow> 'e \<Rightarrow>
     ('w, 'e rebuild_outcome, ('pe, 'fe, 'se, 'e) rebuild_error) step" where
  "abandon codec oss path state_text request environment state previous build phase source =
     fail_with_rollback codec (oss 2) path state environment build previous None (rb_backup_name request) phase
       (AdapterFailure source) (failure_text state_text (env_text environment) (AdapterFailure source))"

text \<open>The parts after the old environment is backed up, after it is quiesced, and after the intent is stored.\<close>

definition create_replacement ::
    "state_codec \<Rightarrow> (nat \<Rightarrow> os_answers) \<Rightarrow> path \<Rightarrow> (workspace_state_error \<Rightarrow> string) \<Rightarrow> rebuild_request \<Rightarrow>
     ('p, 'b, 'e, 'w) rebuild_environment \<Rightarrow> workspace_state \<Rightarrow> active_generation option \<Rightarrow> bool \<Rightarrow> 'p prepared_plan \<Rightarrow>
     generation_id \<Rightarrow> 'b \<Rightarrow> ('w, 'e rebuild_outcome, ('pe, 'fe, 'se, 'e) rebuild_error) step" where
  "create_replacement codec oss path state_text request environment state previous changes desired generation build =
     attempt (perform CreateReady (env_create_ready environment desired build generation))
       (abandon codec oss path state_text request environment state previous build BackupRenamed)
       (\<lambda>candidate. commit_replacement codec oss path state_text request environment state previous changes build candidate generation)"

definition backup_and_create ::
    "state_codec \<Rightarrow> (nat \<Rightarrow> os_answers) \<Rightarrow> path \<Rightarrow> (workspace_state_error \<Rightarrow> string) \<Rightarrow> rebuild_request \<Rightarrow>
     ('p, 'b, 'e, 'w) rebuild_environment \<Rightarrow> workspace_state \<Rightarrow> active_generation option \<Rightarrow> bool \<Rightarrow> 'p prepared_plan \<Rightarrow>
     generation_id \<Rightarrow> 'b \<Rightarrow> ('w, 'e rebuild_outcome, ('pe, 'fe, 'se, 'e) rebuild_error) step" where
  "backup_and_create codec oss path state_text request environment state previous changes desired generation build =
     (case previous of
        None \<Rightarrow> create_replacement codec oss path state_text request environment state previous changes desired generation build
      | Some old \<Rightarrow>
          attempt (perform Backup (env_backup environment old (rb_backup_name request)))
            (abandon codec oss path state_text request environment state previous build BackupRenamed)
            (\<lambda>_. create_replacement codec oss path state_text request environment state previous changes desired generation build))"

definition replace_environment ::
    "state_codec \<Rightarrow> (nat \<Rightarrow> os_answers) \<Rightarrow> path \<Rightarrow> (workspace_state_error \<Rightarrow> string) \<Rightarrow> rebuild_request \<Rightarrow>
     ('p, 'b, 'e, 'w) rebuild_environment \<Rightarrow> workspace_state \<Rightarrow> active_generation option \<Rightarrow> bool \<Rightarrow> 'p prepared_plan \<Rightarrow>
     generation_id \<Rightarrow> ('w, 'e rebuild_outcome, ('pe, 'fe, 'se, 'e) rebuild_error) step" where
  "replace_environment codec oss path state_text request environment state previous changes desired generation =
     attempt (perform Build (env_build environment desired generation (rb_no_cache request)))
       (\<lambda>source. fail_without_rollback codec (oss 2) path state Built (AdapterFailure source)
          (failure_text state_text (env_text environment) (AdapterFailure source))) (\<lambda>build.
     attempt (perform Quiesce (env_quiesce environment previous))
       (abandon codec oss path state_text request environment state previous build Quiescing)
       (\<lambda>_. backup_and_create codec oss path state_text request environment state previous changes desired generation build))"

definition rebuild_workspace ::
    "state_codec \<Rightarrow> (nat \<Rightarrow> os_answers) \<Rightarrow> lock_error option \<Rightarrow> path \<Rightarrow> (workspace_state_error \<Rightarrow> string) \<Rightarrow> rebuild_request \<Rightarrow>
     ('p, 'pe, 'fe, 'w) rebuild_planner \<Rightarrow> ('se, 'w) checkout_status \<Rightarrow> ('p, 'b, 'e, 'w) rebuild_environment \<Rightarrow>
     ('w, 'e rebuild_outcome, ('pe, 'fe, 'se, 'e) rebuild_error) step" where
  "rebuild_workspace codec oss lock root state_text request planner status environment =
     (if op_kind (rb_operation request) \<noteq> Rebuilding \<or> \<not> valid_backup_name (rb_backup_name request) then fail RebuildInvalid
      else
      (let path = state_file root (rb_workspace request); checkout = checkout root (rb_workspace request) in
      attempt (acquire lock) (\<lambda>e. fail (RebuildLock e)) (\<lambda>_.
      attempt (load_state codec (oss 0) path) (\<lambda>e. fail (RebuildState e)) (\<lambda>loaded.
      attempt (perform Prepare (rebuild_prepare planner checkout (rb_config request) loaded))
        (\<lambda>e. fail (RebuildDesired e)) (\<lambda>desired.
      attempt (perform ValidateFrozen (rebuild_validate_frozen planner desired)) (\<lambda>e. fail (RebuildPreflight e)) (\<lambda>_.
      attempt (perform CheckoutChanges (status checkout)) (\<lambda>e. fail (RebuildCheckoutStatus e)) (\<lambda>changes.
      (case next_generation (ws_active loaded) of
         Err e \<Rightarrow> fail (RebuildGeneration e)
       | Ok generation \<Rightarrow>
           attempt (save_state codec (oss 1) path (rebuild_intent request loaded desired)) (\<lambda>e. fail (RebuildState e)) (\<lambda>_.
           replace_environment codec oss path state_text request environment (rebuild_intent request loaded desired)
             (ws_active loaded) changes desired generation)))))))))"

section \<open>Generated images\<close>

record generated_image =
  image_ident :: string
  image_generation :: generation_id
  image_workspace_generated :: bool
  image_referenced :: bool
  image_repository_tagged :: bool

definition eligible_image :: "generated_image \<Rightarrow> bool" where
  "eligible_image i \<longleftrightarrow> image_workspace_generated i \<and> \<not> image_referenced i \<and> \<not> image_repository_tagged i"

text \<open>The sort by descending generation is stable.\<close>

definition select_generated_images_for_cleanup :: "generated_image list \<Rightarrow> string list" where
  "select_generated_images_for_cleanup candidates =
     map image_ident (drop GENERATED_IMAGE_HISTORY
       (sort_key (\<lambda>i. - uint (generation_get (image_generation i))) (filter eligible_image candidates)))"

section \<open>What a rebuild commits\<close>

text \<open>The state a rebuild commits over \<open>s0\<close>: generation 1 for the first environment, else the next
  generation in a container of its own.\<close>

definition rebuild_successor :: "workspace_state \<Rightarrow> workspace_state \<Rightarrow> bool" where
  "rebuild_successor s0 s \<longleftrightarrow>
     (\<exists>b. ws_active s = Some b \<and> ws_operation s = OperationState_idle \<and> ws_last_error s = None \<and>
        (case ws_active s0 of
           None \<Rightarrow> unat (generation_get (active_generation_id b)) = 1
         | Some a \<Rightarrow>
             unat (generation_get (active_generation_id b)) = unat (generation_get (active_generation_id a)) + 1 \<and>
             active_container_id b \<noteq> active_container_id a))"

abbreviation retained_or_rebuilt :: "'u url_library \<Rightarrow> workspace_state \<Rightarrow> workspace_state \<Rightarrow> bool" where
  "retained_or_rebuilt lib s0 s \<equiv> state_ok lib s \<and> same_workspace s0 s \<and> (ws_active s = ws_active s0 \<or> rebuild_successor s0 s)"

definition rebuild_typed ::
    "(workspace_state_error \<Rightarrow> string) \<Rightarrow> rebuild_request \<Rightarrow> ('p, 'pe, 'fe, 'w) rebuild_planner \<Rightarrow>
     ('p, 'b, 'e, 'w) rebuild_environment \<Rightarrow> bool" where
  "rebuild_typed state_text request planner environment \<longleftrightarrow>
     operation_ok (rb_operation request) \<and> timestamp_ok (rb_completed_at request) \<and>
     (\<forall>p c s w w' desired. rebuild_prepare planner p c s w = (w', Ok desired) \<longrightarrow> plan_ok desired) \<and>
     (\<forall>e. valid_utf8 (state_text e)) \<and> (\<forall>e. valid_utf8 (env_text environment e)) \<and>
     (\<forall>desired b g w w' a. env_create_ready environment desired b g w = (w', Ok a) \<longrightarrow> active_ok a)"

text \<open>The calls and saves of a run that succeeds, and those of any run.\<close>

definition rebuild_labels :: "active_generation option \<Rightarrow> workspace_state \<Rightarrow> workspace_state \<Rightarrow> label list" where
  "rebuild_labels previous i c =
     [Called Prepare, Called ValidateFrozen, Called CheckoutChanges, Save i, Called Build, Called Quiesce] @
     (if previous = None then [] else [Called Backup]) @ [Called CreateReady, Called Handoff, Save c, Called Cleanup]"

definition rebuild_order :: "active_generation option \<Rightarrow> label list \<Rightarrow> bool" where
  "rebuild_order previous labels \<longleftrightarrow>
     (\<exists>i c f. let main = rebuild_labels previous i c in
        prefix labels main \<or> labels = take 5 main @ [Save f] \<or>
        (\<exists>n. 6 \<le> n \<and> n < length main \<and> labels = take n main @ [Called Rollback, Save f]))"

definition rebuild_answer ::
    "rebuild_request \<Rightarrow> ('e replacement_failure \<Rightarrow> string) \<Rightarrow> workspace_state \<Rightarrow>
     ('e rebuild_outcome, ('pe, 'fe, 'se, 'e) rebuild_error) result \<Rightarrow> workspace_state \<Rightarrow> bool" where
  "rebuild_answer request message s0 r s =
     (case r of
        Ok outcome \<Rightarrow> rebuild_successor s0 s \<and>
          map_option active_generation_id (ws_active s) = Some (rebuilt_generation outcome) \<and>
          map_option active_container_id (ws_active s) = Some (rebuilt_container outcome)
      | Err e \<Rightarrow>
          (case e of
             RebuildState _ \<Rightarrow> ws_active s = ws_active s0
           | Replacement phase primary rollback \<Rightarrow> ws_active s = ws_active s0 \<and>
               (if rollback = None
                then ws_operation s = OperationState_idle \<and> ws_last_error s = Some (redact (message primary) [])
                else ws_operation s = rb_operation request \<and>
                  ws_last_error s = Some (redact ''rebuild failed and rollback was incomplete'' []))
           | RebuildFailureRecord _ _ _ _ \<Rightarrow> ws_active s = ws_active s0 \<or> rebuild_successor s0 s
           | _ \<Rightarrow> s = s0))"

definition rebuild_run ::
    "'u url_library \<Rightarrow> (file_system \<Rightarrow> workspace_state option) \<Rightarrow> rebuild_request \<Rightarrow> ('e replacement_failure \<Rightarrow> string) \<Rightarrow> workspace_state \<Rightarrow>
     'w host \<Rightarrow> 'w host \<Rightarrow> ('e rebuild_outcome, ('pe, 'fe, 'se, 'e) rebuild_error) result \<Rightarrow> bool" where
  "rebuild_run lib kept request message s0 h0 h r \<longleftrightarrow>
     (\<exists>labels s. ran kept (retained_or_rebuilt lib s0) h0 labels h \<and> rebuild_order (ws_active s0) labels \<and>
        (is_ok r \<longrightarrow> (\<exists>i c. labels = rebuild_labels (ws_active s0) i c)) \<and>
        kept (host_files h) = Some s \<and> rebuild_answer request message s0 r s)"

lemma rebuild_runI:
  "ran kept (retained_or_rebuilt lib s0) h0 labels h \<Longrightarrow> rebuild_order (ws_active s0) labels \<Longrightarrow>
     kept (host_files h) = Some s \<Longrightarrow> rebuild_answer request message s0 (Err e) s \<Longrightarrow>
     rebuild_run lib kept request message s0 h0 h (Err e)"
  by (auto simp: rebuild_run_def)

lemma next_generation_Ok:
  assumes "next_generation previous = Ok g"
  shows "case previous of None \<Rightarrow> unat (generation_get g) = 1
    | Some a \<Rightarrow> unat (generation_get g) = unat (generation_get (active_generation_id a)) + 1"
proof (cases previous)
  case None
  with assms show ?thesis by (auto simp: next_generation_def GenerationId_new_def is_some_and_def split: if_splits)
next
  case (Some a)
  let ?v = "generation_get (active_generation_id a)"
  from assms Some have "?v \<noteq> - 1" "g = GenerationId (?v + 1)" "?v + 1 \<noteq> 0"
    by (auto simp: next_generation_def GenerationId_new_def is_some_and_def saturating_succ_def Let_def split: if_splits)
  with Some show ?thesis using unatSuc [of ?v] by (simp add: add.commute)
qed

lemma rebuild_intent_same [simp]:
  "same_workspace s0 (rebuild_intent request s desired) = same_workspace s0 s"
  "same_workspace s0 (rolled_back s rollback message) = same_workspace s0 s"
  by (simp_all add: rebuild_intent_def rolled_back_def)

lemma rebuild_intent_facts:
  "ws_active (rebuild_intent request s desired) = ws_active s"
  "ws_operation (rebuild_intent request s desired) = rb_operation request"
  "state_ok lib s \<Longrightarrow> plan_ok desired \<Longrightarrow> operation_ok (rb_operation request) \<Longrightarrow> state_ok lib (rebuild_intent request s desired)"
  by (simp_all add: rebuild_intent_def plan_ok_def state_ok_operations)
    (simp_all add: set_last_error_def set_operation_def update_desired_def)

lemma rolled_back_facts:
  "ws_active (rolled_back s rollback message) = ws_active s"
  "ws_operation (rolled_back s rollback message) = (if rollback = None then OperationState_idle else ws_operation s)"
  "ws_last_error (rolled_back s rollback message) =
     Some (redact (if rollback = None then message else ''rebuild failed and rollback was incomplete'') [])"
  "state_ok lib s \<Longrightarrow> valid_utf8 message \<Longrightarrow> state_ok lib (rolled_back s rollback message)"
proof -
  have "operation_ok (ws_operation s)" if "state_ok lib s" using that by (simp add: state_ok_def)
  then show "state_ok lib s \<Longrightarrow> valid_utf8 message \<Longrightarrow> state_ok lib (rolled_back s rollback message)"
    unfolding rolled_back_def
    by (intro state_ok_operations(3) state_ok_operations(2)) (simp_all add: idle_ok redact_ok ascii_valid_utf8)
qed (simp_all add: rolled_back_def set_last_error_def set_operation_def)

text \<open>The prefixes of a run that may end it.\<close>

lemma rebuild_orders:
  "n < 5 \<Longrightarrow> rebuild_order previous (take n (rebuild_labels previous i c))"
  "rebuild_order previous (take 5 (rebuild_labels previous i c) @ [Save f])"
  "6 \<le> n \<Longrightarrow> n < length (rebuild_labels previous i c) \<Longrightarrow>
     rebuild_order previous (take n (rebuild_labels previous i c) @ [Called Rollback, Save f])"
  unfolding rebuild_order_def Let_def by (blast intro: take_is_prefix)+

text \<open>A rollback keeps the active record, whatever it answers.\<close>

lemma fail_with_rollback_run:
  assumes "codec_ok lib codec" "os_user os = user" "next_generation previous = Ok g"
    and state: "state_ok lib state" "ws_active state = ws_active s0" "ws_operation state = rb_operation request"
      "same_workspace s0 state"
    and "valid_utf8 (message primary)"
    and run: "ran (stored codec user path) (retained_or_rebuilt lib s0) h0 (take n (rebuild_labels (ws_active s0) i c)) h"
    and now: "stored codec user path (host_files h) = Some old"
    and n: "6 \<le> n" "n < length (rebuild_labels (ws_active s0) i c)"
  shows "wp (fail_with_rollback codec os path state environment build previous candidate backup phase primary (message primary))
     (rebuild_run lib (stored codec user path) request message s0 h0) h"
proof -
  let ?labels = "take n (rebuild_labels (ws_active s0) i c)"
  let ?R = "rebuild_run lib (stored codec user path) request message s0 h0"
  have recorded: "wp (attempt (save_state codec os path (rolled_back state rollback (message primary)))
        (\<lambda>e. fail (RebuildFailureRecord phase primary rollback e)) (\<lambda>_. fail (Replacement phase primary rollback)))
      ?R (h\<lparr>host_world := w, host_log := host_log h @ [Did Rollback]\<rparr>)" (is "wp ?m ?R ?h") for rollback w
  proof (rule wp_attempt, rule wp_save [OF assms(1) rolled_back_facts(4) [OF state(1) assms(8)] assms(2) ran_perform [OF run]])
    show "stored codec user path (host_files ?h) = Some old" using now by simp
    show "retained_or_rebuilt lib s0 (rolled_back state rollback (message primary))"
      using rolled_back_facts(4) [OF state(1) assms(8)] by (simp add: rolled_back_facts state)
    fix h'
    assume h': "ran (stored codec user path) (retained_or_rebuilt lib s0) h0
      ((?labels @ [Called Rollback]) @ [Save (rolled_back state rollback (message primary))]) h'"
    note run' = h' [unfolded append_assoc append.simps]
    note order = rebuild_orders(3) [OF n]
    show "(\<forall>a. Ok () = Ok a \<longrightarrow> wp (fail (Replacement phase primary rollback)) ?R h') \<and>
        (\<forall>e. Ok () = Err e \<longrightarrow> wp (fail (RebuildFailureRecord phase primary rollback e)) ?R h')"
      if "stored codec user path (host_files h') = Some (rolled_back state rollback (message primary))"
      using that by (auto intro!: wp_fail rebuild_runI [OF run' order] simp: rebuild_answer_def rolled_back_facts state)
    from h' obtain s' where s': "stored codec user path (host_files h') = Some s'" "retained_or_rebuilt lib s0 s'"
      by (auto simp: ran_def)
    show "(\<forall>a. Err e'' = Ok a \<longrightarrow> wp (fail (Replacement phase primary rollback)) ?R h') \<and>
        (\<forall>e. Err e'' = Err e \<longrightarrow> wp (fail (RebuildFailureRecord phase primary rollback e)) ?R h')" for e''
      using s' by (auto intro!: wp_fail rebuild_runI [OF run' order s'(1)] simp: rebuild_answer_def)
  qed
  show ?thesis
    unfolding fail_with_rollback_def assms(3) result.case Let_def
    by (rule wp_attempt, rule wp_perform) (simp only: recorded simp_thms)
qed

text \<open>The steps of a run as positions in \<open>rebuild_labels\<close>; \<open>ready\<close> counts those up to readiness.\<close>

definition ready :: "active_generation option \<Rightarrow> nat" where
  "ready previous = (if previous = None then 7 else 8)"

lemma rebuild_positions:
  "length (rebuild_labels previous i c) = ready previous + 3"
  "take (ready previous) (rebuild_labels previous i c) @ [Called Handoff] = take (ready previous + 1) (rebuild_labels previous i c)"
  "take (ready previous + 1) (rebuild_labels previous i c) @ [Save c] = take (ready previous + 2) (rebuild_labels previous i c)"
  "take (ready previous + 2) (rebuild_labels previous i c) @ [Called Cleanup] = rebuild_labels previous i c"
  "take (ready previous) (rebuild_labels previous i c) = take (ready previous) (rebuild_labels previous i c')"
  "7 \<le> ready previous"
  by (simp_all add: rebuild_labels_def ready_def eval_nat_numeral)

lemma candidate_successor:
  assumes "candidate_invariant (ws_active s0) g candidate = None" "next_generation (ws_active s0) = Ok g"
  shows "rebuild_successor s0 (commit_active candidate t state)"
  using assms(1) next_generation_Ok [OF assms(2)]
  by (auto simp: rebuild_successor_def candidate_invariant_def commit_active_def is_some_and_def split: if_splits option.splits)

text \<open>After the commit, cleanup ends the run, whatever it answers.\<close>

lemma clean_replacement_run:
  assumes run: "ran kept (retained_or_rebuilt lib s0) h0 (take (ready (ws_active s0) + 2) (rebuild_labels (ws_active s0) i final)) h"
    and now: "kept (host_files h) = Some final"
    and final: "rebuild_successor s0 final" "ws_active final = Some candidate" "active_generation_id candidate = g"
  shows "wp (clean_replacement request environment (ws_active s0) changes build candidate g) (rebuild_run lib kept request message s0 h0) h"
proof -
  let ?main = "rebuild_labels (ws_active s0) i final"
  have "rebuild_run lib kept request message s0 h0 (h\<lparr>host_world := w, host_log := host_log h @ [Did Cleanup]\<rparr>) (Ok
      \<lparr>rebuilt_generation = g, rebuilt_container = active_container_id candidate, rebuilt_checkout_has_changes = changes,
       rebuilt_cleanup_warning = warning\<rparr>)" for w warning
  proof -
    have "ran kept (retained_or_rebuilt lib s0) h0 ?main (h\<lparr>host_world := w, host_log := host_log h @ [Did Cleanup]\<rparr>)"
      using ran_perform [OF run, of Cleanup w] rebuild_positions(4) by simp
    moreover have "rebuild_order (ws_active s0) ?main" by (auto simp: rebuild_order_def Let_def)
    ultimately show ?thesis
      using now final by (auto simp: rebuild_run_def rebuild_answer_def)
  qed
  then show ?thesis
    unfolding clean_replacement_def Let_def by (auto intro!: wp_attempt wp_perform wp_succeed)
qed

lemma failure_text_utf8:
  assumes "\<And>e. valid_utf8 (state_text e)" "\<And>e. valid_utf8 (adapter_text e)"
  shows "valid_utf8 (failure_text state_text adapter_text primary)"
proof (cases primary)
  case (InvariantFailure i)
  then show ?thesis by (cases i) (simp_all add: ascii_valid_utf8)
qed (simp_all add: assms)

lemma commit_replacement_run:
  assumes codec: "codec_ok lib codec" and user: "\<And>i. os_user (oss i) = user" and g: "next_generation (ws_active s0) = Ok g"
    and state: "state_ok lib state" "ws_active state = ws_active s0" "ws_operation state = rb_operation request"
      "same_workspace s0 state"
    and texts: "\<And>e. valid_utf8 (state_text e)" "\<And>e. valid_utf8 (env_text environment e)"
    and candidate: "active_ok candidate" and time: "timestamp_ok (rb_completed_at request)"
    and run: "ran (stored codec user path) (retained_or_rebuilt lib s0) h0 (take (ready (ws_active s0)) (rebuild_labels (ws_active s0) i c')) h"
    and now: "stored codec user path (host_files h) = Some state"
  shows "wp (commit_replacement codec oss path state_text request environment state (ws_active s0) changes build candidate g)
     (rebuild_run lib (stored codec user path) request (failure_text state_text (env_text environment)) s0 h0) h"
proof -
  define final where "final = commit_active candidate (rb_completed_at request) state"
  let ?main = "rebuild_labels (ws_active s0) i final"
  note positions = rebuild_positions [of "ws_active s0"]
  have run: "ran (stored codec user path) (retained_or_rebuilt lib s0) h0 (take (ready (ws_active s0)) ?main) h"
    using run positions(5) [of i c' final] by simp
  note rollback = fail_with_rollback_run [where message = "failure_text state_text (env_text environment)",
      OF codec user g state failure_text_utf8 [OF texts], where c = final and i = i]
  have handed: "ran (stored codec user path) (retained_or_rebuilt lib s0) h0 (take (ready (ws_active s0) + 1) ?main)
      (h\<lparr>host_world := w, host_log := host_log h @ [Did Handoff]\<rparr>)" for w
    using ran_perform [OF run, of Handoff w] positions(2) by simp
  have now': "stored codec user path (host_files (h\<lparr>host_world := w, host_log := log\<rparr>)) = Some state" for w log
    using now by simp
  show ?thesis
  proof (cases "candidate_invariant (ws_active s0) g candidate")
    case (Some invariant)
    then show ?thesis
      unfolding commit_replacement_def Let_def Some option.case
      by (intro rollback [OF run now]) (use positions in auto)
  next
    case None
    have final_ok: "state_ok lib final" unfolding final_def by (rule state_ok_operations(5) [OF state(1) candidate time])
    have final: "rebuild_successor s0 final" "ws_active final = Some candidate" "active_generation_id candidate = g"
      "continues lib s0 final"
      unfolding final_def using candidate_successor [OF None g] None state(4) final_ok [unfolded final_def]
      by (simp_all add: commit_active_def candidate_invariant_def same_workspace_def split: if_splits)
    have failed: "wp (fail_with_rollback codec (oss 3) path state environment build (ws_active s0) (Some candidate)
          (rb_backup_name request) ForwardingHandedOff (StateFailure e)
          (failure_text state_text (env_text environment) (StateFailure e)))
        (rebuild_run lib (stored codec user path) request (failure_text state_text (env_text environment)) s0 h0) h'"
      if h': "ran (stored codec user path) (retained_or_rebuilt lib s0) h0 (take (ready (ws_active s0) + 2) ?main) h'" for e h'
    proof -
      from h' obtain old where "stored codec user path (host_files h') = Some old" by (auto simp: ran_def)
      then show ?thesis by (rule rollback [OF h']) (use positions(1,6) in simp_all)
    qed
    show ?thesis
      unfolding commit_replacement_def Let_def None option.case final_def [symmetric]
      by (rule wp_attempt, rule wp_perform, intro conjI allI impI, rule wp_attempt,
          rule wp_save [OF codec final_ok user handed _ now'])
        (use final positions(1,6) in \<open>auto intro!: rollback [OF handed now'] failed clean_replacement_run simp: positions(3)
           simp del: One_nat_def add_2_eq_Suc' failure_text.simps\<close>)
  qed
qed

text \<open>The run from the stored intent on.\<close>

lemma rebuild_prefixes:
  "take 4 (rebuild_labels previous i c) @ [Called Build] = take 5 (rebuild_labels previous i c)"
  "take 5 (rebuild_labels previous i c) @ [Called Quiesce] = take 6 (rebuild_labels previous i c)"
  "previous \<noteq> None \<Longrightarrow> take 6 (rebuild_labels previous i c) @ [Called Backup] = take 7 (rebuild_labels previous i c)"
  "take (ready previous - 1) (rebuild_labels previous i c) @ [Called CreateReady] = take (ready previous) (rebuild_labels previous i c)"
  by (simp_all add: rebuild_labels_def ready_def eval_nat_numeral)

lemma fail_without_rollback_run:
  assumes "codec_ok lib codec" "os_user os = user"
    and state: "state_ok lib state" "ws_active state = ws_active s0" "same_workspace s0 state"
    and "valid_utf8 (message primary)"
    and run: "ran (stored codec user path) (retained_or_rebuilt lib s0) h0 (take 5 (rebuild_labels (ws_active s0) i c)) h"
    and now: "stored codec user path (host_files h) = Some old"
  shows "wp (fail_without_rollback codec os path state phase primary (message primary))
     (rebuild_run lib (stored codec user path) request message s0 h0) h"
  unfolding fail_without_rollback_def
proof (rule wp_attempt, rule wp_save [OF assms(1) failed_state_facts(4) [OF state(1) assms(6)] assms(2) run _ now])
  fix h'
  let ?R = "rebuild_run lib (stored codec user path) request message s0 h0"
  assume h': "ran (stored codec user path) (retained_or_rebuilt lib s0) h0
    (take 5 (rebuild_labels (ws_active s0) i c) @ [Save (failed_state state (message primary))]) h'"
  note order = rebuild_orders(2)
  show "(\<forall>a. Ok () = Ok a \<longrightarrow> wp (fail (Replacement phase primary None)) ?R h') \<and>
      (\<forall>e. Ok () = Err e \<longrightarrow> wp (fail (RebuildFailureRecord phase primary None e)) ?R h')"
    if "stored codec user path (host_files h') = Some (failed_state state (message primary))"
    using that by (auto intro!: wp_fail rebuild_runI [OF h' order] simp: rebuild_answer_def failed_state_facts state)
  from h' obtain s' where s': "stored codec user path (host_files h') = Some s'" "retained_or_rebuilt lib s0 s'"
    by (auto simp: ran_def)
  show "(\<forall>a. Err e'' = Ok a \<longrightarrow> wp (fail (Replacement phase primary None)) ?R h') \<and>
      (\<forall>e. Err e'' = Err e \<longrightarrow> wp (fail (RebuildFailureRecord phase primary None e)) ?R h')" for e''
    using s' by (auto intro!: wp_fail rebuild_runI [OF h' order s'(1)] simp: rebuild_answer_def)
qed (use failed_state_facts(4) [OF state(1) assms(6)] in \<open>simp add: failed_state_facts(1) state\<close>)

text \<open>The state a run is in between the stored intent and the commit, after \<open>n\<close> steps.\<close>

definition replacing ::
    "'u url_library \<Rightarrow> state_codec \<Rightarrow> (nat \<Rightarrow> os_answers) \<Rightarrow> 32 word \<Rightarrow> path \<Rightarrow> rebuild_request \<Rightarrow> workspace_state \<Rightarrow>
     workspace_state \<Rightarrow> generation_id \<Rightarrow> 'w host \<Rightarrow> nat \<Rightarrow> 'w host \<Rightarrow> bool" where
  "replacing lib codec oss user path request s0 state g h0 n h \<longleftrightarrow>
     codec_ok lib codec \<and> (\<forall>i. os_user (oss i) = user) \<and> next_generation (ws_active s0) = Ok g \<and>
     state_ok lib state \<and> ws_active state = ws_active s0 \<and> ws_operation state = rb_operation request \<and>
     same_workspace s0 state \<and>
     ran (stored codec user path) (retained_or_rebuilt lib s0) h0 (take n (rebuild_labels (ws_active s0) state state)) h \<and>
     stored codec user path (host_files h) = Some state"

lemma replacing_perform:
  assumes "replacing lib codec oss user path request s0 state g h0 n h"
    and "take n (rebuild_labels (ws_active s0) state state) @ [Called c] = take m (rebuild_labels (ws_active s0) state state)"
  shows "replacing lib codec oss user path request s0 state g h0 m (h\<lparr>host_world := w, host_log := host_log h @ [Did c]\<rparr>)"
  using assms(1) ran_perform [of "stored codec user path" "retained_or_rebuilt lib s0" h0
      "take n (rebuild_labels (ws_active s0) state state)" h c w] assms(2)
  by (auto simp: replacing_def)

lemma rebuild_typed_texts:
  "rebuild_typed state_text request planner environment \<Longrightarrow> valid_utf8 (failure_text state_text (env_text environment) primary)"
  by (simp add: rebuild_typed_def failure_text_utf8)

lemma abandon_run:
  assumes at: "replacing lib codec oss user path request s0 state g h0 n h" and "6 \<le> n" "n < ready (ws_active s0) + 3"
    and typed: "rebuild_typed state_text request planner environment"
  shows "wp (abandon codec oss path state_text request environment state (ws_active s0) build phase source)
     (rebuild_run lib (stored codec user path) request (failure_text state_text (env_text environment)) s0 h0) h"
  unfolding abandon_def using at assms(2,3)
  by (intro fail_with_rollback_run [where message = "failure_text state_text (env_text environment)" and lib = lib and g = g
        and n = n and i = state and c = state and old = state] rebuild_typed_texts [OF typed])
    (simp_all add: replacing_def rebuild_positions)

lemma create_replacement_run:
  assumes at: "replacing lib codec oss user path request s0 state g h0 (ready (ws_active s0) - 1) h"
    and typed: "rebuild_typed state_text request planner environment"
  shows "wp (create_replacement codec oss path state_text request environment state (ws_active s0) changes desired g build)
     (rebuild_run lib (stored codec user path) request (failure_text state_text (env_text environment)) s0 h0) h"
  unfolding create_replacement_def
proof (rule wp_attempt, rule wp_perform, intro conjI allI impI)
  fix w r
  let ?h = "h\<lparr>host_world := w, host_log := host_log h @ [Did CreateReady]\<rparr>"
  assume call: "env_create_ready environment desired build g (host_world h) = (w, r)"
  have at': "replacing lib codec oss user path request s0 state g h0 (ready (ws_active s0)) ?h"
    by (rule replacing_perform [OF at rebuild_prefixes(4)])
  show "wp (abandon codec oss path state_text request environment state (ws_active s0) build BackupRenamed source)
      (rebuild_run lib (stored codec user path) request (failure_text state_text (env_text environment)) s0 h0) ?h" for source
    by (rule abandon_run [OF at' _ _ typed]) (use rebuild_positions(6) [of "ws_active s0"] in simp_all)
  show "wp (commit_replacement codec oss path state_text request environment state (ws_active s0) changes build candidate g)
      (rebuild_run lib (stored codec user path) request (failure_text state_text (env_text environment)) s0 h0) ?h"
    if "r = Ok candidate" for candidate
    using at' typed call that
    by (intro commit_replacement_run [where lib = lib and i = state and c' = state])
      (auto simp: replacing_def rebuild_typed_def simp del: host.simps)
qed

lemma backup_and_create_run:
  assumes at: "replacing lib codec oss user path request s0 state g h0 6 h"
    and typed: "rebuild_typed state_text request planner environment"
  shows "wp (backup_and_create codec oss path state_text request environment state (ws_active s0) changes desired g build)
     (rebuild_run lib (stored codec user path) request (failure_text state_text (env_text environment)) s0 h0) h"
proof (cases "ws_active s0")
  case None
  have "replacing lib codec oss user path request s0 state g h0 (ready (ws_active s0) - 1) h"
    using at None by (simp add: ready_def)
  from create_replacement_run [OF this typed] None show ?thesis by (simp add: backup_and_create_def)
next
  case (Some old)
  have at': "replacing lib codec oss user path request s0 state g h0 7 (h\<lparr>host_world := w, host_log := host_log h @ [Did Backup]\<rparr>)" for w
    by (rule replacing_perform [OF at rebuild_prefixes(3)]) (simp add: Some)
  have seven: "7 = ready (ws_active s0) - 1" by (simp add: Some ready_def)
  have "wp (attempt (perform Backup (env_backup environment old (rb_backup_name request)))
      (abandon codec oss path state_text request environment state (ws_active s0) build BackupRenamed)
      (\<lambda>_. create_replacement codec oss path state_text request environment state (ws_active s0) changes desired g build))
     (rebuild_run lib (stored codec user path) request (failure_text state_text (env_text environment)) s0 h0) h"
    by (rule wp_attempt, rule wp_perform, intro conjI allI impI, rule create_replacement_run [OF at' [unfolded seven] typed],
        rule abandon_run [OF at' _ _ typed]) (simp_all add: ready_def)
  then show ?thesis by (simp add: backup_and_create_def Some)
qed

lemma replace_environment_run:
  assumes at: "replacing lib codec oss user path request s0 state g h0 4 h"
    and typed: "rebuild_typed state_text request planner environment"
  shows "wp (replace_environment codec oss path state_text request environment state (ws_active s0) changes desired g)
     (rebuild_run lib (stored codec user path) request (failure_text state_text (env_text environment)) s0 h0) h"
  unfolding replace_environment_def
proof (rule wp_attempt, rule wp_perform, intro conjI allI impI)
  fix w
  let ?h = "h\<lparr>host_world := w, host_log := host_log h @ [Did Build]\<rparr>"
  have at': "replacing lib codec oss user path request s0 state g h0 5 ?h"
    by (rule replacing_perform [OF at rebuild_prefixes(1)])
  show "wp (fail_without_rollback codec (oss 2) path state Built (AdapterFailure source)
      (failure_text state_text (env_text environment) (AdapterFailure source)))
      (rebuild_run lib (stored codec user path) request (failure_text state_text (env_text environment)) s0 h0) ?h" for source
    using at'
    by (intro fail_without_rollback_run [where message = "failure_text state_text (env_text environment)" and lib = lib
          and i = state and c = state and old = state] rebuild_typed_texts [OF typed])
      (simp_all add: replacing_def)
  have quiet: "replacing lib codec oss user path request s0 state g h0 6 (?h\<lparr>host_world := w', host_log := host_log ?h @ [Did Quiesce]\<rparr>)" for w'
    by (rule replacing_perform [OF at' rebuild_prefixes(2)])
  show "wp (attempt (perform Quiesce (env_quiesce environment (ws_active s0)))
       (abandon codec oss path state_text request environment state (ws_active s0) build Quiescing)
       (\<lambda>_. backup_and_create codec oss path state_text request environment state (ws_active s0) changes desired g build))
     (rebuild_run lib (stored codec user path) request (failure_text state_text (env_text environment)) s0 h0) ?h" for build
    by (rule wp_attempt, rule wp_perform, intro conjI allI impI, rule backup_and_create_run [OF quiet typed],
        rule abandon_run [OF quiet _ _ typed]) (simp_all add: ready_def)
qed

text \<open>Before the intent is stored, a failed step leaves the state as it was.\<close>

lemma rebuild_early:
  assumes "ran (stored codec user path) (retained_or_rebuilt lib s0) h0 labels h" "labels = take n (rebuild_labels (ws_active s0) s0 s0)"
    and "n < 5" "stored codec user path (host_files h) = Some s0" "rebuild_answer request message s0 (Err e) s0"
  shows "wp (fail e) (rebuild_run lib (stored codec user path) request message s0 h0) h"
  using assms by (intro wp_fail rebuild_runI [OF assms(1) _ assms(4,5)]) (simp add: rebuild_orders(1))

lemma rebuild_answers [simp]:
  "rebuild_answer request message s0 (Err RebuildInvalid) s0"
  "rebuild_answer request message s0 (Err (RebuildLock l)) s0"
  "rebuild_answer request message s0 (Err (RebuildState e)) s0"
  "rebuild_answer request message s0 (Err (RebuildDesired pe)) s0"
  "rebuild_answer request message s0 (Err (RebuildPreflight fe)) s0"
  "rebuild_answer request message s0 (Err (RebuildCheckoutStatus se)) s0"
  "rebuild_answer request message s0 (Err (RebuildGeneration i)) s0"
  by (simp_all add: rebuild_answer_def)

lemma rebuild_prepared_run:
  assumes "codec_ok lib codec" "\<And>i. os_user (oss i) = user" "state_ok lib s0" "plan_ok desired"
    and typed: "rebuild_typed state_text request planner environment"
    and run: "ran (stored codec user path) (retained_or_rebuilt lib s0) h0 [Called Prepare, Called ValidateFrozen, Called CheckoutChanges] h"
    and now: "stored codec user path (host_files h) = Some s0"
  shows "wp (case next_generation (ws_active s0) of
         Err e \<Rightarrow> fail (RebuildGeneration e)
       | Ok generation \<Rightarrow>
           attempt (save_state codec (oss 1) path (rebuild_intent request s0 desired)) (\<lambda>e. fail (RebuildState e)) (\<lambda>_.
           replace_environment codec oss path state_text request environment (rebuild_intent request s0 desired)
             (ws_active s0) changes desired generation))
     (rebuild_run lib (stored codec user path) request (failure_text state_text (env_text environment)) s0 h0) h"
proof (cases "next_generation (ws_active s0)")
  case (Err e)
  show ?thesis
    unfolding Err result.case
    by (rule rebuild_early [OF run, of 3]) (simp_all add: rebuild_labels_def now)
next
  case (Ok g)
  define state where "state = rebuild_intent request s0 desired"
  have state: "state_ok lib state" "ws_active state = ws_active s0" "ws_operation state = rb_operation request"
    "same_workspace s0 state"
    unfolding state_def using typed by (simp_all add: rebuild_intent_facts assms(3,4) rebuild_typed_def)
  have four: "[Called Prepare, Called ValidateFrozen, Called CheckoutChanges] @ [Save state] =
      take 4 (rebuild_labels (ws_active s0) state state)" by (simp add: rebuild_labels_def)
  show ?thesis
    unfolding Ok result.case state_def [symmetric]
  proof (rule wp_attempt, rule wp_save [OF assms(1) state(1) assms(2) run _ now])
    fix h'
    let ?R = "rebuild_run lib (stored codec user path) request (failure_text state_text (env_text environment)) s0 h0"
    assume "ran (stored codec user path) (retained_or_rebuilt lib s0) h0
      ([Called Prepare, Called ValidateFrozen, Called CheckoutChanges] @ [Save state]) h'"
    note run' = this [unfolded four]
    show "(\<forall>a. Ok () = Ok a \<longrightarrow> wp (replace_environment codec oss path state_text request environment state
        (ws_active s0) changes desired g) ?R h') \<and> (\<forall>e. Ok () = Err e \<longrightarrow> wp (fail (RebuildState e)) ?R h')"
      if "stored codec user path (host_files h') = Some state"
      using replace_environment_run [of lib codec oss user path request s0 state g h0 h', OF _ typed] that run' assms(1,2) Ok state
      by (simp add: replacing_def)
    show "(\<forall>a. Err e'' = Ok a \<longrightarrow> wp (replace_environment codec oss path state_text request environment state
        (ws_active s0) changes desired g) ?R h') \<and> (\<forall>e. Err e'' = Err e \<longrightarrow> wp (fail (RebuildState e)) ?R h')"
      if "stored codec user path (host_files h') = Some s0 \<or> stored codec user path (host_files h') = Some state" for e''
      using that state(2) by (auto intro!: wp_fail rebuild_runI [OF run' rebuild_orders(1)] simp: rebuild_answer_def)
  qed (simp add: state)
qed

lemma rebuild_workspace_run:
  assumes "codec_ok lib codec" "\<And>i. os_user (oss i) = user" "state_ok lib s0"
    and typed: "rebuild_typed state_text request planner environment"
    and start: "stored codec user (state_file root (rb_workspace request)) (host_files h) = Some s0"
  shows "wp (rebuild_workspace codec oss lock root state_text request planner status environment)
     (rebuild_run lib (stored codec user (state_file root (rb_workspace request))) request
        (failure_text state_text (env_text environment)) s0 h) h"
proof -
  define path where "path = state_file root (rb_workspace request)"
  note start = start [folded path_def]
  let ?R = "rebuild_run lib (stored codec user path) request (failure_text state_text (env_text environment)) s0 h"
  have begun: "ran (stored codec user path) (retained_or_rebuilt lib s0) h [] h"
    by (rule ran_start [of "stored codec user path" h s0, OF start]) (simp add: assms(3))
  note stages = begun ran_perform [OF begun, of Prepare, simplified]
    ran_perform [OF ran_perform [OF begun, of Prepare], of ValidateFrozen, simplified]
    ran_perform [OF ran_perform [OF ran_perform [OF begun, of Prepare], of ValidateFrozen], of CheckoutChanges, simplified]
  note early = rebuild_early [OF stages(1), of 0] rebuild_early [OF stages(2), of 1] rebuild_early [OF stages(3), of 2]
    rebuild_early [OF stages(4), of 3]
  have invalid: "wp (fail RebuildInvalid) ?R h" by (rule early(1)) (simp_all add: start)
  have prepared: "plan_ok desired" if "rebuild_prepare planner p c s w = (w', Ok desired)" for p c s w w' desired
    using typed that by (auto simp: rebuild_typed_def)
  show ?thesis
    unfolding rebuild_workspace_def Let_def path_def [symmetric]
    by (rule wp_if, rule invalid, rule wp_attempt_acquire, rule wp_attempt_load [OF start [folded assms(2) [of 0]]],
        rule wp_attempt_perform, rule wp_attempt_perform, rule wp_attempt_perform,
        rule rebuild_prepared_run [OF assms(1-3) prepared typed])
      (auto intro!: early stages simp: start rebuild_labels_def)
qed

text \<open>Images selected for cleanup are generated, unreferenced and untagged, and at least two other generated images
  at least as new as each of them stay.\<close>

lemma selected_images:
  assumes "x \<in> set (select_generated_images_for_cleanup candidates)"
  shows "\<exists>i \<in> set candidates. image_ident i = x \<and> eligible_image i \<and>
    GENERATED_IMAGE_HISTORY \<le> length (filter (\<lambda>j. eligible_image j \<and> image_generation i \<le> image_generation j) candidates) - 1"
proof -
  let ?key = "\<lambda>i. - uint (generation_get (image_generation i))"
  let ?sorted = "sort_key ?key (filter eligible_image candidates)"
  from assms obtain k where k: "k < length (drop GENERATED_IMAGE_HISTORY ?sorted)" "x = image_ident (drop GENERATED_IMAGE_HISTORY ?sorted ! k)"
    unfolding select_generated_images_for_cleanup_def set_map by (auto simp only: image_iff in_set_conv_nth)
  define n where "n = GENERATED_IMAGE_HISTORY + k"
  have n: "GENERATED_IMAGE_HISTORY \<le> n" "n < length ?sorted" "x = image_ident (?sorted ! n)"
    using k by (simp_all add: n_def)
  let ?i = "?sorted ! n"
  have "?i \<in> set ?sorted" using n(2) by (rule nth_mem)
  then have i: "?i \<in> set candidates" "eligible_image ?i" by auto
  have newer: "image_generation ?i \<le> image_generation j" if "j \<in> set (take (Suc n) ?sorted)" for j
  proof -
    from that obtain m where m: "m \<le> n" "j = ?sorted ! m" using n(2) by (auto simp: in_set_conv_nth less_Suc_eq_le)
    have "sorted (map ?key ?sorted)" by simp
    then have "map ?key ?sorted ! m \<le> map ?key ?sorted ! n" by (rule sorted_nth_mono) (use m n(2) in simp_all)
    with m n(2) have "uint (generation_get (image_generation ?i)) \<le> uint (generation_get (image_generation j))" by simp
    then show ?thesis by (simp add: less_eq_generation_id_def word_le_def)
  qed
  have "Suc n = length (filter (\<lambda>j. eligible_image j \<and> image_generation ?i \<le> image_generation j) (take (Suc n) ?sorted))"
  proof -
    have "\<forall>j \<in> set (take (Suc n) ?sorted). eligible_image j \<and> image_generation ?i \<le> image_generation j"
      using newer set_take_subset [of "Suc n" ?sorted] by auto
    then have "filter (\<lambda>j. eligible_image j \<and> image_generation ?i \<le> image_generation j) (take (Suc n) ?sorted) = take (Suc n) ?sorted"
      by (rule filter_True)
    with n(2) show ?thesis by simp
  qed
  also have "\<dots> \<le> length (filter (\<lambda>j. eligible_image j \<and> image_generation ?i \<le> image_generation j) ?sorted)"
    using filter_append [of "\<lambda>j. eligible_image j \<and> image_generation ?i \<le> image_generation j" "take (Suc n) ?sorted" "drop (Suc n) ?sorted"]
    unfolding append_take_drop_id by simp
  also have "\<dots> = length (filter (\<lambda>j. eligible_image j \<and> image_generation ?i \<le> image_generation j) candidates)"
  proof -
    have "mset (filter (\<lambda>j. eligible_image j \<and> image_generation ?i \<le> image_generation j) ?sorted) =
        mset (filter (\<lambda>j. eligible_image j \<and> image_generation ?i \<le> image_generation j) candidates)"
      by (simp add: filter_filter_mset ac_simps)
    then show ?thesis by (rule mset_eq_length)
  qed
  finally show ?thesis using i n(1,3) by (intro bexI [of _ ?i]) auto
qed

section \<open>The replacement point\<close>


text \<open>Witness of \<open>rebuild_replacement_point\<close>: the sample workspace is rebuilt to its second generation.\<close>

definition sample_rebuild :: rebuild_request where
  "sample_rebuild = \<lparr>rb_workspace = WorkspaceName ''demo'', rb_config = None,
     rb_operation = \<lparr>op_kind = Rebuilding, op_id = Some ''op'', op_started_at = Some (StateTimestamp ''2024-01-01T00:00:00Z'')\<rparr>,
     rb_backup_name = ''cdenv-backup-1'', rb_no_cache = False, rb_completed_at = StateTimestamp ''2024-01-01T00:00:00Z''\<rparr>"

definition sample_ready :: workspace_state where
  "sample_ready = commit_active sample_active (StateTimestamp ''2024-01-01T00:00:00Z'') sample_state"

definition sample_candidate :: active_generation where
  "sample_candidate = sample_active\<lparr>active_generation_id := GenerationId 2,
     active_container_id := ContainerId (replicate 64 (CHR ''b''))\<rparr>"

definition rebuild_sample_planner :: "(unit, unit, unit, unit) rebuild_planner" where
  "rebuild_sample_planner = \<lparr>rebuild_prepare = (\<lambda>_ _ _ w. (w, Ok sample_plan)), rebuild_validate_frozen = (\<lambda>_ w. (w, Ok ()))\<rparr>"

definition rebuild_sample_environment :: "(unit, unit, unit, unit) rebuild_environment" where
  "rebuild_sample_environment = \<lparr>env_build = (\<lambda>_ _ _ w. (w, Ok ())), env_quiesce = (\<lambda>_ w. (w, Ok ())),
     env_backup = (\<lambda>_ _ w. (w, Ok ())), env_create_ready = (\<lambda>_ _ _ w. (w, Ok sample_candidate)),
     env_handoff = (\<lambda>_ _ w. (w, Ok ())), env_rollback = (\<lambda>_ w. (w, Ok ())), env_cleanup = (\<lambda>_ w. (w, Ok ())), env_text = (\<lambda>_. [])\<rparr>"

definition rebuild_sample_codec :: state_codec where
  "rebuild_sample_codec = table_codec [sample_ready, rebuild_intent sample_rebuild sample_ready sample_plan,
     commit_active sample_candidate (rb_completed_at sample_rebuild) (rebuild_intent sample_rebuild sample_ready sample_plan)]"

definition sample_rebuilt :: "unit host \<times> (unit rebuild_outcome, (unit, unit, unit, unit) rebuild_error) result" where
  "sample_rebuilt = rebuild_workspace rebuild_sample_codec (\<lambda>_. calm_os) None [] (\<lambda>_. []) sample_rebuild rebuild_sample_planner
     (\<lambda>_ w. (w, Ok True)) rebuild_sample_environment (sample_host (WorkspaceName ''demo''))"

lemma sample_rebuild_ok:
  "operation_ok (rb_operation sample_rebuild) \<and> timestamp_ok (rb_completed_at sample_rebuild) \<and> active_ok sample_candidate"
  by code_simp

lemma sample_ready_ok: "state_ok no_urls sample_ready"
  unfolding sample_ready_def
  by (rule state_ok_operations(5) [OF sample_state_ok sample_active_ok]) (use sample_rebuild_ok in \<open>simp add: sample_rebuild_def\<close>)


end
