(* ===== verification/Down.thy ===== *)
theory Down
  imports Transaction
begin

text \<open>
  The shutdown transaction (\<open>down.rs\<close>): stopping is recorded, forwarding, lifecycle runner and
  environment are stopped in this order, each attempted whatever the others answer, and the outcome
  is recorded. The three stop adapters are parameters; grace periods are whole seconds.
\<close>

section \<open>Outcomes\<close>

definition LIFECYCLE_STOP_GRACE :: nat where
  "LIFECYCLE_STOP_GRACE = 5"

definition CONTAINER_STOP_GRACE :: nat where
  "CONTAINER_STOP_GRACE = 10"

datatype forwarding_stop_outcome = ForwardingStopped | ForwardingMissing | ForwardingDegraded

datatype lifecycle_stop_outcome = RunnerNotRunning | RunnerGraceful | RunnerForced | RunnerIndeterminate

datatype environment_stop_outcome = EnvironmentStopped | EnvironmentAlreadyStopped | EnvironmentMissing

datatype interrupted_operation_recovery =
    RecoveryNone | Recoverable foreground_operation | Retained foreground_operation

definition classify_interrupted_operation :: "foreground_operation \<Rightarrow> bool \<Rightarrow> interrupted_operation_recovery" where
  "classify_interrupted_operation operation lifecycle_indeterminate =
     (case operation of
        Idle \<Rightarrow> RecoveryNone
      | Stopping \<Rightarrow> Recoverable Stopping
      | StartingOp \<Rightarrow> if \<not> lifecycle_indeterminate then Recoverable StartingOp else Retained StartingOp
      | _ \<Rightarrow> Retained operation)"

datatype down_warning =
    WarnForwardingMissing | WarnForwardingDegraded | WarnLifecycleForced | WarnEnvironmentMissing
  | WarnPriorOperationInterrupted foreground_operation

record down_request =
  dn_workspace :: workspace_name
  dn_operation :: operation_state
  dn_lifecycle_grace :: nat
  dn_container_grace :: nat

definition DownRequest_new :: "workspace_name \<Rightarrow> operation_state \<Rightarrow> down_request" where
  "DownRequest_new workspace operation = \<lparr>dn_workspace = workspace, dn_operation = operation,
     dn_lifecycle_grace = LIFECYCLE_STOP_GRACE, dn_container_grace = CONTAINER_STOP_GRACE\<rparr>"

record ('f, 'l, 'e) stop_failures =
  fail_forwarding :: "'f option"
  fail_lifecycle :: "'l option"
  fail_environment :: "'e option"
  fail_indeterminate :: bool

definition no_failures :: "('f, 'l, 'e) stop_failures \<Rightarrow> bool" where
  "no_failures f \<longleftrightarrow> fail_forwarding f = None \<and> fail_lifecycle f = None \<and> fail_environment f = None \<and> \<not> fail_indeterminate f"

record down_outcome =
  down_forwarding :: forwarding_stop_outcome
  down_lifecycle :: lifecycle_stop_outcome
  down_environment :: environment_stop_outcome
  down_recovery :: interrupted_operation_recovery
  down_warnings :: "down_warning list"

datatype ('f, 'l, 'e) down_error =
    DownInvalid
  | DownLock lock_error
  | DownState workspace_state_error
  | DownIncomplete "('f, 'l, 'e) stop_failures"
  | DownFailureRecord "('f, 'l, 'e) stop_failures" workspace_state_error
  | DownPanic

section \<open>The transaction\<close>

text \<open>\<^verbatim>\<open>{operation:?}\<close> prints the name of the variant.\<close>

primrec operation_debug :: "foreground_operation \<Rightarrow> string" where
  "operation_debug Idle = ''Idle''"
| "operation_debug Creating = ''Creating''"
| "operation_debug StartingOp = ''Starting''"
| "operation_debug Rebuilding = ''Rebuilding''"
| "operation_debug Stopping = ''Stopping''"
| "operation_debug Locking = ''Locking''"

definition failure_summary ::
    "bool \<Rightarrow> interrupted_operation_recovery \<Rightarrow> ('f, 'l, 'e) stop_failures \<Rightarrow> sanitized_summary option" where
  "failure_summary successful recovery failures =
     (if \<not> successful
      then (let phases =
              (if fail_forwarding failures \<noteq> None then [''forwarding''] else []) @
              (if fail_lifecycle failures \<noteq> None \<or> fail_indeterminate failures then [''lifecycle''] else []) @
              (if fail_environment failures \<noteq> None then [''environment''] else [])
            in Some (redact (''down incomplete during '' @ join '', '' phases) []))
      else case recovery of
        Retained operation \<Rightarrow> Some (redact (''previous '' @ operation_debug operation @ '' operation was interrupted'') [])
      | _ \<Rightarrow> None)"

definition warnings ::
    "forwarding_stop_outcome \<Rightarrow> lifecycle_stop_outcome \<Rightarrow> environment_stop_outcome \<Rightarrow> interrupted_operation_recovery \<Rightarrow>
     down_warning list" where
  "warnings forwarding lifecycle environment recovery =
     (case forwarding of
        ForwardingStopped \<Rightarrow> []
      | ForwardingMissing \<Rightarrow> [WarnForwardingMissing]
      | ForwardingDegraded \<Rightarrow> [WarnForwardingDegraded]) @
     (if lifecycle = RunnerForced then [WarnLifecycleForced] else []) @
     (if environment = EnvironmentMissing then [WarnEnvironmentMissing] else []) @
     (case recovery of Retained operation \<Rightarrow> [WarnPriorOperationInterrupted operation] | _ \<Rightarrow> [])"

definition err :: "('a, 'e) result \<Rightarrow> 'e option" where
  "err r = (case r of Ok _ \<Rightarrow> None | Err e \<Rightarrow> Some e)"

definition stop_failures_of ::
    "(forwarding_stop_outcome, 'f) result \<Rightarrow> (lifecycle_stop_outcome, 'l) result \<Rightarrow>
     (environment_stop_outcome, 'e) result \<Rightarrow> ('f, 'l, 'e) stop_failures" where
  "stop_failures_of forwarding lifecycle environment =
     \<lparr>fail_forwarding = err forwarding, fail_lifecycle = err lifecycle, fail_environment = err environment,
      fail_indeterminate = (lifecycle = Ok RunnerIndeterminate)\<rparr>"

text \<open>\<open>DownPanic\<close> is the unreachable branch after all phases succeeded.\<close>

definition finish_down ::
    "state_codec \<Rightarrow> os_answers \<Rightarrow> path \<Rightarrow> workspace_state \<Rightarrow> interrupted_operation_recovery \<Rightarrow>
     (forwarding_stop_outcome, 'f) result \<Rightarrow> (lifecycle_stop_outcome, 'l) result \<Rightarrow> (environment_stop_outcome, 'e) result \<Rightarrow>
     ('w, down_outcome, ('f, 'l, 'e) down_error) step" where
  "finish_down codec os path state recovery forwarding lifecycle environment =
     (let failures = stop_failures_of forwarding lifecycle environment;
          successful = no_failures failures;
          state = set_last_error (failure_summary successful recovery failures) (set_operation OperationState_idle state) in
      attempt (save_state codec os path state) (\<lambda>e. fail (DownFailureRecord failures e)) (\<lambda>_.
      if \<not> successful then fail (DownIncomplete failures)
      else case (forwarding, lifecycle, environment) of
        (Ok f, Ok l, Ok e) \<Rightarrow> succeed \<lparr>down_forwarding = f, down_lifecycle = l, down_environment = e, down_recovery = recovery,
             down_warnings = warnings f l e recovery\<rparr>
      | _ \<Rightarrow> fail DownPanic))"

text \<open>Running a call for its answer, which may be a failure.\<close>

definition observe :: "('w, 'a, 'e) step \<Rightarrow> (('a, 'e) result \<Rightarrow> ('w, 'b, 'f) step) \<Rightarrow> ('w, 'b, 'f) step" where
  "observe m k h = (case m h of (h', r) \<Rightarrow> k r h')"

definition record_cancelled :: "(lifecycle_stop_outcome, 'l) result \<Rightarrow> workspace_state \<Rightarrow> workspace_state" where
  "record_cancelled lifecycle state =
     (case lifecycle of
        Err _ \<Rightarrow> state
      | Ok outcome \<Rightarrow> state\<lparr>ws_active := map_option (record_lifecycle_stopped (outcome = RunnerIndeterminate)) (ws_active state)\<rparr>)"

definition stop_phases ::
    "state_codec \<Rightarrow> os_answers \<Rightarrow> path \<Rightarrow> down_request \<Rightarrow> workspace_state \<Rightarrow> interrupted_operation_recovery \<Rightarrow>
     (workspace_name \<Rightarrow> active_generation option \<Rightarrow> 'w \<Rightarrow> 'w \<times> (forwarding_stop_outcome, 'f) result) \<Rightarrow>
     (active_generation option \<Rightarrow> nat \<Rightarrow> 'w \<Rightarrow> 'w \<times> (lifecycle_stop_outcome, 'l) result) \<Rightarrow>
     (active_generation option \<Rightarrow> nat \<Rightarrow> 'w \<Rightarrow> 'w \<times> (environment_stop_outcome, 'e) result) \<Rightarrow>
     ('w, down_outcome, ('f, 'l, 'e) down_error) step" where
  "stop_phases codec os path request state recovery forwarding lifecycle environment =
     observe (perform StopForwarding (forwarding (dn_workspace request) (ws_active state))) (\<lambda>forwarding_result.
     observe (perform CancelLifecycle (lifecycle (ws_active state) (dn_lifecycle_grace request))) (\<lambda>lifecycle_result.
     (let state = record_cancelled lifecycle_result state in
      observe (perform StopEnvironment (environment (ws_active state) (dn_container_grace request))) (\<lambda>environment_result.
      finish_down codec os path state recovery forwarding_result lifecycle_result environment_result))))"

definition stopping_intent :: "down_request \<Rightarrow> workspace_state \<Rightarrow> workspace_state" where
  "stopping_intent request s = set_last_error None (set_operation (dn_operation request) s)"

definition down_workspace ::
    "state_codec \<Rightarrow> (nat \<Rightarrow> os_answers) \<Rightarrow> lock_error option \<Rightarrow> path \<Rightarrow> down_request \<Rightarrow>
     (workspace_name \<Rightarrow> active_generation option \<Rightarrow> 'w \<Rightarrow> 'w \<times> (forwarding_stop_outcome, 'f) result) \<Rightarrow>
     (active_generation option \<Rightarrow> nat \<Rightarrow> 'w \<Rightarrow> 'w \<times> (lifecycle_stop_outcome, 'l) result) \<Rightarrow>
     (active_generation option \<Rightarrow> nat \<Rightarrow> 'w \<Rightarrow> 'w \<times> (environment_stop_outcome, 'e) result) \<Rightarrow>
     ('w, down_outcome, ('f, 'l, 'e) down_error) step" where
  "down_workspace codec oss lock root request forwarding lifecycle environment =
     (if op_kind (dn_operation request) \<noteq> Stopping then fail DownInvalid
      else
      (let path = state_file root (dn_workspace request) in
      attempt (acquire lock) (\<lambda>e. fail (DownLock e)) (\<lambda>_.
      attempt (load_state codec (oss 0) path) (\<lambda>e. fail (DownState e)) (\<lambda>loaded.
      (let recovery = classify_interrupted_operation (op_kind (ws_operation loaded))
             (is_some_and (ws_active loaded) (\<lambda>a. indeterminate (active_lifecycle a))) in
      attempt (save_state codec (oss 1) path (stopping_intent request loaded)) (\<lambda>e. fail (DownState e)) (\<lambda>_.
      stop_phases codec (oss 2) path request (stopping_intent request loaded) recovery forwarding lifecycle environment))))))"

section \<open>What a shutdown changes\<close>

text \<open>The active record of \<open>s\<close> is that of \<open>s0\<close>, or that of \<open>s0\<close> with the lifecycle runner recorded as stopped.\<close>

definition down_successor :: "workspace_state \<Rightarrow> workspace_state \<Rightarrow> bool" where
  "down_successor s0 s \<longleftrightarrow> ws_active s = ws_active s0 \<or>
     (\<exists>unknown. ws_active s = map_option (record_lifecycle_stopped unknown) (ws_active s0))"

abbreviation retained_or_stopped :: "'u url_library \<Rightarrow> workspace_state \<Rightarrow> workspace_state \<Rightarrow> bool" where
  "retained_or_stopped lib s0 s \<equiv> continues lib s0 s \<and> down_successor s0 s"

definition down_order :: "label list \<Rightarrow> bool" where
  "down_order labels \<longleftrightarrow>
     (\<exists>i f. labels \<in> {[], [Save i], [Save i, Called StopForwarding, Called CancelLifecycle, Called StopEnvironment, Save f]})"

text \<open>What a finished run stored: success leaves an idle operation without an error except that of an
  interrupted operation; an incomplete one names the failed phases.\<close>

definition down_answer ::
    "down_request \<Rightarrow> workspace_state \<Rightarrow> (down_outcome, ('f, 'l, 'e) down_error) result \<Rightarrow> label list \<Rightarrow> workspace_state \<Rightarrow> bool" where
  "down_answer request s0 r labels s =
     (case r of
        Ok outcome \<Rightarrow> length labels = 5 \<and> ws_operation s = OperationState_idle \<and> down_lifecycle outcome \<noteq> RunnerIndeterminate \<and>
          ws_active s = map_option (record_lifecycle_stopped False) (ws_active s0) \<and>
          down_recovery outcome = classify_interrupted_operation (op_kind (ws_operation s0))
            (is_some_and (ws_active s0) (\<lambda>a. indeterminate (active_lifecycle a))) \<and>
          (ws_last_error s = None \<longleftrightarrow> (\<forall>operation. down_recovery outcome \<noteq> Retained operation))
      | Err e \<Rightarrow>
          (case e of
             DownIncomplete failures \<Rightarrow> length labels = 5 \<and> ws_operation s = OperationState_idle \<and> \<not> no_failures failures \<and>
               ws_last_error s = failure_summary False RecoveryNone failures
           | DownFailureRecord failures _ \<Rightarrow> length labels = 5
           | DownState _ \<Rightarrow> length labels \<le> 1 \<and> ws_active s = ws_active s0
           | DownPanic \<Rightarrow> False
           | _ \<Rightarrow> labels = [] \<and> s = s0))"

definition down_run ::
    "'u url_library \<Rightarrow> (file_system \<Rightarrow> workspace_state option) \<Rightarrow> down_request \<Rightarrow> workspace_state \<Rightarrow> 'w host \<Rightarrow> 'w host \<Rightarrow>
     (down_outcome, ('f, 'l, 'e) down_error) result \<Rightarrow> bool" where
  "down_run lib kept request s0 h0 h r \<longleftrightarrow>
     (\<exists>labels s. ran kept (retained_or_stopped lib s0) h0 labels h \<and> down_order labels \<and> kept (host_files h) = Some s \<and>
        down_answer request s0 r labels s)"

lemma down_runI:
  "ran kept (retained_or_stopped lib s0) h0 labels h \<Longrightarrow> down_order labels \<Longrightarrow> kept (host_files h) = Some s \<Longrightarrow>
     down_answer request s0 r labels s \<Longrightarrow> down_run lib kept request s0 h0 h r"
  by (auto simp: down_run_def)

lemma join_utf8: "list_all valid_utf8 ws \<Longrightarrow> valid_utf8 sep \<Longrightarrow> valid_utf8 (join sep ws)"
  by (induction sep ws rule: join.induct) auto

lemma failure_summary_ok: "option_all summary_ok (failure_summary successful recovery failures)"
proof -
  have "valid_utf8 (operation_debug operation)" for operation by (cases operation) (simp_all add: ascii_valid_utf8)
  then show ?thesis
    by (auto simp: failure_summary_def Let_def ascii_valid_utf8 intro!: redact_ok join_utf8 split: interrupted_operation_recovery.splits)
qed

lemma record_cancelled_facts:
  "state_ok lib s \<Longrightarrow> state_ok lib (record_cancelled lifecycle s)"
  "ws_active (record_cancelled lifecycle s) =
     (case lifecycle of Err _ \<Rightarrow> ws_active s
      | Ok outcome \<Rightarrow> map_option (record_lifecycle_stopped (outcome = RunnerIndeterminate)) (ws_active s))"
proof -
  show "state_ok lib (record_cancelled lifecycle s)" if "state_ok lib s"
    using that by (cases "ws_active s"; cases lifecycle) (simp_all add: record_cancelled_def state_ok_def active_ok_operations)
qed (cases lifecycle; simp add: record_cancelled_def)

lemma wp_observe_perform:
  "(\<And>w r. f (host_world h) = (w, r) \<Longrightarrow> wp (k r) R (h\<lparr>host_world := w, host_log := host_log h @ [Did c]\<rparr>)) \<Longrightarrow>
     wp (observe (perform c f) k) R h"
  by (simp add: wp_def observe_def perform_def split: prod.splits)

lemma down_same [simp]:
  "same_workspace s0 (stopping_intent request s) = same_workspace s0 s"
  "same_workspace s0 (record_cancelled lifecycle s) = same_workspace s0 s"
  by (simp_all add: stopping_intent_def record_cancelled_def split: result.splits)

lemma stopping_intent_facts:
  "ws_active (stopping_intent request s) = ws_active s"
  "state_ok lib s \<Longrightarrow> operation_ok (dn_operation request) \<Longrightarrow> state_ok lib (stopping_intent request s)"
  by (simp_all add: stopping_intent_def state_ok_operations) (simp add: set_last_error_def set_operation_def)

lemma finish_down_run:
  assumes codec: "codec_ok lib codec" "os_user os = user" and intent: "state_ok lib intent" "ws_active intent = ws_active s0"
    "same_workspace s0 intent"
    and recovery: "recovery = classify_interrupted_operation (op_kind (ws_operation s0))
      (is_some_and (ws_active s0) (\<lambda>a. indeterminate (active_lifecycle a)))"
    and run: "ran (stored codec user path) (retained_or_stopped lib s0) h0
      [Save intent, Called StopForwarding, Called CancelLifecycle, Called StopEnvironment] h"
    and now: "stored codec user path (host_files h) = Some intent"
  shows "wp (finish_down codec os path (record_cancelled lifecycle intent) recovery (forwarding :: (_, 'a) result)
       (lifecycle :: (_, 'b) result) (environment :: (_, 'c) result))
     (down_run lib (stored codec user path) request s0 h0) h"
proof -
  define failures where "failures = stop_failures_of forwarding lifecycle environment"
  define final where "final = set_last_error (failure_summary (no_failures failures) recovery failures)
    (set_operation OperationState_idle (record_cancelled lifecycle intent))"
  have final_ok: "state_ok lib final"
    unfolding final_def by (intro state_ok_operations(2,3) record_cancelled_facts(1) intent(1) failure_summary_ok idle_ok)
  have final: "ws_operation final = OperationState_idle" "ws_last_error final = failure_summary (no_failures failures) recovery failures"
    "ws_active final = ws_active (record_cancelled lifecycle intent)"
    by (simp_all add: final_def set_last_error_def set_operation_def)
  have "down_successor s0 final"
    unfolding down_successor_def final(3) record_cancelled_facts(2) intent(2) by (auto split: result.splits)
  then have successor: "retained_or_stopped lib s0 final" using final_ok intent(3) by (simp add: final_def)
  have order: "down_order ([Save intent, Called StopForwarding, Called CancelLifecycle, Called StopEnvironment] @ [Save final])"
    by (simp add: down_order_def)
  have summary: "failure_summary False recovery f = failure_summary False RecoveryNone f" for f :: "('a, 'b, 'c) stop_failures"
    by (simp add: failure_summary_def)
  have quiet: "failure_summary True recovery f = None \<longleftrightarrow> (\<forall>operation. recovery \<noteq> Retained operation)" for f :: "('a, 'b, 'c) stop_failures"
    by (simp add: failure_summary_def split: interrupted_operation_recovery.splits)
  have ok: "down_answer request s0 (if \<not> no_failures failures then Err (DownIncomplete failures)
      else case (forwarding, lifecycle, environment) of
        (Ok f, Ok l, Ok e) \<Rightarrow> Ok \<lparr>down_forwarding = f, down_lifecycle = l, down_environment = e, down_recovery = recovery,
             down_warnings = warnings f l e recovery\<rparr>
      | _ \<Rightarrow> Err DownPanic)
      ([Save intent, Called StopForwarding, Called CancelLifecycle, Called StopEnvironment] @ [Save final]) final"
    by (cases forwarding; cases lifecycle; cases environment)
      (auto simp: down_answer_def final summary quiet failures_def stop_failures_of_def no_failures_def err_def
        record_cancelled_facts(2) intent(2) recovery [symmetric])
  show ?thesis
    unfolding finish_down_def Let_def failures_def [symmetric] final_def [symmetric]
  proof (rule wp_attempt, rule wp_save [OF codec(1) final_ok codec(2) run successor now])
    fix h'
    assume h': "ran (stored codec user path) (retained_or_stopped lib s0) h0
      ([Save intent, Called StopForwarding, Called CancelLifecycle, Called StopEnvironment] @ [Save final]) h'"
    show "(\<forall>a. Ok () = Ok a \<longrightarrow> wp (if \<not> no_failures failures then fail (DownIncomplete failures)
        else case (forwarding, lifecycle, environment) of
          (Ok f, Ok l, Ok e) \<Rightarrow> succeed \<lparr>down_forwarding = f, down_lifecycle = l, down_environment = e, down_recovery = recovery,
               down_warnings = warnings f l e recovery\<rparr>
        | _ \<Rightarrow> fail DownPanic) (down_run lib (stored codec user path) request s0 h0) h') \<and>
        (\<forall>e. Ok () = Err e \<longrightarrow> wp (fail (DownFailureRecord failures e)) (down_run lib (stored codec user path) request s0 h0) h')"
      if "stored codec user path (host_files h') = Some final"
      using down_runI [OF h' order that ok]
      by (cases "no_failures failures"; cases forwarding; cases lifecycle; cases environment) (simp_all add: wp_def fail_def succeed_def)
    from h' obtain s' where s': "stored codec user path (host_files h') = Some s'" by (auto simp: ran_def)
    show "(\<forall>a. Err e'' = Ok a \<longrightarrow> wp (if \<not> no_failures failures then fail (DownIncomplete failures)
        else case (forwarding, lifecycle, environment) of
          (Ok f, Ok l, Ok e) \<Rightarrow> succeed \<lparr>down_forwarding = f, down_lifecycle = l, down_environment = e, down_recovery = recovery,
               down_warnings = warnings f l e recovery\<rparr>
        | _ \<Rightarrow> fail DownPanic) (down_run lib (stored codec user path) request s0 h0) h') \<and>
        (\<forall>e. Err e'' = Err e \<longrightarrow> wp (fail (DownFailureRecord failures e)) (down_run lib (stored codec user path) request s0 h0) h')" for e''
      by (auto intro!: wp_fail down_runI [OF h' order s'] simp: down_answer_def)
  qed
qed

lemma stop_phases_run:
  assumes "codec_ok lib codec" "os_user os = user" "state_ok lib intent" "ws_active intent = ws_active s0" "same_workspace s0 intent"
    and "recovery = classify_interrupted_operation (op_kind (ws_operation s0))
      (is_some_and (ws_active s0) (\<lambda>a. indeterminate (active_lifecycle a)))"
    and run: "ran (stored codec user path) (retained_or_stopped lib s0) h0 [Save intent] h"
    and now: "stored codec user path (host_files h) = Some intent"
  shows "wp (stop_phases codec os path request intent recovery forwarding lifecycle environment)
     (down_run lib (stored codec user path) request s0 h0) h"
proof -
  note stages = ran_perform [OF ran_perform [OF ran_perform [OF run, of StopForwarding], of CancelLifecycle], of StopEnvironment]
  show ?thesis
    unfolding stop_phases_def Let_def
    by (rule wp_observe_perform, rule wp_observe_perform, rule wp_observe_perform, rule finish_down_run [OF assms(1-6)])
      (use stages now in simp_all)
qed

lemma down_workspace_run:
  assumes "codec_ok lib codec" "\<And>i. os_user (oss i) = user" "state_ok lib s0" and op: "operation_ok (dn_operation request)"
    and start: "stored codec user (state_file root (dn_workspace request)) (host_files h) = Some s0"
  shows "wp (down_workspace codec oss lock root request forwarding lifecycle environment)
     (down_run lib (stored codec user (state_file root (dn_workspace request))) request s0 h) h"
proof -
  define path where "path = state_file root (dn_workspace request)"
  note start = start [folded path_def]
  define intent where "intent = stopping_intent request s0"
  have intent: "state_ok lib intent" "ws_active intent = ws_active s0" "same_workspace s0 intent"
    unfolding intent_def using stopping_intent_facts assms(3) op by auto
  have begun: "ran (stored codec user path) (retained_or_stopped lib s0) h [] h"
    by (rule ran_start [of "stored codec user path" h s0, OF start]) (simp add: down_successor_def assms(3))
  have early: "wp (fail e) (down_run lib (stored codec user path) request s0 h) h" if "down_answer request s0 (Err e) [] s0" for e
    by (rule wp_fail, rule down_runI [OF begun _ start that]) (simp add: down_order_def)
  show ?thesis
    unfolding down_workspace_def Let_def path_def [symmetric]
  proof (rule wp_if, rule early, simp add: down_answer_def, rule wp_attempt_acquire,
      rule wp_attempt_load [OF start [folded assms(2) [of 0]]], fold intent_def, rule wp_attempt,
      rule wp_save [OF assms(1) intent(1) assms(2) begun _ start])
    fix h'
    assume h': "ran (stored codec user path) (retained_or_stopped lib s0) h ([] @ [Save intent]) h'"
    show "(\<forall>a. Ok () = Ok a \<longrightarrow> wp (stop_phases codec (oss 2) path request intent
          (classify_interrupted_operation (op_kind (ws_operation s0)) (is_some_and (ws_active s0) (\<lambda>a. indeterminate (active_lifecycle a))))
          forwarding lifecycle environment) (down_run lib (stored codec user path) request s0 h) h') \<and>
        (\<forall>e. Ok () = Err e \<longrightarrow> wp (fail (DownState e)) (down_run lib (stored codec user path) request s0 h) h')"
      if "stored codec user path (host_files h') = Some intent"
      using stop_phases_run [OF assms(1) assms(2) intent refl h' [unfolded append.simps] that] by simp
    show "(\<forall>a. Err e'' = Ok a \<longrightarrow> wp (stop_phases codec (oss 2) path request intent
          (classify_interrupted_operation (op_kind (ws_operation s0)) (is_some_and (ws_active s0) (\<lambda>a. indeterminate (active_lifecycle a))))
          forwarding lifecycle environment) (down_run lib (stored codec user path) request s0 h) h') \<and>
        (\<forall>e. Err e'' = Err e \<longrightarrow> wp (fail (DownState e)) (down_run lib (stored codec user path) request s0 h) h')"
      if "stored codec user path (host_files h') = Some s0 \<or> stored codec user path (host_files h') = Some intent" for e''
      using that intent(2)
      by (auto intro!: wp_fail down_runI [OF h'] simp: down_answer_def down_order_def)
  qed (auto intro!: early simp: down_answer_def down_successor_def intent)
qed

section \<open>The shutdown\<close>


text \<open>Witness of \<open>shutdown_phases\<close>: stopping the sample workspace.\<close>

definition sample_stop :: down_request where
  "sample_stop = DownRequest_new (WorkspaceName ''demo'') \<lparr>op_kind = Stopping, op_id = Some ''op'',
     op_started_at = Some (StateTimestamp ''2024-01-01T00:00:00Z'')\<rparr>"

definition stop_sample_codec :: state_codec where
  "stop_sample_codec = table_codec [sample_state, stopping_intent sample_stop sample_state]"

definition sample_stopped :: "unit host \<times> (down_outcome, (unit, unit, unit) down_error) result" where
  "sample_stopped = down_workspace stop_sample_codec (\<lambda>_. calm_os) None [] sample_stop (\<lambda>_ _ w. (w, Ok ForwardingStopped))
     (\<lambda>_ _ w. (w, Ok RunnerNotRunning)) (\<lambda>_ _ w. (w, Ok EnvironmentMissing)) (sample_host (WorkspaceName ''demo''))"


end
