(* ===== verification/Session.thy ===== *)
theory Session
  imports Rebuild Down
begin

text \<open>
  Sequences of transactions on one workspace. Each command runs \<open>up\<close>, \<open>rebuild\<close> or \<open>down\<close> with
  adapters and operating system of its own, and may be cut off at any file system it goes through;
  the next command starts from what it left, in a world of any kind.
\<close>

section \<open>Commands\<close>

datatype ('p, 'pe, 'fe, 'ee, 'se, 'b, 'be, 'f, 'l, 'e, 'w) command =
    UpCommand reconciliation_request "('p, 'pe, 'fe, 'w) reconciliation_planner" "('p, 'ee, 'w) environment_reconciler"
  | RebuildCommand "workspace_state_error \<Rightarrow> string" rebuild_request "('p, 'pe, 'fe, 'w) rebuild_planner"
      "('se, 'w) checkout_status" "('p, 'b, 'be, 'w) rebuild_environment"
  | DownCommand down_request
      "workspace_name \<Rightarrow> active_generation option \<Rightarrow> 'w \<Rightarrow> 'w \<times> (forwarding_stop_outcome, 'f) result"
      "active_generation option \<Rightarrow> nat \<Rightarrow> 'w \<Rightarrow> 'w \<times> (lifecycle_stop_outcome, 'l) result"
      "active_generation option \<Rightarrow> nat \<Rightarrow> 'w \<Rightarrow> 'w \<times> (environment_stop_outcome, 'e) result"

primrec command_workspace :: "('p, 'pe, 'fe, 'ee, 'se, 'b, 'be, 'f, 'l, 'e, 'w) command \<Rightarrow> workspace_name" where
  "command_workspace (UpCommand request _ _) = req_workspace request"
| "command_workspace (RebuildCommand _ request _ _ _) = rb_workspace request"
| "command_workspace (DownCommand request _ _ _) = dn_workspace request"

primrec command_typed :: "('p, 'pe, 'fe, 'ee, 'se, 'b, 'be, 'f, 'l, 'e, 'w) command \<Rightarrow> bool" where
  "command_typed (UpCommand request planner environment) \<longleftrightarrow> reconciliation_typed request planner environment"
| "command_typed (RebuildCommand state_text request planner _ environment) \<longleftrightarrow>
     rebuild_typed state_text request planner environment"
| "command_typed (DownCommand request _ _ _) \<longleftrightarrow> operation_ok (dn_operation request)"

primrec execute ::
    "state_codec \<Rightarrow> path \<Rightarrow> (nat \<Rightarrow> os_answers) \<Rightarrow> lock_error option \<Rightarrow>
     ('p, 'pe, 'fe, 'ee, 'se, 'b, 'be, 'f, 'l, 'e, 'w) command \<Rightarrow> 'w host \<Rightarrow> 'w host" where
  "execute codec root oss lock (UpCommand request planner environment) h =
     fst (reconcile_workspace codec oss lock root request planner environment h)"
| "execute codec root oss lock (RebuildCommand state_text request planner status environment) h =
     fst (rebuild_workspace codec oss lock root state_text request planner status environment h)"
| "execute codec root oss lock (DownCommand request forwarding lifecycle environment) h =
     fst (down_workspace codec oss lock root request forwarding lifecycle environment h)"

text \<open>The file systems a command went through, the last one being what it left.\<close>

definition moments :: "'w host \<Rightarrow> 'w host \<Rightarrow> file_system list" where
  "moments h h' = passed (drop (length (host_log h)) (host_log h')) @ [host_files h']"

text \<open>A session: where each command was left, by its end or by a crash at moment \<open>n\<close>.\<close>

fun session ::
    "state_codec \<Rightarrow> path \<Rightarrow> (('p, 'pe, 'fe, 'ee, 'se, 'b, 'be, 'f, 'l, 'e, 'w) command \<times> (nat \<Rightarrow> os_answers) \<times>
       lock_error option \<times> nat \<times> 'w) list \<Rightarrow> 'w host \<Rightarrow> file_system list" where
  "session codec root [] h = []"
| "session codec root ((c, oss, lock, n, w) # rest) h =
     (let h' = execute codec root oss lock c h;
          left = moments h h' ! min n (length (moments h h') - 1)
      in left # session codec root rest (h'\<lparr>host_files := left, host_world := w\<rparr>))"

section \<open>Lineage\<close>

text \<open>The generation of a state, 0 without an active record; and what relates a state to an earlier one.\<close>

definition generation_of :: "workspace_state \<Rightarrow> nat" where
  "generation_of s = (case ws_active s of None \<Rightarrow> 0 | Some a \<Rightarrow> unat (generation_get (active_generation_id a)))"

definition build_inputs :: "workspace_state \<Rightarrow> (keyed_digest \<times> keyed_digest) option" where
  "build_inputs s = map_option (\<lambda>a. (fp_build (active_fingerprints a), fp_create (active_fingerprints a))) (ws_active s)"

definition lineage :: "workspace_state \<Rightarrow> workspace_state \<Rightarrow> bool" where
  "lineage s0 s \<longleftrightarrow> same_workspace s0 s \<and> generation_of s0 \<le> generation_of s \<and>
     (generation_of s = generation_of s0 \<longrightarrow> build_inputs s = build_inputs s0)"

lemma lineage_trans: "lineage a b \<Longrightarrow> lineage b c \<Longrightarrow> lineage a c"
  by (auto simp: lineage_def same_workspace_def)

lemma lineage_same: "same_workspace s0 s \<Longrightarrow> ws_active s = ws_active s0 \<Longrightarrow> lineage s0 s"
  by (simp add: lineage_def generation_of_def build_inputs_def)

lemma lineage_up:
  assumes "same_workspace s0 s" "state_ok lib s" "up_successor s0 s"
  shows "lineage s0 s"
proof -
  from assms(3) obtain b where b: "ws_active s = Some b" by (auto simp: up_successor_def)
  with assms(2) have "generation_get (active_generation_id b) \<noteq> 0" by (simp add: state_ok_def active_ok_def generation_ok_def)
  then have "0 < unat (generation_get (active_generation_id b))" by (simp add: unat_gt_0)
  with assms(1,3) b show ?thesis
    by (auto simp: up_successor_def lineage_def generation_of_def build_inputs_def split: option.splits)
qed

lemma lineage_rebuild: "same_workspace s0 s \<Longrightarrow> rebuild_successor s0 s \<Longrightarrow> lineage s0 s"
  by (auto simp: rebuild_successor_def lineage_def generation_of_def build_inputs_def split: option.splits)

lemma lineage_down: "same_workspace s0 s \<Longrightarrow> down_successor s0 s \<Longrightarrow> lineage s0 s"
  by (cases "ws_active s0")
    (auto simp: down_successor_def lineage_def generation_of_def build_inputs_def record_lifecycle_stopped_def)

lemma ran_moments:
  assumes "ran kept P h labels h'" "f \<in> set (moments h h')"
  shows "\<exists>s. kept f = Some s \<and> P s"
  using assms by (auto simp: ran_def moments_def)

lemma execute_moments:
  assumes "codec_ok lib codec" "\<forall>i. os_user (oss i) = user" "state_ok lib s0" "command_typed c"
    and "stored codec user (state_file root (command_workspace c)) (host_files h) = Some s0"
    and f: "f \<in> set (moments h (execute codec root oss lock c h))"
  shows "\<exists>s. stored codec user (state_file root (command_workspace c)) f = Some s \<and> state_ok lib s \<and> lineage s0 s"
proof (cases c)
  case (UpCommand request planner environment)
  from reconcile_run [of lib codec oss user s0 request planner environment root h lock] assms(1-5) UpCommand
  obtain labels where "ran (stored codec user (state_file root (req_workspace request))) (retained_or_committed lib s0) h labels
      (execute codec root oss lock c h)" by (auto simp: wp_def up_run_def)
  from ran_moments [OF this f] UpCommand lineage_same lineage_up show ?thesis by fastforce
next
  case (RebuildCommand state_text request planner status environment)
  from rebuild_workspace_run [of lib codec oss user s0 state_text request planner environment root h lock status] assms(1-5) RebuildCommand
  obtain labels where "ran (stored codec user (state_file root (rb_workspace request))) (retained_or_rebuilt lib s0) h labels
      (execute codec root oss lock c h)" by (auto simp: wp_def rebuild_run_def)
  from ran_moments [OF this f] RebuildCommand lineage_same lineage_rebuild show ?thesis by fastforce
next
  case (DownCommand request forwarding lifecycle environment)
  from down_workspace_run [of lib codec oss user s0 request root h lock forwarding lifecycle environment] assms(1-5) DownCommand
  obtain labels where "ran (stored codec user (state_file root (dn_workspace request))) (retained_or_stopped lib s0) h labels
      (execute codec root oss lock c h)" by (auto simp: wp_def down_run_def)
  from ran_moments [OF this f] DownCommand lineage_down show ?thesis by fastforce
qed

text \<open>The states at which commands were left form one line of descent.\<close>

definition descends :: "(file_system \<Rightarrow> workspace_state option) \<Rightarrow> file_system \<Rightarrow> file_system \<Rightarrow> bool" where
  "descends kept f g \<longleftrightarrow> (\<exists>s t. kept f = Some s \<and> kept g = Some t \<and> lineage s t)"

lemma session_lineage:
  assumes "codec_ok lib codec"
    and "\<forall>(c, oss, lock, n, w) \<in> set commands. command_typed c \<and> command_workspace c = name \<and> (\<forall>i. os_user (oss i) = user)"
    and "stored codec user (state_file root name) (host_files h) = Some s0" "state_ok lib s0"
  shows "sorted_wrt (descends (stored codec user (state_file root name))) (host_files h # session codec root commands h)"
  using assms(2-4)
proof (induction commands arbitrary: h s0)
  case (Cons command commands)
  obtain c oss lock n w where command: "command = (c, oss, lock, n, w)" by (cases command) auto
  let ?kept = "stored codec user (state_file root name)"
  let ?moments = "moments h (execute codec root oss lock c h)"
  define left where "left = ?moments ! min n (length ?moments - 1)"
  define h' where "h' = (execute codec root oss lock c h)\<lparr>host_files := left, host_world := w\<rparr>"
  have "left \<in> set ?moments" unfolding left_def by (rule nth_mem) (simp add: moments_def min_def)
  with execute_moments [OF assms(1) _ Cons.prems(3), of oss user c root h left lock] Cons.prems(1,2) command
  obtain s where s: "?kept left = Some s" "state_ok lib s" "lineage s0 s" by auto
  have rest: "sorted_wrt (descends ?kept) (host_files h' # session codec root commands h')"
    by (rule Cons.IH) (use Cons.prems(1) s in \<open>simp_all add: h'_def\<close>)
  have "descends ?kept (host_files h) g" if "g \<in> set (left # session codec root commands h')" for g
  proof -
    have "g = left \<or> descends ?kept left g" using that rest by (auto simp: h'_def)
    then obtain t where "?kept g = Some t" "lineage s t"
      using s(1) by (auto simp: descends_def lineage_same)
    then show ?thesis using Cons.prems(2) lineage_trans [OF s(3)] by (auto simp: descends_def)
  qed
  moreover have "session codec root (command # commands) h = left # session codec root commands h'"
    by (simp only: command session.simps Let_def left_def h'_def)
  moreover have "host_files h' = left" by (simp add: h'_def)
  ultimately show ?case using rest by (simp del: session.simps)
qed simp

end
