(* ===== verification/Spec2Isabelle.thy ===== *)
theory Spec2Isabelle
  imports Identity Workspace Broker_Frames Broker Net Status Credentials Credential_Protocol
    Executable Git_Identity Substitution Profile Host_Requirements Metadata Lifecycle Feature_Lock Docker_Options Ports
    Profile_Validation Discovery Compose_Plan Immutable_Plan Session
begin

text \<open>
  A verification development for \<^verbatim>\<open>cdenv\<close>.
\<close>

section \<open>Sessions of transactions\<close>

text \<open>C9: the states that a sequence of \<open>up\<close>, \<open>rebuild\<close> and \<open>down\<close> commands leaves form one line of descent, also when each
  command may be cut off at any file system it goes through: any later state is of the same
  workspace as any earlier one, its generation is not smaller, and where the generation is the same
  so are the build and create fingerprints of the active record. Every command has adapters and an
  operating system of its own.\<close>

theorem generations_advance:
  assumes "codec_ok lib codec"
    and "\<forall>(c, oss, lock, n, w) \<in> set commands. command_typed c \<and> command_workspace c = name \<and> (\<forall>i. os_user (oss i) = user)"
    and "stored codec user (state_file root name) (host_files h) = Some s0" and "state_ok lib s0"
  shows "sorted_wrt (descends (stored codec user (state_file root name))) (host_files h # session codec root commands h)"
  by (rule session_lineage [OF assms])

text \<open>Witness of \<open>generations_advance\<close>: two \<open>up\<close> commands, the first cut off after its first write.\<close>

definition sample_command :: "(unit, unit, unit, unit, unit, unit, unit, unit, unit, unit, unit) command" where
  "sample_command = UpCommand sample_request sample_planner sample_environment"

lemma sample_command_typed: "command_typed sample_command"
  by (auto simp: sample_command_def reconciliation_typed_def sample_request_ok sample_planner_def sample_environment_def
      sample_plan_ok sample_active_ok)

theorem generations_advance_witness:
  "sorted_wrt (descends (stored sample_codec 1000 (state_file [] (WorkspaceName ''demo''))))
     (host_files (sample_host (WorkspaceName ''demo'')) #
      session sample_codec [] [(sample_command, \<lambda>_. calm_os, None, 1, ()), (sample_command, \<lambda>_. calm_os, None, 100, ())]
        (sample_host (WorkspaceName ''demo''))) \<and>
   length (session sample_codec [] [(sample_command, \<lambda>_. calm_os, None, 1, ()), (sample_command, \<lambda>_. calm_os, None, 100, ())]
        (sample_host (WorkspaceName ''demo''))) = 2"
proof
  show "sorted_wrt (descends (stored sample_codec 1000 (state_file [] (WorkspaceName ''demo''))))
     (host_files (sample_host (WorkspaceName ''demo'')) #
      session sample_codec [] [(sample_command, \<lambda>_. calm_os, None, 1, ()), (sample_command, \<lambda>_. calm_os, None, 100, ())]
        (sample_host (WorkspaceName ''demo'')))"
  proof (rule generations_advance)
    show "codec_ok no_urls sample_codec" by (simp add: sample_codec_def table_codec_ok)
    show "\<forall>(c, oss, lock, n, w) \<in> set [(sample_command, \<lambda>_. calm_os, None, 1, ()), (sample_command, \<lambda>_. calm_os, None, 100, ())].
        command_typed c \<and> command_workspace c = WorkspaceName ''demo'' \<and> (\<forall>i. os_user (oss i) = 1000)"
      using sample_command_typed by (simp add: sample_command_def sample_request_def calm_os_def)
    show "stored sample_codec 1000 (state_file [] (WorkspaceName ''demo'')) (host_files (sample_host (WorkspaceName ''demo''))) =
        Some sample_state" by (simp add: sample_codec_def sample_stored)
    show "state_ok no_urls sample_state" by (rule sample_state_ok)
  qed
qed (simp add: Let_def)

end
